(* ===== verification/Prelude.thy ===== *)
theory Prelude
  imports
    Main
    "HOL-Library.Word"
    "HOL-Library.Multiset"
    "HOL-Library.List_Lexorder"
    "HOL-Library.Char_ord"
begin

text \<open>
  Shared vocabulary of the development: machine integers and byte strings, Rust's
  \<open>Result\<close> with panics made explicit, the standard library containers the crate uses
  (\<open>HashSet\<close> iteration, \<open>BTreeMap\<close>), decimal printing of integers, and the
  generic list lemmas. The ordered-map interface is the locale \<open>ordered_map\<close>, interpreted
  on the sorted association lists that stand for \<open>BTreeMap\<close>.
\<close>

named_theorems result_simps \<open>inversion of computations in the result type\<close>

section \<open>Integers and strings\<close>

type_synonym u8 = "8 word"
type_synonym u32 = "32 word"
type_synonym u64 = "64 word"

text \<open>Rust strings are UTF-8 byte sequences: a \<open>char\<close> is one byte. The order on
  strings (HOL-Library.List_Lexorder over Char_ord) is the bytewise lexicographic one, which is
  \<open>Ord for String\<close>.\<close>

type_synonym bytes = "u8 list"

section \<open>Results with panics\<close>

text \<open>Rust's \<open>Result<T, E>\<close>; \<open>Panic\<close> is the outcome of an \<open>expect\<close>,
  an out-of-range index or an arithmetic panic.\<close>

datatype ('a, 'e) result = Ok 'a | Err 'e | Panic

primrec and_then :: "('a, 'e) result \<Rightarrow> ('a \<Rightarrow> ('b, 'e) result) \<Rightarrow> ('b, 'e) result" where
  "and_then (Ok x) f = f x"
| "and_then (Err e) f = Err e"
| "and_then Panic f = Panic"

primrec map_err :: "('e \<Rightarrow> 'f) \<Rightarrow> ('a, 'e) result \<Rightarrow> ('a, 'f) result" where
  "map_err g (Ok x) = Ok x"
| "map_err g (Err e) = Err (g e)"
| "map_err g Panic = Panic"

primrec ok_or :: "'e \<Rightarrow> 'a option \<Rightarrow> ('a, 'e) result" where
  "ok_or e None = Err e"
| "ok_or e (Some x) = Ok x"

text \<open>\<open>Option::expect\<close>: a \<open>None\<close> panics.\<close>

primrec expect :: "'a option \<Rightarrow> ('a, 'e) result" where
  "expect None = Panic"
| "expect (Some x) = Ok x"

definition is_ok :: "('a, 'e) result \<Rightarrow> bool" where
  "is_ok r = (case r of Ok _ \<Rightarrow> True | _ \<Rightarrow> False)"

text \<open>\<open>iter().map(f).collect::<Result<Vec<_>, _>>()\<close>: stops at the first failure.\<close>

primrec result_map :: "('a \<Rightarrow> ('b, 'e) result) \<Rightarrow> 'a list \<Rightarrow> ('b list, 'e) result" where
  "result_map f [] = Ok []"
| "result_map f (x # xs) = and_then (f x) (\<lambda>y. and_then (result_map f xs) (\<lambda>ys. Ok (y # ys)))"

lemma and_then_Ok_iff [result_simps]:
  "and_then r f = Ok y \<longleftrightarrow> (\<exists>x. r = Ok x \<and> f x = Ok y)"
  by (cases r) auto

lemma and_then_Err_iff [result_simps]:
  "and_then r f = Err e \<longleftrightarrow> r = Err e \<or> (\<exists>x. r = Ok x \<and> f x = Err e)"
  by (cases r) auto

lemma and_then_Panic_iff [result_simps]:
  "and_then r f = Panic \<longleftrightarrow> r = Panic \<or> (\<exists>x. r = Ok x \<and> f x = Panic)"
  by (cases r) auto

lemma map_err_iff [result_simps]:
  "map_err g r = Ok y \<longleftrightarrow> r = Ok y"
  "map_err g r = Err f \<longleftrightarrow> (\<exists>e. r = Err e \<and> f = g e)"
  "map_err g r = Panic \<longleftrightarrow> r = Panic"
  by (cases r; auto)+

lemma ok_or_iff [result_simps]:
  "ok_or e p = Ok x \<longleftrightarrow> p = Some x"
  "ok_or e p = Err f \<longleftrightarrow> p = None \<and> f = e"
  "ok_or e p \<noteq> Panic"
  by (cases p; auto)+

lemma expect_iff [result_simps]:
  "expect p = Ok x \<longleftrightarrow> p = Some x"
  "expect p \<noteq> Err e"
  "expect p = Panic \<longleftrightarrow> p = None"
  by (cases p; auto)+

lemma is_ok_iff [result_simps]: "is_ok r \<longleftrightarrow> (\<exists>x. r = Ok x)"
  by (cases r) (auto simp: is_ok_def)

lemma result_map_Ok_iff:
  "result_map f xs = Ok ys \<longleftrightarrow> list_all2 (\<lambda>x y. f x = Ok y) xs ys"
proof (induction xs arbitrary: ys)
  case Nil
  then show ?case by (cases ys) auto
next
  case (Cons x xs)
  then show ?case by (cases ys) (auto simp: result_simps)
qed

text \<open>It fails with the failure of the first element that fails.\<close>

lemma ex_first_Cons:
  "(\<exists>pre y post. x # xs = pre @ y # post \<and> (\<forall>z \<in> set pre. P z) \<and> Q y) \<longleftrightarrow>
     Q x \<or> P x \<and> (\<exists>pre y post. xs = pre @ y # post \<and> (\<forall>z \<in> set pre. P z) \<and> Q y)" (is "?l \<longleftrightarrow> ?r")
proof
  assume ?l
  then obtain pre y post where "x # xs = pre @ y # post" "\<forall>z \<in> set pre. P z" "Q y" by blast
  then show ?r by (cases pre) auto
next
  assume ?r
  then consider "Q x" | pre y post where "P x" "xs = pre @ y # post" "\<forall>z \<in> set pre. P z" "Q y" by blast
  then show ?l
  proof cases
    case 1
    then show ?thesis by (intro exI[of _ "[]"]) simp
  next
    case 2
    then show ?thesis by (intro exI[of _ "x # pre"]) auto
  qed
qed

lemma result_map_Err_iff:
  "result_map f xs = Err e \<longleftrightarrow>
     (\<exists>pre x post. xs = pre @ x # post \<and> (\<forall>y \<in> set pre. is_ok (f y)) \<and> f x = Err e)"
  by (induction xs) (simp, unfold ex_first_Cons, auto simp: result_simps)

lemma result_map_Panic_iff:
  "result_map f xs = Panic \<longleftrightarrow>
     (\<exists>pre x post. xs = pre @ x # post \<and> (\<forall>y \<in> set pre. is_ok (f y)) \<and> f x = Panic)"
  by (induction xs) (simp, unfold ex_first_Cons, auto simp: result_simps)

lemma result_map_total:
  "(\<And>x. x \<in> set xs \<Longrightarrow> \<exists>y. f x = Ok y) \<Longrightarrow> \<exists>ys. result_map f xs = Ok ys"
  by (induction xs) (auto simp: result_simps)

lemma result_map_pure: "(\<And>x. x \<in> set xs \<Longrightarrow> f x = Ok (g x)) \<Longrightarrow> result_map f xs = Ok (map g xs)"
  by (induction xs) auto

lemma result_map_cong [fundef_cong]:
  "xs = ys \<Longrightarrow> (\<And>x. x \<in> set ys \<Longrightarrow> f x = g x) \<Longrightarrow> result_map f xs = result_map g ys"
  by (induction ys arbitrary: xs) auto

section \<open>Hash sets\<close>

text \<open>
  A \<open>HashSet\<close> is iterated in an order that depends on its randomly seeded hasher. Where
  the order can be observed, the set is the list of its elements in iteration order, and the
  order itself is an argument \<open>h\<close> of the model: \<open>hash_collect h xs\<close> is
  \<open>xs.iter().copied().collect::<HashSet<_>>()\<close>. The only thing known of \<open>h\<close> is
  that it permutes (\<open>hash_order\<close>).
\<close>

definition hash_order :: "('a list \<Rightarrow> 'a list) \<Rightarrow> bool" where
  "hash_order h \<longleftrightarrow> (\<forall>xs. mset (h xs) = mset xs)"

definition hash_collect :: "('a list \<Rightarrow> 'a list) \<Rightarrow> 'a list \<Rightarrow> 'a list" where
  "hash_collect h xs = h (remdups xs)"

lemma set_hash_collect [simp]: "hash_order h \<Longrightarrow> set (hash_collect h xs) = set xs"
  unfolding hash_order_def hash_collect_def by (metis set_mset_mset set_remdups)

lemma distinct_hash_collect: "hash_order h \<Longrightarrow> distinct (hash_collect h xs)"
  unfolding hash_order_def hash_collect_def by (metis distinct_remdups mset_eq_imp_distinct_iff)

lemma hash_order_id [simp]: "hash_order (\<lambda>xs. xs)" and hash_order_rev [simp]: "hash_order rev"
  by (simp_all add: hash_order_def)

section \<open>Ordered maps\<close>

lemma map_of_nth_fst:
  "distinct (map fst xs) \<Longrightarrow> i < length xs \<Longrightarrow> map_of xs (fst (xs ! i)) = Some (snd (xs ! i))"
  by (metis map_of_is_SomeI nth_mem prod.collapse)

lemma alist_conv_keys:
  "distinct (map fst xs) \<Longrightarrow> xs = map (\<lambda>k. (k, the (map_of xs k))) (map fst xs)"
  by (rule nth_equalityI) (auto simp: map_of_nth_fst)

text \<open>Two association lists with strictly increasing keys and the same lookups are equal.\<close>

lemma sorted_alist_ext:
  assumes "sorted_wrt (<) (map fst xs)" "sorted_wrt (<) (map fst ys)" "map_of xs = map_of ys"
  shows "(xs :: ('k::linorder \<times> 'v) list) = ys"
proof -
  have d: "distinct (map fst xs)" "distinct (map fst ys)"
    using assms(1,2) by (simp_all add: strict_sorted_iff)
  then have "set xs = set ys"
    using assms(3) by (metis map_of_inject_set)
  moreover from this have "map fst xs = map fst ys"
    using assms(1,2) by (metis list.set_map strict_sorted_equal)
  ultimately show ?thesis
    using d assms(3) by (metis alist_conv_keys)
qed

text \<open>
  What the crate uses of \<open>BTreeMap\<close>: insertion (which reports whether the key was
  present), lookup, and iteration in key order. The lemma of the interface that the descriptor
  builder rests on is that the entries depend on what was inserted and not on the order of the
  insertions.
\<close>

locale ordered_map =
  fixes empty :: "'m"
    and insert :: "'k::linorder \<Rightarrow> 'v \<Rightarrow> 'm \<Rightarrow> 'm"
    and lookup :: "'m \<Rightarrow> 'k \<Rightarrow> 'v option"
    and entries :: "'m \<Rightarrow> ('k \<times> 'v) list"
    and inv :: "'m \<Rightarrow> bool"
  assumes inv_empty: "inv empty"
    and lookup_empty: "lookup empty = Map.empty"
    and inv_insert: "inv m \<Longrightarrow> inv (insert k v m)"
    and lookup_insert: "inv m \<Longrightarrow> lookup (insert k v m) = (lookup m)(k \<mapsto> v)"
    and entries_sorted: "inv m \<Longrightarrow> sorted_wrt (<) (map fst (entries m))"
    and entries_lookup: "inv m \<Longrightarrow> map_of (entries m) = lookup m"
begin

fun insert_all :: "('k \<times> 'v) list \<Rightarrow> 'm \<Rightarrow> 'm" where
  "insert_all [] m = m"
| "insert_all ((k, v) # kvs) m = insert_all kvs (insert k v m)"

lemma inv_insert_all: "inv m \<Longrightarrow> inv (insert_all kvs m)"
  by (induction kvs m rule: insert_all.induct) (auto intro: inv_insert)

lemma lookup_insert_all:
  "inv m \<Longrightarrow> lookup (insert_all kvs m) = lookup m ++ map_of (rev kvs)"
proof (induction kvs m rule: insert_all.induct)
  case (1 m)
  then show ?case by simp
next
  case (2 k v kvs m)
  have "lookup (insert_all kvs (insert k v m)) = lookup (insert k v m) ++ map_of (rev kvs)"
    by (rule "2.IH") (rule inv_insert, rule "2.prems")
  also have "\<dots> = (lookup m)(k \<mapsto> v) ++ map_of (rev kvs)"
    using "2.prems" by (simp only: lookup_insert)
  also have "\<dots> = lookup m ++ map_of (rev ((k, v) # kvs))"
    by (auto simp: map_add_def fun_eq_iff split: option.splits)
  finally show ?case by simp
qed

lemma entries_ext:
  assumes "inv m" "inv m'" "lookup m = lookup m'"
  shows "entries m = entries m'"
  using assms by (intro sorted_alist_ext) (auto simp: entries_sorted entries_lookup)

lemma entries_insert_perm:
  assumes "mset kvs = mset kvs'" and "distinct (map fst kvs)" and "inv m"
  shows "entries (insert_all kvs m) = entries (insert_all kvs' m)"
proof (rule entries_ext)
  have "distinct (map fst (rev kvs))" "distinct (map fst (rev kvs'))"
    using assms(1,2) mset_eq_imp_distinct_iff[of "map fst kvs" "map fst kvs'"]
    by (auto simp: rev_map[symmetric] mset_map)
  moreover have "set (rev kvs) = set (rev kvs')"
    using assms(1) by (metis set_mset_mset set_rev)
  ultimately have "map_of (rev kvs) = map_of (rev kvs')"
    by (metis map_of_inject_set)
  then show "lookup (insert_all kvs m) = lookup (insert_all kvs' m)"
    using assms(3) by (simp add: lookup_insert_all)
qed (use assms(3) in \<open>auto intro: inv_insert_all\<close>)

end

text \<open>The implementation: association lists with strictly increasing keys.\<close>

type_synonym ('k, 'v) btree = "('k \<times> 'v) list"

fun bt_insert :: "'k::linorder \<Rightarrow> 'v \<Rightarrow> ('k, 'v) btree \<Rightarrow> ('k, 'v) btree" where
  "bt_insert k v [] = [(k, v)]"
| "bt_insert k v ((k', v') # m) =
     (if k < k' then (k, v) # (k', v') # m
      else if k = k' then (k, v) # m
      else (k', v') # bt_insert k v m)"

definition bt_wf :: "('k::linorder, 'v) btree \<Rightarrow> bool" where
  "bt_wf m \<longleftrightarrow> sorted_wrt (<) (map fst m)"

lemma map_of_bt_insert [simp]: "map_of (bt_insert k v m) = (map_of m)(k \<mapsto> v)"
  by (induction k v m rule: bt_insert.induct) auto

lemma set_fst_bt_insert [simp]: "fst ` set (bt_insert k v m) = Set.insert k (fst ` set m)"
  by (induction k v m rule: bt_insert.induct) auto

lemma bt_wf_insert: "bt_wf m \<Longrightarrow> bt_wf (bt_insert k v m)"
  unfolding bt_wf_def
proof (induction k v m rule: bt_insert.induct)
  case (2 k v k' v' m)
  have "\<forall>x \<in> fst ` set (bt_insert k v m). k' < x" if "\<not> k < k'" "k \<noteq> k'"
    using 2 that by (auto simp del: set_fst_bt_insert simp add: set_fst_bt_insert)
  then show ?case using 2 by auto
qed simp

lemma bt_wf_empty [simp]: "bt_wf []"
  by (simp add: bt_wf_def)

lemma bt_wf_distinct: "bt_wf m \<Longrightarrow> distinct (map fst m)"
  by (simp add: bt_wf_def strict_sorted_iff)

interpretation bt: ordered_map "[]" bt_insert "map_of" "\<lambda>m. m" bt_wf
  by unfold_locales (auto simp: bt_wf_insert, simp_all add: bt_wf_def)

lemma length_bt_insert:
  "length (bt_insert k v m) = (if k \<in> fst ` set m then length m else Suc (length m))"
  if "bt_wf m"
  using that unfolding bt_wf_def by (induction k v m rule: bt_insert.induct) auto

section \<open>Decimal printing\<close>

text \<open>\<open>Display\<close> of the unsigned integer types.\<close>

definition digit :: "nat \<Rightarrow> char" where
  "digit d = char_of (48 + d)"

fun dec :: "nat \<Rightarrow> string" where
  "dec n = (if n < 10 then [digit n] else dec (n div 10) @ [digit (n mod 10)])"

declare dec.simps [simp del]

definition is_digit :: "char \<Rightarrow> bool" where
  "is_digit c \<longleftrightarrow> (48::nat) \<le> of_char c \<and> of_char c \<le> (57::nat)"

lemma of_char_digit [simp]: "d < 10 \<Longrightarrow> of_char (digit d) = (48 + d :: nat)"
  by (simp add: digit_def)

lemma digit_inject: "d < 10 \<Longrightarrow> e < 10 \<Longrightarrow> digit d = digit e \<longleftrightarrow> d = e"
  by (metis add_left_cancel of_char_digit)

lemma is_digit_digit: "d < 10 \<Longrightarrow> is_digit (digit d)"
  by (simp add: is_digit_def)

lemma dec_nonempty [simp]: "dec n \<noteq> []"
  by (subst dec.simps) simp

lemma dec_digits: "c \<in> set (dec n) \<Longrightarrow> is_digit c"
proof (induction n rule: dec.induct)
  case (1 n)
  then show ?case
    by (subst (asm) (2) dec.simps) (auto simp: is_digit_digit split: if_splits)
qed

lemma dec_inject: "dec m = dec n \<longleftrightarrow> m = n"
proof
  show "dec m = dec n \<Longrightarrow> m = n"
  proof (induction m arbitrary: n rule: dec.induct)
    case (1 m)
    show ?case
    proof (cases "m < 10 \<or> n < 10")
      case True
      with 1(2) show ?thesis
        by (auto simp: dec.simps[of m] dec.simps[of n] digit_inject append_eq_Cons_conv
            Cons_eq_append_conv split: if_splits)
    next
      case False
      with 1(2) have "dec (m div 10) = dec (n div 10)" and d: "digit (m mod 10) = digit (n mod 10)"
        by (simp_all add: dec.simps[of m] dec.simps[of n])
      with False 1(1) have "m div 10 = n div 10" by simp
      moreover from d have "m mod 10 = n mod 10" by (simp add: digit_inject)
      ultimately show ?thesis by (metis div_mult_mod_eq)
    qed
  qed
qed simp

section \<open>Lists\<close>

text \<open>\<open>slice::join\<close> on strings.\<close>

fun join :: "string \<Rightarrow> string list \<Rightarrow> string" where
  "join sep [] = []"
| "join sep [s] = s"
| "join sep (s # t # ss) = s @ sep @ join sep (t # ss)"

lemma find_Some_iff: "List.find P xs = Some x \<Longrightarrow> x \<in> set xs \<and> P x"
  by (auto simp: find_Some_iff)

lemma find_None_iff: "List.find P xs = None \<longleftrightarrow> (\<forall>x \<in> set xs. \<not> P x)"
  by (auto simp: find_None_iff)

lemma insort_key_map: "insort_key f (g x) (map g xs) = map g (insort_key (\<lambda>y. f (g y)) x xs)"
  by (induction xs) auto

lemma sort_key_map: "sort_key f (map g xs) = map g (sort_key (\<lambda>y. f (g y)) xs)"
  by (induction xs) (auto simp: insort_key_map)

section \<open>Transition systems\<close>

text \<open>A component whose state changes by steps that keep an invariant: the invariant holds along
  every history, and so does everything two states related by a step have in common.\<close>

locale transition_system =
  fixes step :: "'s \<Rightarrow> 's \<Rightarrow> bool"
    and good :: "'s \<Rightarrow> bool"
    and fixed :: "'s \<Rightarrow> 'c"
  assumes step_good: "good s \<Longrightarrow> step s t \<Longrightarrow> good t"
    and step_fixed: "good s \<Longrightarrow> step s t \<Longrightarrow> fixed t = fixed s"
begin

lemma history_good: "step\<^sup>*\<^sup>* s t \<Longrightarrow> good s \<Longrightarrow> good t"
  by (induction rule: rtranclp_induct) (auto intro: step_good)

lemma history_fixed: "step\<^sup>*\<^sup>* s t \<Longrightarrow> good s \<Longrightarrow> fixed t = fixed s"
proof (induction rule: rtranclp_induct)
  case (step t u)
  then show ?case using history_good step_fixed by metis
qed simp

end

text \<open>A component that, besides, only ever grows: what a state holds every later state still holds.\<close>

locale growing_system = transition_system +
  fixes grows :: "'a \<Rightarrow> 'a \<Rightarrow> bool"
  assumes grows_refl: "grows s s"
    and grows_trans: "grows s t \<Longrightarrow> grows t u \<Longrightarrow> grows s u"
    and step_grows: "good s \<Longrightarrow> step s t \<Longrightarrow> grows s t"
begin

lemma history_grows: "step\<^sup>*\<^sup>* s t \<Longrightarrow> good s \<Longrightarrow> grows s t"
proof (induction rule: rtranclp_induct)
  case base
  show ?case by (rule grows_refl)
next
  case (step t u)
  then have "grows s t" "grows t u" using history_good step_grows by blast+
  then show ?case by (rule grows_trans)
qed

end

text \<open>Lists that only grow at their end.\<close>

definition extends :: "'a list \<Rightarrow> 'a list \<Rightarrow> bool" where
  "extends xs ys \<longleftrightarrow> (\<exists>zs. ys = xs @ zs)"

lemma extends_refl [simp]: "extends xs xs"
  by (simp add: extends_def)

lemma extends_trans: "extends xs ys \<Longrightarrow> extends ys zs \<Longrightarrow> extends xs zs"
  by (auto simp: extends_def)

lemma extends_snoc [simp]: "extends xs (xs @ ys)"
  by (simp add: extends_def)

lemma extends_hd: "extends xs ys \<Longrightarrow> xs \<noteq> [] \<Longrightarrow> hd ys = hd xs"
  by (auto simp: extends_def)

end
