(* ===== verification/Roster.thy ===== *)
theory Roster
  imports Prelude
begin

text \<open>
  \<open>src/roster.rs\<close>: the roster delta of a migration. \<open>compute_roster_plan\<close> checks
  the delta and produces the next roster with one action row per affected member;
  \<open>validate_threshold\<close> bounds the threshold; \<open>historic_versions_at_risk\<close> lists the
  old versions that lose their quorum. The three hash sets the first builds are iterated in
  unknown orders, given by \<open>hc\<close>, \<open>ha\<close> and \<open>hr\<close> (current, add, remove); the
  orders decide only which offender an error names.
\<close>

type_synonym uuid = "128 word"

datatype roster_action = Keep | Add | Remove

fun roster_action_as_str :: "roster_action \<Rightarrow> string" where
  "roster_action_as_str Keep = ''keep''"
| "roster_action_as_str Add = ''add''"
| "roster_action_as_str Remove = ''remove''"

record roster_plan =
  next_members :: "uuid list"
  changes :: "(uuid \<times> roster_action) list"

datatype roster_error =
    RemoveNotMember uuid
  | AddAlreadyMember uuid
  | AddAndRemove uuid
  | EmptyResult
  | BadThreshold (bt_m: u32) (bt_n: nat)

text \<open>The two loops thread the accumulators \<open>next_members\<close>, \<open>changes\<close> (both in push
  order) and the set \<open>seen\<close>.\<close>

fun base_loop :: "uuid list \<Rightarrow> uuid list \<Rightarrow> uuid list \<times> (uuid \<times> roster_action) list \<times> uuid set \<Rightarrow>
    uuid list \<times> (uuid \<times> roster_action) list \<times> uuid set" where
  "base_loop rem [] acc = acc"
| "base_loop rem (u # us) (nxt, ch, seen) =
     (if u \<in> seen then base_loop rem us (nxt, ch, seen)
      else if u \<in> set rem then base_loop rem us (nxt, ch @ [(u, Remove)], insert u seen)
      else base_loop rem us (nxt @ [u], ch @ [(u, Keep)], insert u seen))"

fun add_loop :: "uuid list \<Rightarrow> uuid list \<times> (uuid \<times> roster_action) list \<times> uuid set \<Rightarrow>
    uuid list \<times> (uuid \<times> roster_action) list \<times> uuid set" where
  "add_loop [] acc = acc"
| "add_loop (u # us) (nxt, ch, seen) =
     (if u \<in> seen then add_loop us (nxt, ch, seen)
      else add_loop us (nxt @ [u], ch @ [(u, Add)], insert u seen))"

text \<open>\<open>HashSet::intersection\<close> iterates over the smaller of its two sets.\<close>

definition intersection :: "'a list \<Rightarrow> 'a list \<Rightarrow> 'a list" where
  "intersection s t =
     (if length s \<le> length t then filter (\<lambda>x. x \<in> set t) s else filter (\<lambda>x. x \<in> set s) t)"

definition compute_roster_plan ::
    "(uuid list \<Rightarrow> uuid list) \<Rightarrow> (uuid list \<Rightarrow> uuid list) \<Rightarrow> (uuid list \<Rightarrow> uuid list) \<Rightarrow>
     uuid list \<Rightarrow> uuid list \<Rightarrow> uuid list \<Rightarrow> (roster_plan, roster_error) result" where
  "compute_roster_plan hc ha hr current add remove =
     (let current_set = hash_collect hc current;
          add_set = hash_collect ha add;
          remove_set = hash_collect hr remove
      in case intersection add_set remove_set of u # _ \<Rightarrow> Err (AddAndRemove u) | [] \<Rightarrow>
         case List.find (\<lambda>u. u \<notin> set current_set) remove_set of Some u \<Rightarrow> Err (RemoveNotMember u) | None \<Rightarrow>
         case List.find (\<lambda>u. u \<in> set current_set) add_set of Some u \<Rightarrow> Err (AddAlreadyMember u) | None \<Rightarrow>
         (case add_loop add (base_loop remove_set current ([], [], {})) of (nxt, ch, _) \<Rightarrow>
            if nxt = [] then Err EmptyResult
            else Ok \<lparr>next_members = nxt, changes = ch\<rparr>))"

text \<open>\<open>usize\<close> is a \<open>nat\<close>; \<open>u32::try_from\<close> fails from \<open>2 ^ 32\<close> on. The final
  \<open>NonZeroU32::new\<close> fails only on zero, which the check before it excludes.\<close>

definition validate_threshold :: "u32 \<Rightarrow> nat \<Rightarrow> (u32, roster_error) result" where
  "validate_threshold m n =
     (if 2 ^ 32 \<le> n then Err (BadThreshold m n)
      else let n_u32 = of_nat n :: u32
           in if m = 0 \<or> m > n_u32 then Err (BadThreshold m n)
              else if m \<noteq> 0 then Ok m else Err (BadThreshold m n))"

record historic_version =
  hv_members :: "uuid list"
  hv_threshold :: u32

definition historic_versions_at_risk :: "historic_version list \<Rightarrow> uuid list \<Rightarrow> nat list" where
  "historic_versions_at_risk historic next_current =
     (let active = set next_current
      in List.map_filter
           (\<lambda>(i, v). let overlap = length (filter (\<lambda>m. m \<in> active) (hv_members v));
                          need = unat (hv_threshold v)
                      in if overlap < need then Some i else None)
           (List.enumerate 0 historic))"

section \<open>The loops, in closed form\<close>

text \<open>First occurrences, in order: what a loop guarded by \<open>seen.insert\<close> visits.\<close>

fun firsts :: "'a set \<Rightarrow> 'a list \<Rightarrow> 'a list" where
  "firsts seen [] = []"
| "firsts seen (x # xs) = (if x \<in> seen then firsts seen xs else x # firsts (insert x seen) xs)"

lemma set_firsts [simp]: "set (firsts s xs) = set xs - s"
  by (induction s xs rule: firsts.induct) auto

lemma distinct_firsts [simp]: "distinct (firsts s xs)"
  by (induction s xs rule: firsts.induct) auto

lemma firsts_id: "distinct xs \<Longrightarrow> set xs \<inter> s = {} \<Longrightarrow> firsts s xs = xs"
  by (induction s xs rule: firsts.induct) auto

lemma base_loop_eq:
  "base_loop rem us (nxt, ch, seen) =
     (nxt @ filter (\<lambda>u. u \<notin> set rem) (firsts seen us),
      ch @ map (\<lambda>u. (u, if u \<in> set rem then Remove else Keep)) (firsts seen us),
      seen \<union> set us)"
  by (induction rem us "(nxt, ch, seen)" arbitrary: nxt ch seen rule: base_loop.induct)
    (auto simp: insert_absorb)

lemma add_loop_eq:
  "add_loop us (nxt, ch, seen) =
     (nxt @ firsts seen us, ch @ map (\<lambda>u. (u, Add)) (firsts seen us), seen \<union> set us)"
  by (induction us "(nxt, ch, seen)" arbitrary: nxt ch seen rule: add_loop.induct)
    (auto simp: insert_absorb)

lemma set_intersection [simp]: "set (intersection s t) = set s \<inter> set t"
  by (auto simp: intersection_def)

lemma intersection_Nil_iff: "intersection s t = [] \<longleftrightarrow> set s \<inter> set t = {}"
  by (metis set_empty set_intersection)

lemma base_loop_start:
  "base_loop rm us ([], [], {}) =
     (filter (\<lambda>u. u \<notin> set rm) (firsts {} us),
      map (\<lambda>u. (u, if u \<in> set rm then Remove else Keep)) (firsts {} us), set us)"
  by (simp add: base_loop_eq)

text \<open>The whole function in closed form: the three checks, then the two loops.\<close>

lemma compute_roster_plan_cases:
  assumes "hash_order hc" "hash_order ha" "hash_order hr"
  shows "compute_roster_plan hc ha hr cur add rm =
     (case intersection (hash_collect ha add) (hash_collect hr rm) of u # _ \<Rightarrow> Err (AddAndRemove u) | [] \<Rightarrow>
      case List.find (\<lambda>u. u \<notin> set cur) (hash_collect hr rm) of Some u \<Rightarrow> Err (RemoveNotMember u) | None \<Rightarrow>
      case List.find (\<lambda>u. u \<in> set cur) (hash_collect ha add) of Some u \<Rightarrow> Err (AddAlreadyMember u) | None \<Rightarrow>
      (let nxt = filter (\<lambda>u. u \<notin> set rm) (firsts {} cur) @ firsts (set cur) add
       in if nxt = [] then Err EmptyResult
          else Ok \<lparr>next_members = nxt,
                   changes = map (\<lambda>u. (u, if u \<in> set rm then Remove else Keep)) (firsts {} cur)
                             @ map (\<lambda>u. (u, Add)) (firsts (set cur) add)\<rparr>))"
  using assms unfolding compute_roster_plan_def
  by (simp add: base_loop_start add_loop_eq Let_def split: list.splits option.splits)

lemma firsts_disjoint: "set xs \<inter> s = {} \<Longrightarrow> firsts s xs = firsts {} xs"
proof -
  have "set xs \<inter> s = {} \<Longrightarrow> firsts (s \<union> t) xs = firsts t xs" for t
    by (induction t xs rule: firsts.induct) auto
  from this[of "{}"] show "set xs \<inter> s = {} \<Longrightarrow> firsts s xs = firsts {} xs" by simp
qed

definition roster_delta_ok :: "uuid list \<Rightarrow> uuid list \<Rightarrow> uuid list \<Rightarrow> bool" where
  "roster_delta_ok cur add rm \<longleftrightarrow>
     set add \<inter> set rm = {} \<and> set rm \<subseteq> set cur \<and> set add \<inter> set cur = {}
     \<and> (set cur - set rm) \<union> set add \<noteq> {}"

text \<open>The three checks pass exactly on a consistent delta.\<close>

lemma checks_pass_iff:
  assumes "hash_order ha" "hash_order hr"
  shows "intersection (hash_collect ha add) (hash_collect hr rm) = []
      \<and> List.find (\<lambda>u. u \<notin> set cur) (hash_collect hr rm) = None
      \<and> List.find (\<lambda>u. u \<in> set cur) (hash_collect ha add) = None
    \<longleftrightarrow> set add \<inter> set rm = {} \<and> set rm \<subseteq> set cur \<and> set add \<inter> set cur = {}"
  using assms by (simp add: intersection_Nil_iff find_None_iff) blast

lemma next_roster_Nil_iff:
  "filter (\<lambda>u. u \<notin> set rm) (firsts {} cur) @ firsts {} add = [] \<longleftrightarrow> (set cur - set rm) \<union> set add = {}"
proof -
  have "set (filter (\<lambda>u. u \<notin> set rm) (firsts {} cur) @ firsts {} add) = (set cur - set rm) \<union> set add"
    by auto
  then show ?thesis by (metis set_empty)
qed

definition planned :: "uuid list \<Rightarrow> uuid list \<Rightarrow> uuid list \<Rightarrow> roster_plan" where
  "planned cur add rm =
     \<lparr>next_members = filter (\<lambda>u. u \<notin> set rm) (firsts {} cur) @ firsts {} add,
      changes = map (\<lambda>u. (u, if u \<in> set rm then Remove else Keep)) (firsts {} cur)
                @ map (\<lambda>u. (u, Add)) (firsts {} add)\<rparr>"

lemma compute_roster_plan_checked:
  assumes "hash_order hc" "hash_order ha" "hash_order hr"
    and ok: "set add \<inter> set rm = {} \<and> set rm \<subseteq> set cur \<and> set add \<inter> set cur = {}"
  shows "compute_roster_plan hc ha hr cur add rm =
      (if (set cur - set rm) \<union> set add = {} then Err EmptyResult else Ok (planned cur add rm))"
proof -
  have f: "firsts (set cur) add = firsts {} add"
    by (rule firsts_disjoint) (use ok in blast)
  note passed = iffD2[OF checks_pass_iff[OF assms(2,3), of add rm cur] ok]
  note checks = conjunct1[OF passed] conjunct1[OF conjunct2[OF passed]] conjunct2[OF conjunct2[OF passed]]
  have "compute_roster_plan hc ha hr cur add rm =
      (let nxt = filter (\<lambda>u. u \<notin> set rm) (firsts {} cur) @ firsts (set cur) add
       in if nxt = [] then Err EmptyResult
          else Ok \<lparr>next_members = nxt,
                   changes = map (\<lambda>u. (u, if u \<in> set rm then Remove else Keep)) (firsts {} cur)
                             @ map (\<lambda>u. (u, Add)) (firsts (set cur) add)\<rparr>)"
    by (subst compute_roster_plan_cases[OF assms(1-3)]) (simp only: checks list.case option.case)
  then show ?thesis
    using next_roster_Nil_iff[of rm cur add] unfolding Let_def planned_def f by simp
qed

lemma compute_roster_plan_Ok:
  assumes "hash_order hc" "hash_order ha" "hash_order hr"
  shows "compute_roster_plan hc ha hr cur add rm = Ok plan \<longleftrightarrow>
     roster_delta_ok cur add rm \<and> plan = planned cur add rm"
proof (cases "set add \<inter> set rm = {} \<and> set rm \<subseteq> set cur \<and> set add \<inter> set cur = {}")
  case True
  with compute_roster_plan_checked[OF assms True] show ?thesis by (auto simp: roster_delta_ok_def)
next
  case False
  then have "\<not> roster_delta_ok cur add rm" by (auto simp: roster_delta_ok_def)
  moreover have "compute_roster_plan hc ha hr cur add rm \<noteq> Ok plan"
    using False unfolding checks_pass_iff[OF assms(2,3), symmetric]
    by (auto simp: compute_roster_plan_cases[OF assms] split: list.split option.split)
  ultimately show ?thesis by blast
qed

lemma planned_members: "set (next_members (planned cur add rm)) = (set cur - set rm) \<union> set add"
  by (auto simp: planned_def)

lemma planned_distinct:
  "roster_delta_ok cur add rm \<Longrightarrow> distinct (next_members (planned cur add rm))"
  by (auto simp: planned_def roster_delta_ok_def)

lemma planned_rows_distinct:
  "roster_delta_ok cur add rm \<Longrightarrow> distinct (map fst (changes (planned cur add rm)))"
  by (auto simp: planned_def roster_delta_ok_def comp_def)

lemma planned_rows:
  assumes "roster_delta_ok cur add rm"
  shows "(u, a) \<in> set (changes (planned cur add rm)) \<longleftrightarrow>
    (a = Keep \<and> u \<in> set cur - set rm) \<or> (a = Remove \<and> u \<in> set rm) \<or> (a = Add \<and> u \<in> set add)"
proof -
  have row: "(u, a) \<in> (\<lambda>u. (u, f u)) ` S \<longleftrightarrow> u \<in> S \<and> a = f u" for f and S :: "uuid set"
    by auto
  have "(u, a) \<in> set (changes (planned cur add rm)) \<longleftrightarrow>
      (u \<in> set cur \<and> a = (if u \<in> set rm then Remove else Keep)) \<or> (u \<in> set add \<and> a = Add)"
    by (simp add: planned_def row)
  with assms show ?thesis by (auto simp: roster_delta_ok_def)
qed

section \<open>Properties\<close>

text \<open>
C36: A roster plan is computed exactly when the delta is consistent (no member both added and
removed, only members removed, only non-members added, somebody left), whatever order the hash
sets iterate in; and all iteration orders give the same plan.\<close>

theorem roster_plan_iff:
  assumes "hash_order hc" "hash_order ha" "hash_order hr"
  shows "(compute_roster_plan hc ha hr cur add rm = Ok plan) \<longleftrightarrow>
    roster_delta_ok cur add rm \<and> plan =
     \<lparr>next_members = filter (\<lambda>u. u \<notin> set rm) (firsts {} cur) @ firsts {} add,
      changes = map (\<lambda>u. (u, if u \<in> set rm then Remove else Keep)) (firsts {} cur)
                @ map (\<lambda>u. (u, Add)) (firsts {} add)\<rparr>"
  using compute_roster_plan_Ok[OF assms] by (simp add: planned_def)

theorem roster_plan_iff_witness:
  "compute_roster_plan rev rev (\<lambda>xs. xs) [1, 2, 1] [3, 3] [2] =
     Ok \<lparr>next_members = [1, 3], changes = [(1, Keep), (2, Remove), (3, Add)]\<rparr>"
proof -
  have "hash_order rev" and "hash_order rev" and "hash_order (\<lambda>xs. xs)" by simp_all
  then show ?thesis
    by (subst roster_plan_iff) (simp_all add: roster_delta_ok_def)
qed

text \<open>
C37: The next roster has no duplicates and is exactly the retained members and the joiners; the
action rows name every affected member once, with the action that says what happens to it.\<close>

theorem roster_plan_rows:
  assumes "hash_order hc" "hash_order ha" "hash_order hr"
    and "compute_roster_plan hc ha hr cur add rm = Ok plan"
  shows "distinct (next_members plan) \<and> set (next_members plan) = (set cur - set rm) \<union> set add
    \<and> distinct (map fst (changes plan))
    \<and> (\<forall>u a. (u, a) \<in> set (changes plan) \<longleftrightarrow>
          (a = Keep \<and> u \<in> set cur - set rm) \<or> (a = Remove \<and> u \<in> set rm) \<or> (a = Add \<and> u \<in> set add))"
  using assms(4) unfolding compute_roster_plan_Ok[OF assms(1-3)]
  by (auto simp only: planned_members planned_distinct planned_rows_distinct planned_rows)

theorem roster_plan_rows_witness:
  "distinct [1 :: uuid, 3] \<and> set [1 :: uuid, 3] = (set [1, 2] - set [2]) \<union> set [3]"
proof -
  let ?p = "\<lparr>next_members = [1, 3], changes = [(1, Keep), (2, Remove), (3, Add)]\<rparr>"
  have "compute_roster_plan rev rev (\<lambda>xs. xs) [1, 2] [3] [2] = Ok ?p" by code_simp
  then show ?thesis
    using roster_plan_rows[of rev rev "\<lambda>xs. xs" "[1, 2]" "[3]" "[2]" ?p] by simp
qed

text \<open>
C38: Every rejection names a genuine offender and follows the documented precedence: add-and-remove
first, then a removal of a non-member, then an addition of a member, then an empty result; the
function never panics.\<close>

theorem roster_plan_errors:
  assumes "hash_order hc" "hash_order ha" "hash_order hr"
  shows "case compute_roster_plan hc ha hr cur add rm of
      Err (AddAndRemove u) \<Rightarrow> u \<in> set add \<and> u \<in> set rm
    | Err (RemoveNotMember u) \<Rightarrow> set add \<inter> set rm = {} \<and> u \<in> set rm \<and> u \<notin> set cur
    | Err (AddAlreadyMember u) \<Rightarrow>
        set add \<inter> set rm = {} \<and> set rm \<subseteq> set cur \<and> u \<in> set add \<and> u \<in> set cur
    | Err EmptyResult \<Rightarrow> set cur = set rm \<and> add = []
    | Err (BadThreshold _ _) \<Rightarrow> False
    | Ok plan \<Rightarrow> next_members plan \<noteq> []
    | Panic \<Rightarrow> False"
proof -
  consider u us where "intersection (hash_collect ha add) (hash_collect hr rm) = u # us"
    | u where "intersection (hash_collect ha add) (hash_collect hr rm) = []"
        "List.find (\<lambda>u. u \<notin> set cur) (hash_collect hr rm) = Some u"
    | u where "intersection (hash_collect ha add) (hash_collect hr rm) = []"
        "List.find (\<lambda>u. u \<notin> set cur) (hash_collect hr rm) = None"
        "List.find (\<lambda>u. u \<in> set cur) (hash_collect ha add) = Some u"
    | "set add \<inter> set rm = {} \<and> set rm \<subseteq> set cur \<and> set add \<inter> set cur = {}"
    by (metis checks_pass_iff[OF assms(2,3)] list.exhaust option.exhaust)
  then show ?thesis
  proof cases
    case (1 u us)
    then have "u \<in> set (intersection (hash_collect ha add) (hash_collect hr rm))" by simp
    with assms have "u \<in> set add \<and> u \<in> set rm" by simp
    with 1 show ?thesis by (simp add: compute_roster_plan_cases[OF assms])
  next
    case (2 u)
    have "set add \<inter> set rm = {}" using 2(1) assms by (simp add: intersection_Nil_iff)
    moreover have "u \<in> set rm \<and> u \<notin> set cur" using find_Some_iff[OF 2(2)] assms by simp
    ultimately show ?thesis using 2 by (simp add: compute_roster_plan_cases[OF assms])
  next
    case (3 u)
    have "set add \<inter> set rm = {}" using 3(1) assms by (simp add: intersection_Nil_iff)
    moreover have "set rm \<subseteq> set cur" using 3(2) assms by (auto simp: find_None_iff)
    moreover have "u \<in> set add \<and> u \<in> set cur" using find_Some_iff[OF 3(3)] assms by simp
    ultimately show ?thesis using 3 by (simp add: compute_roster_plan_cases[OF assms])
  next
    case 4
    note compute_roster_plan_checked[OF assms 4]
    moreover have "next_members (planned cur add rm) \<noteq> []" if "(set cur - set rm) \<union> set add \<noteq> {}"
      using that planned_members[of cur add rm] by (metis set_empty)
    moreover have "set cur = set rm \<and> add = []" if "(set cur - set rm) \<union> set add = {}"
      using that 4 by auto
    ultimately show ?thesis
      by (cases "(set cur - set rm) \<union> set add = {}") simp_all
  qed
qed

theorem roster_plan_errors_witness:
  "compute_roster_plan rev rev rev [1, 2] [] [1, 2] = Err EmptyResult
   \<and> set [1 :: uuid, 2] = set [1, 2]"
proof -
  have e: "compute_roster_plan rev rev rev [1, 2] [] [1, 2] = Err EmptyResult" by code_simp
  show ?thesis
    using roster_plan_errors[of rev rev rev "[1, 2]" "[]" "[1, 2]"] e by simp
qed

text \<open>A threshold is accepted, and returned unchanged, exactly when it lies between 1 and the member
count and the count fits 32 bits; every other input is the error that names both numbers.\<close>

theorem validate_threshold_iff:
  "validate_threshold m n =
     (if 1 \<le> unat m \<and> unat m \<le> n \<and> n < 2 ^ 32 then Ok m else Err (BadThreshold m n))"
proof (cases "n < 2 ^ 32")
  case True
  then have "unat (of_nat n :: u32) = n" by (simp add: unat_of_nat take_bit_nat_eq_self)
  then have "(of_nat n < m) \<longleftrightarrow> n < unat m" by (simp add: word_less_nat_alt)
  moreover have "1 \<le> unat m \<longleftrightarrow> m \<noteq> 0" by (metis One_nat_def Suc_leI less_one linorder_not_le unat_eq_zero unat_0 neq0_conv)
  ultimately show ?thesis using True by (auto simp: validate_threshold_def Let_def)
next
  case False
  then show ?thesis by (simp add: validate_threshold_def)
qed

lemma set_map_filter_enumerate:
  "i \<in> set (List.map_filter (\<lambda>(i, v). if P v then Some i else None) (List.enumerate k xs)) \<longleftrightarrow>
     k \<le> i \<and> i < k + length xs \<and> P (xs ! (i - k))"
  by (induction xs arbitrary: k)
    (auto simp: List.map_filter_def nth_Cons' not_less_eq_eq split: if_splits nat.splits)

text \<open>The versions reported at risk are exactly those fewer than threshold of whose members (counted
as listed) remain active; in particular a version whose members all stay, and who are enough, is
never reported.\<close>

theorem at_risk_iff:
  "i \<in> set (historic_versions_at_risk historic active) \<longleftrightarrow>
     i < length historic \<and>
     length (filter (\<lambda>m. m \<in> set active) (hv_members (historic ! i))) < unat (hv_threshold (historic ! i))"
proof -
  let ?P = "\<lambda>v. length (filter (\<lambda>m. m \<in> set active) (hv_members v)) < unat (hv_threshold v)"
  have "i \<in> set (List.map_filter (\<lambda>(i, v). if ?P v then Some i else None) (List.enumerate 0 historic))
      \<longleftrightarrow> i < length historic \<and> ?P (historic ! i)"
    by (subst set_map_filter_enumerate) simp
  then show ?thesis by (simp add: historic_versions_at_risk_def Let_def)
qed

end
