(* ===== verification/Network.thy ===== *)
theory Network
  imports Prelude
begin

text \<open>
  \<open>src/network.rs\<close>, built with the \<open>elements\<close> feature (without it the second
  constructor of \<open>network_type\<close> is absent). \<open>network\<close> and
  \<open>network_kind\<close> are the two enums of the bitcoin crate that the code matches on; how the
  crate prints a network is an argument of \<open>show_network_type\<close>.
\<close>

datatype network = Mainnet | Testnet | Testnet4 | Signet | Regtest

datatype network_kind = Main | Test

datatype elements_network_id = Liquid | LiquidTestnet | ElementsRegtest

datatype network_type = Bitcoin network | Elements elements_network_id

definition nt_bitcoin :: "network_type \<Rightarrow> network option" where
  "nt_bitcoin t = (case t of Bitcoin n \<Rightarrow> Some n | Elements _ \<Rightarrow> None)"

definition is_bitcoin :: "network_type \<Rightarrow> bool" where
  "is_bitcoin t = (case t of Bitcoin _ \<Rightarrow> True | _ \<Rightarrow> False)"

definition nt_elements :: "network_type \<Rightarrow> elements_network_id option" where
  "nt_elements t = (case t of Elements i \<Rightarrow> Some i | Bitcoin _ \<Rightarrow> None)"

definition is_elements :: "network_type \<Rightarrow> bool" where
  "is_elements t = (case t of Elements _ \<Rightarrow> True | _ \<Rightarrow> False)"

definition from_network :: "network \<Rightarrow> network_type" where
  "from_network n = Bitcoin n"

definition from_elements :: "elements_network_id \<Rightarrow> network_type" where
  "from_elements i = Elements i"

fun show_elements :: "elements_network_id \<Rightarrow> string" where
  "show_elements Liquid = ''liquid''"
| "show_elements LiquidTestnet = ''liquid_testnet''"
| "show_elements ElementsRegtest = ''elements_regtest''"

fun show_network_type :: "(network \<Rightarrow> string) \<Rightarrow> network_type \<Rightarrow> string" where
  "show_network_type show_network (Bitcoin n) = ''bitcoin:'' @ show_network n"
| "show_network_type show_network (Elements i) = ''elements:'' @ show_elements i"

lemma nt_bitcoin_iff: "nt_bitcoin t = Some n \<longleftrightarrow> t = Bitcoin n" "nt_bitcoin t = None \<longleftrightarrow> \<not> is_bitcoin t"
  by (auto simp: nt_bitcoin_def is_bitcoin_def split: network_type.splits)

lemma is_bitcoin_iff: "is_bitcoin t \<longleftrightarrow> (\<exists>n. t = Bitcoin n)"
  by (auto simp: is_bitcoin_def split: network_type.splits)

lemma show_elements_inject: "show_elements i = show_elements j \<longleftrightarrow> i = j"
  by (cases i; cases j) auto

lemma show_network_type_inject:
  assumes "inj show_network"
  shows "show_network_type show_network s = show_network_type show_network t \<longleftrightarrow> s = t"
  using assms by (cases s; cases t) (auto simp: show_elements_inject inj_eq)

end
