(* ===== verification/Identity.thy ===== *)
theory Identity
  imports Network
begin

text \<open>
  The plain data of \<open>src/signer.rs\<close>: signer ids, signer, transport and device kinds,
  capability flags and health reports. The \<open>Signer\<close> trait itself is in the theory
  \<open>Signer\<close>.

  A \<open>Fingerprint\<close> is four bytes, read as one 32-bit number; how it prints (hex) is the
  bitcoin crate's, so it is an argument where it is used. A \<open>SystemTime\<close> is its distance
  from the Unix epoch in nanoseconds.
\<close>

type_synonym fingerprint = u32
type_synonym system_time = int

datatype signer_id = SignerId string

primrec signer_id_as_str :: "signer_id \<Rightarrow> string" where
  "signer_id_as_str (SignerId s) = s"

definition signer_id_new :: "string \<Rightarrow> signer_id" where
  "signer_id_new s = SignerId s"

text \<open>\<open>Display\<close>\<close>

definition show_signer_id :: "signer_id \<Rightarrow> string" where
  "show_signer_id i = signer_id_as_str i"

definition signer_id_from_fingerprint :: "(fingerprint \<Rightarrow> string) \<Rightarrow> fingerprint \<Rightarrow> signer_id" where
  "signer_id_from_fingerprint show_fp fp = SignerId (show_fp fp)"

text \<open>The derived order on \<open>SignerId\<close> is the order of its string: it is the key order of
  the descriptor builder's \<open>BTreeMap\<close>.\<close>

instantiation signer_id :: linorder
begin

definition less_eq_signer_id :: "signer_id \<Rightarrow> signer_id \<Rightarrow> bool" where
  "less_eq_signer_id a b \<longleftrightarrow> signer_id_as_str a \<le> signer_id_as_str b"

definition less_signer_id :: "signer_id \<Rightarrow> signer_id \<Rightarrow> bool" where
  "less_signer_id a b \<longleftrightarrow> signer_id_as_str a < signer_id_as_str b"

instance
proof
  fix a b c :: signer_id
  show "a < b \<longleftrightarrow> a \<le> b \<and> \<not> b \<le> a"
    by (auto simp: less_eq_signer_id_def less_signer_id_def)
  show "a \<le> a" by (simp add: less_eq_signer_id_def)
  show "a \<le> b \<Longrightarrow> b \<le> c \<Longrightarrow> a \<le> c" by (auto simp: less_eq_signer_id_def)
  show "a \<le> b \<Longrightarrow> b \<le> a \<Longrightarrow> a = b"
    by (cases a; cases b) (auto simp: less_eq_signer_id_def)
  show "a \<le> b \<or> b \<le> a" by (auto simp: less_eq_signer_id_def)
qed

end

lemma less_signer_id_simp [simp]: "SignerId s < SignerId t \<longleftrightarrow> s < t"
  by (simp add: less_signer_id_def)

datatype signer_type = Software | External

datatype transport_type = Usb | Ble | Qr | SdCard | Nfc | Pkcs11

datatype device_type =
    Trezor | Jade | PassportPrime | Ledger | Coldcard | Hsm (vendor: string) | Generic

record signer_capabilities =
  blind_signing :: bool
  taproot :: bool
  musig2 :: bool
  transports :: "transport_type list"

definition p2wsh_only :: "transport_type list \<Rightarrow> signer_capabilities" where
  "p2wsh_only ts = \<lparr>blind_signing = False, taproot = False, musig2 = False, transports = ts\<rparr>"

record signer_health =
  reachable :: bool
  firmware_version :: "string option"
  last_seen :: "system_time option"

end
