(* ===== verification/Errors.thy ===== *)
theory Errors
  imports Identity
begin

text \<open>
  \<open>src/error.rs\<close>: one datatype per error enum, with the constructors of the source
  (a name that two enums share gets the enum's initials as a prefix). A message the code builds
  with \<open>to_string\<close> from a library error is a string the library supplies. The messages of
  the enums themselves are the functions \<open>show_*\<close>.
\<close>

type_synonym amount = u64

datatype descriptor_error =
    MissingKeyOrigin signer_id
  | DuplicateKey string
  | Miniscript string
  | De_Parse string
  | De_NetworkMismatch (de_expected: string) (de_actual: string)
  | KeyConversion string
  | UnsupportedShape string
  | PolicyMismatch string

datatype federation_error =
    ThresholdExceedsSignerCount (fe_threshold: u32) (fe_signers: u32)
  | ZeroThreshold
  | InsufficientSigners u32
  | DuplicateSigner signer_id
  | SignerNetworkMismatch (fe_id: signer_id) (fe_network: network_type)
  | SignerNotFound signer_id
  | MissingCapability signer_id string
  | Fe_Descriptor descriptor_error

datatype psbt_error =
    UnexpectedSignatures (sigs_found: nat)
  | DescriptorMismatch string
  | OutputMismatch string
  | InvalidSignature signer_id string
  | UnknownSigner signer_id
  | InsufficientSignatures (sigs_have: nat) (sigs_need: nat)
  | FinalizationFailed string
  | BuildFailed string
  | ThresholdNotMet
  | ExtractFailed string
  | BdkSigner string
  | Pe_Bitcoin string

datatype signer_error =
    Unreachable signer_id string
  | SigningFailed signer_id string
  | PolicyViolation signer_id string
  | UnsupportedCurve signer_id
  | Backend string

datatype recovery_error =
    ChecksumMismatch (re_expected: string) (re_actual: string)
  | InvalidDescriptor string
  | Re_Json string

datatype snapshot_error =
    Se_DescriptorMismatch
  | InvalidThreshold string
  | Se_Json string
  | Se_Parse string

datatype federated_wallet_error =
    We_NetworkMismatch (we_existing: network_type) (we_incoming: network_type)
  | NonBitcoinNetwork
  | NonElementsNetwork
  | IndexOutOfBounds (we_index: nat) (we_count: nat)

datatype migration_error =
    NoUtxos
  | SweepFailed string
  | Me_NetworkMismatch (me_old: network_type) (me_new: network_type)
  | InvalidConfig string
  | InsufficientFeeBalance (me_fee_account: u32) (me_available: amount) (me_required: amount)

datatype emvault_error =
    Ev_Federation federation_error
  | Ev_Descriptor descriptor_error
  | Ev_Psbt psbt_error
  | Ev_Signer signer_error
  | Ev_Recovery recovery_error
  | Ev_Snapshot snapshot_error
  | Ev_Migration migration_error
  | Ev_FederatedWallet federated_wallet_error

section \<open>Messages\<close>

text \<open>The \<open>Display\<close> implementations that \<open>thiserror\<close> generates from the
  \<open>#[error]\<close> attributes. How a Bitcoin network and an amount print is the bitcoin crate's
  and comes as an argument where it is needed.\<close>

primrec show_descriptor_error :: "descriptor_error \<Rightarrow> string" where
  "show_descriptor_error (MissingKeyOrigin i) = ''descriptor key for signer '' @ show_signer_id i @ '' is missing key origin''"
| "show_descriptor_error (DuplicateKey k) = ''duplicate descriptor key: '' @ k"
| "show_descriptor_error (Miniscript m) = ''miniscript rejected descriptor: '' @ m"
| "show_descriptor_error (De_Parse m) = ''failed to parse descriptor: '' @ m"
| "show_descriptor_error (De_NetworkMismatch expected actual) =
     ''network mismatch: descriptor expects '' @ expected @ '', key declares '' @ actual"
| "show_descriptor_error (KeyConversion m) = ''descriptor key conversion failed: '' @ m"
| "show_descriptor_error (UnsupportedShape m) = ''descriptor is not wsh(sortedmulti(...)): '' @ m"
| "show_descriptor_error (PolicyMismatch m) = ''descriptor policy mismatch: '' @ m"

primrec show_federation_error :: "(network \<Rightarrow> string) \<Rightarrow> federation_error \<Rightarrow> string" where
  "show_federation_error sn (ThresholdExceedsSignerCount m n) =
     ''threshold '' @ dec (unat m) @ '' exceeds signer count '' @ dec (unat n)"
| "show_federation_error sn ZeroThreshold = ''threshold must be at least 1, got 0''"
| "show_federation_error sn (InsufficientSigners n) = ''federation requires at least 2 signers, got '' @ dec (unat n)"
| "show_federation_error sn (DuplicateSigner i) = ''duplicate signer: '' @ show_signer_id i"
| "show_federation_error sn (SignerNetworkMismatch i net) =
     ''signer '' @ show_signer_id i @ '' does not support network '' @ show_network_type sn net"
| "show_federation_error sn (SignerNotFound i) = ''signer not found in federation: '' @ show_signer_id i"
| "show_federation_error sn (MissingCapability i c) =
     ''signer '' @ show_signer_id i @ '' lacks required capability: '' @ c"
| "show_federation_error sn (Fe_Descriptor e) = show_descriptor_error e"

primrec show_psbt_error :: "psbt_error \<Rightarrow> string" where
  "show_psbt_error (UnexpectedSignatures n) =
     ''PSBT was expected to be unsigned but contained '' @ dec n @ '' partial signatures''"
| "show_psbt_error (DescriptorMismatch m) = ''PSBT does not match federation descriptor: '' @ m"
| "show_psbt_error (OutputMismatch m) = ''PSBT outputs do not match approved proposal: '' @ m"
| "show_psbt_error (InvalidSignature i m) = ''invalid signature from signer '' @ show_signer_id i @ '': '' @ m"
| "show_psbt_error (UnknownSigner i) = ''signer '' @ show_signer_id i @ '' is not a member of this federation''"
| "show_psbt_error (InsufficientSignatures h n) =
     ''cannot finalize: have '' @ dec h @ '' signatures, need at least '' @ dec n"
| "show_psbt_error (FinalizationFailed m) = ''PSBT finalization failed: '' @ m"
| "show_psbt_error (BuildFailed m) = ''transaction construction failed: '' @ m"
| "show_psbt_error ThresholdNotMet = ''PSBT cannot yet be finalized: not enough signatures to satisfy every input''"
| "show_psbt_error (ExtractFailed m) = ''failed to extract transaction from finalized PSBT: '' @ m"
| "show_psbt_error (BdkSigner m) = ''BDK signer error: '' @ m"
| "show_psbt_error (Pe_Bitcoin m) = ''bitcoin PSBT error: '' @ m"

primrec show_signer_error :: "signer_error \<Rightarrow> string" where
  "show_signer_error (Unreachable i m) = ''signer '' @ show_signer_id i @ '' unreachable: '' @ m"
| "show_signer_error (SigningFailed i m) = ''signer '' @ show_signer_id i @ '' signing failed: '' @ m"
| "show_signer_error (PolicyViolation i m) = ''signer '' @ show_signer_id i @ '' policy violation: '' @ m"
| "show_signer_error (UnsupportedCurve i) = ''signer '' @ show_signer_id i @ '' does not support secp256k1''"
| "show_signer_error (Backend m) = ''signer backend error: '' @ m"

primrec show_recovery_error :: "recovery_error \<Rightarrow> string" where
  "show_recovery_error (ChecksumMismatch expected actual) =
     ''recovery template checksum mismatch: expected '' @ expected @ '', got '' @ actual"
| "show_recovery_error (InvalidDescriptor m) = ''recovery template descriptor invalid: '' @ m"
| "show_recovery_error (Re_Json m) = ''recovery JSON error: '' @ m"

fun show_snapshot_error :: "snapshot_error \<Rightarrow> string" where
  "show_snapshot_error Se_DescriptorMismatch = ''snapshot descriptor does not match signer set''"
| "show_snapshot_error (InvalidThreshold m) = ''snapshot has invalid threshold/signer combination: '' @ m"
| "show_snapshot_error (Se_Json m) = ''snapshot JSON error: '' @ m"
| "show_snapshot_error (Se_Parse m) = ''snapshot descriptor parse error: '' @ m"

primrec show_federated_wallet_error :: "(network \<Rightarrow> string) \<Rightarrow> federated_wallet_error \<Rightarrow> string" where
  "show_federated_wallet_error sn (We_NetworkMismatch existing incoming) =
     ''network mismatch: existing '' @ show_network_type sn existing @ '', incoming '' @ show_network_type sn incoming"
| "show_federated_wallet_error sn NonBitcoinNetwork = ''BtcFederatedWallet requires a Bitcoin network federation''"
| "show_federated_wallet_error sn NonElementsNetwork = ''ElementsFederatedWallet requires an Elements network federation''"
| "show_federated_wallet_error sn (IndexOutOfBounds i n) =
     ''federation index '' @ dec i @ '' out of bounds (count: '' @ dec n @ '')''"

primrec show_migration_error :: "(network \<Rightarrow> string) \<Rightarrow> (amount \<Rightarrow> string) \<Rightarrow> migration_error \<Rightarrow> string" where
  "show_migration_error sn sa NoUtxos = ''no UTXOs to migrate''"
| "show_migration_error sn sa (SweepFailed m) = ''sweep construction failed: '' @ m"
| "show_migration_error sn sa (Me_NetworkMismatch old new) =
     ''network mismatch: old '' @ show_network_type sn old @ '', new '' @ show_network_type sn new"
| "show_migration_error sn sa (InvalidConfig m) = ''invalid migration configuration: '' @ m"
| "show_migration_error sn sa (InsufficientFeeBalance i available required) =
     ''fee account (index '' @ dec (unat i) @ '') balance '' @ sa available
       @ '' is insufficient to cover estimated fees '' @ sa required"

primrec show_emvault_error :: "(network \<Rightarrow> string) \<Rightarrow> (amount \<Rightarrow> string) \<Rightarrow> emvault_error \<Rightarrow> string" where
  "show_emvault_error sn sa (Ev_Federation e) = show_federation_error sn e"
| "show_emvault_error sn sa (Ev_Descriptor e) = show_descriptor_error e"
| "show_emvault_error sn sa (Ev_Psbt e) = show_psbt_error e"
| "show_emvault_error sn sa (Ev_Signer e) = show_signer_error e"
| "show_emvault_error sn sa (Ev_Recovery e) = show_recovery_error e"
| "show_emvault_error sn sa (Ev_Snapshot e) = show_snapshot_error e"
| "show_emvault_error sn sa (Ev_Migration e) = show_migration_error sn sa e"
| "show_emvault_error sn sa (Ev_FederatedWallet e) = show_federated_wallet_error sn e"

end
