(* ===== verification/Chain_Types.thy ===== *)
theory Chain_Types
  imports Errors
begin

text \<open>
  The data of the bitcoin and miniscript crates that the code builds or takes apart, field by field
  as the code uses it: extended keys, descriptor keys, descriptors, transactions and PSBTs. What
  those crates compute (printing, parsing, hashing, curve arithmetic) is the argument
  \<open>ms_lib\<close> of the definitions that call it; nothing is assumed of it here.

  A 32-byte value (x-only key, transaction id, chain code) is a 256-bit word read big-endian, so the
  order on words is the lexicographic order on the bytes.
\<close>

type_synonym word256 = "256 word"
type_synonym derivation_path = "u32 list"
type_synonym key_source = "fingerprint \<times> derivation_path"
type_synonym script = bytes
type_synonym address = string
type_synonym fee_rate = u64

section \<open>Keys\<close>

text \<open>A secp256k1 point by its compressed encoding: parity of y, and x.\<close>

record pubkey =
  pk_odd :: bool
  pk_x :: word256

definition x_only_public_key :: "pubkey \<Rightarrow> word256 \<times> bool" where
  "x_only_public_key k = (pk_x k, pk_odd k)"

record btc_public_key =
  compressed :: bool
  inner :: pubkey

record xpub =
  xp_network :: network_kind
  xp_depth :: u8
  xp_parent_fingerprint :: fingerprint
  xp_child_number :: u32
  xp_public_key :: pubkey
  xp_chain_code :: word256

datatype wildcard = NoWildcard | Unhardened | Hardened

datatype single_pub_key = FullKey btc_public_key | XOnly word256

record single_pub =
  sp_origin :: "key_source option"
  sp_key :: single_pub_key

record descriptor_xkey =
  dx_origin :: "key_source option"
  dx_xkey :: xpub
  dx_path :: derivation_path
  dx_wildcard :: wildcard

record descriptor_multi_xkey =
  dm_origin :: "key_source option"
  dm_xkey :: xpub
  dm_paths :: "derivation_path list"
  dm_wildcard :: wildcard

datatype descriptor_public_key =
    Single single_pub
  | XPub descriptor_xkey
  | MultiXPub descriptor_multi_xkey

section \<open>Descriptors\<close>

text \<open>The code only looks inside \<open>wsh(sortedmulti(...))\<close>; the body of any other
  descriptor is kept as its text.\<close>

datatype wsh_inner = SortedMulti nat "descriptor_public_key list" | Ms string

datatype descriptor =
    Bare string
  | Pkh string
  | Wpkh string
  | Sh string
  | Wsh wsh_inner
  | Tr string

record ms_lib =
  dpk_to_string :: "descriptor_public_key \<Rightarrow> string"
  desc_to_string :: "descriptor \<Rightarrow> string"
  desc_from_str :: "string \<Rightarrow> (descriptor, string) result"
  new_wsh_sortedmulti :: "nat \<Rightarrow> descriptor_public_key list \<Rightarrow> (descriptor, string) result"
  from_normal_idx :: "u32 \<Rightarrow> (u32, string) result"
  hex_decode32 :: "string \<Rightarrow> (word256, string) result"
  pk_from_slice :: "bytes \<Rightarrow> (pubkey, string) result"
  kind_from_network :: "network \<Rightarrow> network_kind"
  debug_kind :: "network_kind \<Rightarrow> string"

section \<open>Transactions and PSBTs\<close>

record outpoint =
  op_txid :: word256
  op_vout :: u32

record txout =
  txo_value :: amount
  txo_script :: script

record txin =
  previous_output :: outpoint
  script_sig :: script
  sequence :: u32
  witness :: "bytes list"

record transaction =
  tx_version :: u32
  tx_lock_time :: u32
  tx_input :: "txin list"
  tx_output :: "txout list"

text \<open>The maps of a PSBT, of its inputs and of its outputs are \<open>BTreeMap\<close>s, here their
  entries in iteration order; the fields \<open>input_rest\<close>, \<open>output_rest\<close> and
  \<open>psbt_rest\<close> stand for what the code never touches. It does not touch the global extended
  keys either, but the combiner refuses PSBTs that contradict each other there.\<close>

record psbt_input =
  partial_sigs :: "(btc_public_key \<times> bytes) list"
  bip32_derivation :: "(pubkey \<times> key_source) list"
  tap_key_origins :: "(word256 \<times> (word256 list \<times> key_source)) list"
  tap_script_sigs :: "((word256 \<times> word256) \<times> bytes) list"
  tap_key_sig :: "bytes option"
  input_rest :: bytes

record psbt_output =
  output_rest :: bytes

record psbt =
  unsigned_tx :: transaction
  global_xpubs :: "(xpub \<times> key_source) list"
  inputs :: "psbt_input list"
  outputs :: "psbt_output list"
  psbt_rest :: bytes

text \<open>Two PSBTs give no extended key different sources.\<close>

definition xpubs_agree :: "psbt \<Rightarrow> psbt \<Rightarrow> bool" where
  "xpubs_agree p q \<longleftrightarrow>
     (\<forall>(x, k) \<in> set (global_xpubs p). \<forall>(y, l) \<in> set (global_xpubs q). x = y \<longrightarrow> k = l)"

text \<open>\<open>bdk_wallet::LocalOutput\<close>, as far as the code reads it.\<close>

record local_output =
  lo_outpoint :: outpoint
  lo_txout :: txout

text \<open>The newtype of \<open>src/psbt.rs\<close>; its constructor function is in the theory
  \<open>Psbt\<close>.\<close>

datatype unsigned_psbt = UnsignedPsbt (into_psbt: psbt)

end
