(* ===== verification/Signer.thy ===== *)
theory Signer
  imports Chain_Types
begin

text \<open>
  The \<open>Signer\<close> trait of \<open>src/signer.rs\<close>: a signer is the record of its methods'
  results. \<open>box_signer\<close> is the trait's implementation for \<open>Box<dyn Signer>\<close>, which
  forwards every method.
\<close>

record signer =
  sg_id :: signer_id
  sg_label :: "string option"
  sg_xpub :: xpub
  sg_fingerprint :: fingerprint
  sg_derivation_path :: derivation_path
  sg_signer_type :: signer_type
  sg_supported_networks :: "network_type list"
  sg_capabilities :: signer_capabilities
  sg_health_check :: "(signer_health, signer_error) result"

definition box_signer :: "signer \<Rightarrow> signer" where
  "box_signer s =
     \<lparr>sg_id = sg_id s, sg_label = sg_label s, sg_xpub = sg_xpub s,
      sg_fingerprint = sg_fingerprint s, sg_derivation_path = sg_derivation_path s,
      sg_signer_type = sg_signer_type s, sg_supported_networks = sg_supported_networks s,
      sg_capabilities = sg_capabilities s, sg_health_check = sg_health_check s\<rparr>"

lemma box_signer_id [simp]: "box_signer s = s"
  by (simp add: box_signer_def)

end
