(* ===== verification/Descriptor.thy ===== *)
theory Descriptor
  imports Signer
begin

text \<open>
  \<open>src/descriptor.rs\<close>: the descriptor builder. A builder collects one key entry per signer in
  a \<open>BTreeMap\<close> (here a sorted association list, the interpretation \<open>bt\<close> of the
  ordered-map interface) and assembles a \<open>wsh(sortedmulti(...))\<close> or
  \<open>tr(H,multi_a(...))\<close> descriptor, or the BIP-388 policy of the latter. Printing, parsing and
  key arithmetic are the argument \<open>L\<close>.
\<close>

section \<open>Strings\<close>

text \<open>\<open>str::trim_end_matches\<close> and \<open>str::replace\<close> with a nonempty pattern,
  \<open>str::split_once\<close> on a character.\<close>

fun strip_prefix :: "'a list \<Rightarrow> 'a list \<Rightarrow> 'a list option" where
  "strip_prefix [] s = Some s"
| "strip_prefix (p # ps) [] = None"
| "strip_prefix (p # ps) (c # s) = (if p = c then strip_prefix ps s else None)"

lemma strip_prefix_Some: "strip_prefix p s = Some r \<longleftrightarrow> s = p @ r"
  by (induction p s rule: strip_prefix.induct) auto

lemma strip_prefix_append [simp]: "strip_prefix p (p @ r) = Some r"
  by (simp add: strip_prefix_Some)

text \<open>On the reversed string: drop the pattern as often as it is a prefix.\<close>

function trim_start :: "string \<Rightarrow> string \<Rightarrow> string" where
  "trim_start p s = (if p = [] then s else case strip_prefix p s of None \<Rightarrow> s | Some r \<Rightarrow> trim_start p r)"
  by pat_completeness auto
termination
  by (relation "measure (\<lambda>(p, s). length s)") (auto simp: strip_prefix_Some)

declare trim_start.simps [simp del]

definition trim_end_matches :: "string \<Rightarrow> string \<Rightarrow> string" where
  "trim_end_matches p s = rev (trim_start (rev p) (rev s))"

function replace_all :: "string \<Rightarrow> string \<Rightarrow> string \<Rightarrow> string" where
  "replace_all p new s =
     (case s of [] \<Rightarrow> []
      | c # cs \<Rightarrow> if p = [] then s
          else case strip_prefix p s of Some r \<Rightarrow> new @ replace_all p new r
               | None \<Rightarrow> c # replace_all p new cs)"
  by pat_completeness auto
termination
  by (relation "measure (\<lambda>(p, n, s). length s)") (auto simp: strip_prefix_Some)

declare replace_all.simps [simp del]

definition before_char :: "char \<Rightarrow> string \<Rightarrow> string" where
  "before_char c s = takeWhile (\<lambda>d. d \<noteq> c) s"

section \<open>Keys\<close>

definition NUMS_INTERNAL_KEY :: string where
  "NUMS_INTERNAL_KEY = ''50929b74c1a04954b78b4b6035e97a5e078a5a0f28ec96d547bfee9ace803ac0''"

datatype taproot_internal_key = RawNums | NumsXpub word256

datatype script_type = Script_Wsh | Script_Tr

datatype key_mode = Fixed | Ranged

record key_entry =
  ke_fingerprint :: fingerprint
  ke_derivation_path :: derivation_path
  ke_xpub :: xpub

record descriptor_builder =
  db_threshold :: u32
  db_mode :: key_mode
  db_script_type :: script_type
  db_taproot_internal_key :: taproot_internal_key
  db_network :: network_type
  db_entries :: "(signer_id, key_entry) btree"

definition builder_new :: "u32 \<Rightarrow> network_type \<Rightarrow> descriptor_builder" where
  "builder_new threshold net =
     \<lparr>db_threshold = threshold, db_mode = Fixed, db_script_type = Script_Wsh,
      db_taproot_internal_key = RawNums, db_network = net, db_entries = []\<rparr>"

definition builder_key_mode :: "key_mode \<Rightarrow> descriptor_builder \<Rightarrow> descriptor_builder" where
  "builder_key_mode m b = b\<lparr>db_mode := m\<rparr>"

definition builder_script_type :: "script_type \<Rightarrow> descriptor_builder \<Rightarrow> descriptor_builder" where
  "builder_script_type t b = b\<lparr>db_script_type := t\<rparr>"

definition builder_taproot_internal_key :: "taproot_internal_key \<Rightarrow> descriptor_builder \<Rightarrow> descriptor_builder" where
  "builder_taproot_internal_key k b = b\<lparr>db_taproot_internal_key := k\<rparr>"

text \<open>A duplicate id is reported after the map has been updated: the first component is the
  builder as the caller finds it, on an error too.\<close>

definition builder_add_signer :: "descriptor_builder \<Rightarrow> signer \<Rightarrow>
    descriptor_builder \<times> (unit, descriptor_error) result" where
  "builder_add_signer b s =
     (let entry = \<lparr>ke_fingerprint = sg_fingerprint s, ke_derivation_path = sg_derivation_path s,
                   ke_xpub = sg_xpub s\<rparr>;
          present = map_of (db_entries b) (sg_id s) \<noteq> None
      in (b\<lparr>db_entries := bt_insert (sg_id s) entry (db_entries b)\<rparr>,
          if present then Err (DuplicateKey (signer_id_as_str (sg_id s))) else Ok ()))"

definition entry_origin :: "key_entry \<Rightarrow> key_source option" where
  "entry_origin e = Some (ke_fingerprint e, ke_derivation_path e)"

definition build_descriptor_key :: "ms_lib \<Rightarrow> key_mode \<Rightarrow> key_entry \<Rightarrow>
    (descriptor_public_key, descriptor_error) result" where
  "build_descriptor_key L mode e =
     (case mode of
        Fixed \<Rightarrow>
          let pk = \<lparr>compressed = True, inner = xp_public_key (ke_xpub e)\<rparr>
          in Ok (Single \<lparr>sp_origin = entry_origin e, sp_key = FullKey pk\<rparr>)
      | Ranged \<Rightarrow>
          and_then (map_err KeyConversion (from_normal_idx L 0)) (\<lambda>zero.
          Ok (XPub \<lparr>dx_origin = entry_origin e, dx_xkey = ke_xpub e, dx_path = [zero],
                    dx_wildcard = Unhardened\<rparr>)))"

definition build_taproot_key :: "key_entry \<Rightarrow> descriptor_public_key" where
  "build_taproot_key e =
     (let (xonly, _) = x_only_public_key (xp_public_key (ke_xpub e))
      in Single \<lparr>sp_origin = entry_origin e, sp_key = XOnly xonly\<rparr>)"

text \<open>\<open>HashSet::insert\<close> reports a string seen before.\<close>

fun reject_duplicates :: "ms_lib \<Rightarrow> string set \<Rightarrow> descriptor_public_key list \<Rightarrow> (unit, descriptor_error) result" where
  "reject_duplicates L seen [] = Ok ()"
| "reject_duplicates L seen (k # ks) =
     (let s = dpk_to_string L k
      in if s \<in> seen then Err (DuplicateKey s) else reject_duplicates L (insert s seen) ks)"

definition reject_duplicate_keys :: "ms_lib \<Rightarrow> descriptor_public_key list \<Rightarrow> (unit, descriptor_error) result" where
  "reject_duplicate_keys L ks = reject_duplicates L {} ks"

section \<open>The unspendable internal key\<close>

text \<open>The 32 bytes of a word, most significant first.\<close>

definition be_bytes :: "word256 \<Rightarrow> bytes" where
  "be_bytes w = map (\<lambda>i. ucast (drop_bit (8 * (31 - i)) w)) [0..<32]"

definition nums_xpub :: "ms_lib \<Rightarrow> network \<Rightarrow> word256 \<Rightarrow> (xpub, descriptor_error) result" where
  "nums_xpub L net chain_code =
     and_then (map_err KeyConversion (hex_decode32 L NUMS_INTERNAL_KEY)) (\<lambda>hx.
     let sec = 0x02 # be_bytes hx in
     and_then (map_err KeyConversion (pk_from_slice L sec)) (\<lambda>public_key.
     and_then (map_err KeyConversion (from_normal_idx L 0)) (\<lambda>child_number.
     Ok \<lparr>xp_network = kind_from_network L net, xp_depth = 0, xp_parent_fingerprint = 0,
         xp_child_number = child_number, xp_public_key = public_key, xp_chain_code = chain_code\<rparr>)))"

definition nums_xpub_descriptor_key :: "ms_lib \<Rightarrow> network \<Rightarrow> word256 \<Rightarrow>
    (descriptor_public_key, descriptor_error) result" where
  "nums_xpub_descriptor_key L net chain_code =
     and_then (nums_xpub L net chain_code) (\<lambda>xpub.
     and_then (map_err KeyConversion (from_normal_idx L 0)) (\<lambda>zero.
     Ok (XPub \<lparr>dx_origin = None, dx_xkey = xpub, dx_path = [zero], dx_wildcard = Unhardened\<rparr>)))"

definition taproot_internal_key_str :: "ms_lib \<Rightarrow> descriptor_builder \<Rightarrow> network \<Rightarrow> (string, descriptor_error) result" where
  "taproot_internal_key_str L b net =
     (case db_taproot_internal_key b of
        RawNums \<Rightarrow> Ok NUMS_INTERNAL_KEY
      | NumsXpub chain_code \<Rightarrow>
          and_then (nums_xpub_descriptor_key L net chain_code) (\<lambda>k. Ok (dpk_to_string L k)))"

section \<open>Building\<close>

definition build_wsh :: "ms_lib \<Rightarrow> descriptor_builder \<Rightarrow> (descriptor, descriptor_error) result" where
  "build_wsh L b =
     and_then (result_map (\<lambda>(_, e). build_descriptor_key L (db_mode b) e) (db_entries b)) (\<lambda>ks.
     and_then (reject_duplicate_keys L ks) (\<lambda>_.
     map_err Miniscript (new_wsh_sortedmulti L (unat (db_threshold b)) ks)))"

definition sorted_taproot_keys :: "ms_lib \<Rightarrow> descriptor_builder \<Rightarrow>
    (descriptor_public_key list, descriptor_error) result" where
  "sorted_taproot_keys L b =
     and_then (result_map (\<lambda>(_, e).
       let (xonly, _) = x_only_public_key (xp_public_key (ke_xpub e)) in
       and_then (case db_mode b of
                   Fixed \<Rightarrow> Ok (build_taproot_key e)
                 | Ranged \<Rightarrow> build_descriptor_key L (db_mode b) e) (\<lambda>key.
       Ok (xonly, key))) (db_entries b)) (\<lambda>keyed.
     Ok (map snd (sort_key fst keyed)))"

definition build_taproot :: "ms_lib \<Rightarrow> descriptor_builder \<Rightarrow> network \<Rightarrow> (descriptor, descriptor_error) result" where
  "build_taproot L b net =
     and_then (sorted_taproot_keys L b) (\<lambda>ks.
     and_then (reject_duplicate_keys L ks) (\<lambda>_.
     let joined = join '','' (map (dpk_to_string L) ks) in
     and_then (taproot_internal_key_str L b net) (\<lambda>internal.
     let desc_str = ''tr('' @ internal @ '',multi_a('' @ dec (unat (db_threshold b)) @ '','' @ joined @ ''))''
     in map_err Miniscript (desc_from_str L desc_str))))"

fun check_networks :: "ms_lib \<Rightarrow> network \<Rightarrow> key_entry list \<Rightarrow> (unit, descriptor_error) result" where
  "check_networks L net [] = Ok ()"
| "check_networks L net (e # es) =
     (let xpub_kind = xp_network (ke_xpub e);
          expected_kind = kind_from_network L net
      in if xpub_kind \<noteq> expected_kind
         then Err (De_NetworkMismatch (debug_kind L expected_kind) (debug_kind L xpub_kind))
         else check_networks L net es)"

definition build :: "ms_lib \<Rightarrow> descriptor_builder \<Rightarrow> (descriptor, descriptor_error) result" where
  "build L b =
     (if db_entries b = [] then Err (De_Parse ''descriptor builder has no signers'')
      else and_then (ok_or (De_Parse ''only Bitcoin networks supported'') (nt_bitcoin (db_network b))) (\<lambda>net.
      and_then (check_networks L net (map snd (db_entries b))) (\<lambda>_.
      case db_script_type b of
        Script_Wsh \<Rightarrow> build_wsh L b
      | Script_Tr \<Rightarrow> build_taproot L b net)))"

section \<open>BIP-388 policies\<close>

record bip388_taproot_policy =
  bp_template :: string
  bp_keys :: "string list"

definition strip_wildcard :: "string \<Rightarrow> string" where
  "strip_wildcard key = trim_end_matches ''/0/*'' (trim_end_matches ''/<0;1>/*'' key)"

definition bip388_taproot_policy_of :: "ms_lib \<Rightarrow> descriptor_builder \<Rightarrow> (bip388_taproot_policy, descriptor_error) result" where
  "bip388_taproot_policy_of L b =
     (case db_taproot_internal_key b of
        RawNums \<Rightarrow> Err (De_Parse ''BIP-388 policy requires a NumsXpub taproot builder'')
      | NumsXpub chain_code \<Rightarrow>
        if db_script_type b \<noteq> Script_Tr then Err (De_Parse ''BIP-388 policy requires ScriptType::Tr'')
        else and_then (ok_or (De_Parse ''only Bitcoin networks supported'') (nt_bitcoin (db_network b))) (\<lambda>net.
        and_then (nums_xpub_descriptor_key L net chain_code) (\<lambda>nums.
        let nums_key = strip_wildcard (dpk_to_string L nums) in
        and_then (sorted_taproot_keys L b) (\<lambda>ks.
        let key_infos = nums_key # map (\<lambda>k. strip_wildcard (dpk_to_string L k)) ks;
            placeholders = join '','' (map (\<lambda>i. ''@'' @ dec i @ ''/**'') [1..<length key_infos]);
            template = ''tr(@0/**,multi_a('' @ dec (unat (db_threshold b)) @ '','' @ placeholders @ ''))''
        in Ok \<lparr>bp_template = template, bp_keys = key_infos\<rparr>))))"

section \<open>Helpers for consumers\<close>

definition to_multipath_string :: "ms_lib \<Rightarrow> descriptor \<Rightarrow> string" where
  "to_multipath_string L d = replace_all ''/0/*'' ''/<0;1>/*'' (before_char (CHR ''#'') (desc_to_string L d))"

definition available_script_types :: "signer list \<Rightarrow> script_type list" where
  "available_script_types ss =
     [Script_Wsh] @ (if ss \<noteq> [] \<and> list_all (\<lambda>s. taproot (sg_capabilities s)) ss then [Script_Tr] else [])"

text \<open>The loop of \<open>Federation::build_descriptor\<close> and of the functions of
  \<open>src/federation_build.rs\<close>: every signer in turn, the first error ends it.\<close>

fun add_signers :: "descriptor_builder \<Rightarrow> signer list \<Rightarrow> (descriptor_builder, descriptor_error) result" where
  "add_signers b [] = Ok b"
| "add_signers b (s # ss) =
     (case builder_add_signer b s of (b', r) \<Rightarrow> and_then r (\<lambda>_. add_signers b' ss))"

section \<open>Lemmas on strings\<close>

lemma trim_start_none: "strip_prefix p s = None \<Longrightarrow> trim_start p s = s"
  by (subst trim_start.simps) simp

lemma trim_start_once: "p \<noteq> [] \<Longrightarrow> trim_start p (p @ s) = trim_start p s"
  by (subst trim_start.simps) simp

lemma strip_wildcard_body:
  assumes "body \<noteq> []" "last body \<noteq> CHR ''*''"
  shows "strip_wildcard (body @ ''/0/*'') = body"
proof -
  obtain c cs where c: "rev body = c # cs" "c \<noteq> CHR ''*''"
    using assms by (cases body rule: rev_cases) auto
  have "trim_end_matches ''/<0;1>/*'' (body @ ''/0/*'') = body @ ''/0/*''"
    by (simp add: trim_end_matches_def trim_start_none)
  moreover have "trim_end_matches ''/0/*'' (body @ ''/0/*'') = body"
    using trim_start_once[of "rev ''/0/*''" "rev body"] c
    by (simp add: trim_end_matches_def trim_start_none)
  ultimately show ?thesis by (simp add: strip_wildcard_def)
qed

lemma set_replace_all: "set (replace_all p new s) \<subseteq> set new \<union> set s"
proof (induction p new s rule: replace_all.induct)
  case (1 p new s)
  show ?case
  proof (cases s)
    case Nil
    then show ?thesis by (subst replace_all.simps) simp
  next
    case (Cons c cs)
    show ?thesis
    proof (cases "p = []")
      case True
      with Cons show ?thesis by (subst replace_all.simps) auto
    next
      case p: False
      show ?thesis
      proof (cases "strip_prefix p s")
        case None
        then have "replace_all p new s = c # replace_all p new cs"
          using Cons p by (subst replace_all.simps) simp
        with 1(1)[OF Cons p None] Cons show ?thesis by auto
      next
        case (Some r)
        then have "replace_all p new s = new @ replace_all p new r"
          using Cons p by (subst replace_all.simps) simp
        with 1(2)[OF Cons p Some] Some show ?thesis by (auto simp: strip_prefix_Some)
      qed
    qed
  qed
qed

lemma before_char_notin: "c \<notin> set (before_char c s)"
  unfolding before_char_def by (auto dest: set_takeWhileD)

section \<open>Lemmas on the builder\<close>

lemma reject_duplicates_Ok:
  "reject_duplicates L seen ks = Ok () \<longleftrightarrow>
     distinct (map (dpk_to_string L) ks) \<and> seen \<inter> dpk_to_string L ` set ks = {}"
  by (induction L seen ks rule: reject_duplicates.induct) (auto simp: Let_def)

lemma reject_duplicate_keys_Ok [result_simps]:
  "reject_duplicate_keys L ks = Ok u \<longleftrightarrow> distinct (map (dpk_to_string L) ks)"
  by (simp add: reject_duplicate_keys_def reject_duplicates_Ok[where seen = "{}"])

lemma check_networks_Ok [result_simps]:
  "check_networks L net es = Ok u \<longleftrightarrow> (\<forall>e \<in> set es. xp_network (ke_xpub e) = kind_from_network L net)"
  by (induction L net es rule: check_networks.induct) (auto simp: Let_def)

definition signer_entry :: "signer \<Rightarrow> signer_id \<times> key_entry" where
  "signer_entry s = (sg_id s, \<lparr>ke_fingerprint = sg_fingerprint s,
     ke_derivation_path = sg_derivation_path s, ke_xpub = sg_xpub s\<rparr>)"

lemma fst_signer_entry [simp]: "fst (signer_entry s) = sg_id s"
  by (simp add: signer_entry_def)

lemma builder_add_signer_eq:
  "builder_add_signer b s =
     (b\<lparr>db_entries := bt_insert (sg_id s) (snd (signer_entry s)) (db_entries b)\<rparr>,
      if sg_id s \<in> fst ` set (db_entries b) then Err (DuplicateKey (signer_id_as_str (sg_id s))) else Ok ())"
  by (auto simp: builder_add_signer_def signer_entry_def Let_def map_of_eq_None_iff)

lemma add_signers_eq:
  "add_signers b ss =
     (if distinct (map sg_id ss) \<and> fst ` set (db_entries b) \<inter> sg_id ` set ss = {}
      then Ok (b\<lparr>db_entries := bt.insert_all (map signer_entry ss) (db_entries b)\<rparr>)
      else add_signers b ss)"
proof (induction ss arbitrary: b)
  case (Cons s ss)
  let ?b = "b\<lparr>db_entries := bt_insert (sg_id s) (snd (signer_entry s)) (db_entries b)\<rparr>"
  have c: "bt.insert_all (signer_entry s # kvs) m =
      bt.insert_all kvs (bt_insert (sg_id s) (snd (signer_entry s)) m)" for kvs m
    by (metis bt.insert_all.simps(2) fst_signer_entry prod.collapse)
  from Cons[of ?b] show ?case by (auto simp: builder_add_signer_eq c)
qed simp

lemma add_signers_Ok:
  "(\<exists>b'. add_signers b ss = Ok b') \<longleftrightarrow>
     distinct (map sg_id ss) \<and> fst ` set (db_entries b) \<inter> sg_id ` set ss = {}"
  by (induction b ss rule: add_signers.induct) (auto simp: builder_add_signer_eq)

lemma add_signers_fresh:
  assumes "db_entries b = []"
  shows "add_signers b ss = Ok b' \<longleftrightarrow>
    distinct (map sg_id ss) \<and> b' = b\<lparr>db_entries := bt.insert_all (map signer_entry ss) []\<rparr>"
  using add_signers_eq[of b ss] add_signers_Ok[of b ss] assms by auto

lemma add_signers_no_panic: "add_signers b ss \<noteq> Panic"
  by (induction b ss rule: add_signers.induct) (auto simp: builder_add_signer_eq)

lemma bt_wf_entries: "bt_wf (bt.insert_all kvs [])"
  by (rule bt.inv_insert_all) simp

lemma map_of_entries: "map_of (bt.insert_all kvs []) = map_of (rev kvs)"
  using bt.lookup_insert_all[of "[]" kvs] by simp

lemma set_entries:
  assumes "distinct (map fst kvs)"
  shows "set (bt.insert_all kvs []) = set kvs"
proof -
  have "distinct (map fst (bt.insert_all kvs []))" by (rule bt_wf_distinct[OF bt_wf_entries])
  moreover have "distinct (map fst (rev kvs))" using assms by (simp add: rev_map[symmetric])
  ultimately show ?thesis
    using map_of_entries[of kvs] by (metis map_of_inject_set set_rev)
qed

lemma length_entries: "distinct (map fst kvs) \<Longrightarrow> length (bt.insert_all kvs []) = length kvs"
  using set_entries[of kvs] bt_wf_distinct[OF bt_wf_entries, of kvs]
  by (metis distinct_card distinct_map)

section \<open>What a build uses\<close>

text \<open>The key a signer contributes to a \<open>wsh\<close> descriptor, and to a \<open>tr\<close>
  one.\<close>

definition wsh_key :: "key_mode \<Rightarrow> key_entry \<Rightarrow> descriptor_public_key" where
  "wsh_key mode e =
     (case mode of
        Fixed \<Rightarrow> Single \<lparr>sp_origin = entry_origin e, sp_key = FullKey \<lparr>compressed = True, inner = xp_public_key (ke_xpub e)\<rparr>\<rparr>
      | Ranged \<Rightarrow> XPub \<lparr>dx_origin = entry_origin e, dx_xkey = ke_xpub e, dx_path = [0], dx_wildcard = Unhardened\<rparr>)"

definition tr_key :: "key_mode \<Rightarrow> key_entry \<Rightarrow> descriptor_public_key" where
  "tr_key mode e =
     (case mode of
        Fixed \<Rightarrow> Single \<lparr>sp_origin = entry_origin e, sp_key = XOnly (pk_x (xp_public_key (ke_xpub e)))\<rparr>
      | Ranged \<Rightarrow> wsh_key Ranged e)"

definition entry_x :: "key_entry \<Rightarrow> word256" where
  "entry_x e = pk_x (xp_public_key (ke_xpub e))"

text \<open>Index 0 is a normal child number.\<close>

abbreviation zero_index_ok :: "ms_lib \<Rightarrow> bool" where
  "zero_index_ok L \<equiv> from_normal_idx L 0 = Ok 0"

lemma build_descriptor_key_eq: "zero_index_ok L \<Longrightarrow> build_descriptor_key L mode e = Ok (wsh_key mode e)"
  by (cases mode) (simp_all add: build_descriptor_key_def wsh_key_def)

lemma sorted_taproot_keys_eq:
  assumes "zero_index_ok L"
  shows "sorted_taproot_keys L b =
    Ok (map (tr_key (db_mode b)) (sort_key entry_x (map snd (db_entries b))))"
proof -
  have "result_map (\<lambda>(_, e).
       let (xonly, _) = x_only_public_key (xp_public_key (ke_xpub e)) in
       and_then (case db_mode b of
                   Fixed \<Rightarrow> Ok (build_taproot_key e)
                 | Ranged \<Rightarrow> build_descriptor_key L (db_mode b) e) (\<lambda>key.
       Ok (xonly, key))) (db_entries b) =
     (Ok (map (\<lambda>(_, e). (entry_x e, tr_key (db_mode b) e)) (db_entries b)) :: (_, descriptor_error) result)"
    by (intro result_map_pure)
      (auto simp: x_only_public_key_def build_taproot_key_def tr_key_def entry_x_def
        build_descriptor_key_eq[OF assms] split: key_mode.split)
  moreover have "sort_key fst (map (\<lambda>e. (entry_x e, tr_key m e)) es) =
      map (\<lambda>e. (entry_x e, tr_key m e)) (sort_key entry_x es)" for m es
    by (simp add: sort_key_map)
  from this[of "db_mode b" "map snd (db_entries b)"]
  have "sort_key fst (map (\<lambda>(_, e). (entry_x e, tr_key (db_mode b) e)) (db_entries b)) =
      map (\<lambda>e. (entry_x e, tr_key (db_mode b) e)) (sort_key entry_x (map snd (db_entries b)))"
    by (simp add: comp_def case_prod_beta')
  ultimately show ?thesis by (simp add: sorted_taproot_keys_def comp_def)
qed

text \<open>The string of a taproot descriptor: internal key, threshold, keys in order.\<close>

definition tr_string :: "string \<Rightarrow> nat \<Rightarrow> string list \<Rightarrow> string" where
  "tr_string internal m ks = ''tr('' @ internal @ '',multi_a('' @ dec m @ '','' @ join '','' ks @ ''))''"

definition tr_keys :: "descriptor_builder \<Rightarrow> descriptor_public_key list" where
  "tr_keys b = map (tr_key (db_mode b)) (sort_key entry_x (map snd (db_entries b)))"

lemma build_Ok:
  "build L b = Ok d \<longleftrightarrow> db_entries b \<noteq> [] \<and> (\<exists>net. db_network b = Bitcoin net
     \<and> (\<forall>e \<in> snd ` set (db_entries b). xp_network (ke_xpub e) = kind_from_network L net)
     \<and> (case db_script_type b of Script_Wsh \<Rightarrow> build_wsh L b = Ok d | Script_Tr \<Rightarrow> build_taproot L b net = Ok d))"
  by (auto simp: build_def result_simps nt_bitcoin_iff split: script_type.split)

lemma build_taproot_Ok:
  assumes "zero_index_ok L"
  shows "build_taproot L b net = Ok d \<longleftrightarrow>
    distinct (map (dpk_to_string L) (tr_keys b)) \<and>
    (\<exists>internal. taproot_internal_key_str L b net = Ok internal \<and>
       desc_from_str L (tr_string internal (unat (db_threshold b)) (map (dpk_to_string L) (tr_keys b))) = Ok d)"
  by (auto simp: build_taproot_def sorted_taproot_keys_eq[OF assms] tr_keys_def[symmetric] result_simps
      tr_string_def Let_def)

lemma build_wsh_Ok:
  assumes "zero_index_ok L"
  shows "build_wsh L b = Ok d \<longleftrightarrow>
    distinct (map (\<lambda>(_, e). dpk_to_string L (wsh_key (db_mode b) e)) (db_entries b)) \<and>
    new_wsh_sortedmulti L (unat (db_threshold b)) (map (\<lambda>(_, e). wsh_key (db_mode b) e) (db_entries b)) = Ok d"
proof -
  have "result_map (\<lambda>(_, e). build_descriptor_key L (db_mode b) e) (db_entries b) =
      (Ok (map (\<lambda>(_, e). wsh_key (db_mode b) e) (db_entries b)) :: (_, descriptor_error) result)"
    by (intro result_map_pure) (auto simp: build_descriptor_key_eq[OF assms])
  then show ?thesis by (simp add: build_wsh_def result_simps comp_def case_prod_beta')
qed

lemma add_signers_perm:
  assumes "bt_wf (db_entries b)" "mset ss = mset ts" "add_signers b ss = Ok b'"
  shows "add_signers b ts = Ok b'"
proof -
  from assms(3) have ok: "distinct (map sg_id ss) \<and> fst ` set (db_entries b) \<inter> sg_id ` set ss = {}"
    using add_signers_Ok[of b ss] by auto
  then have ok': "distinct (map sg_id ts) \<and> fst ` set (db_entries b) \<inter> sg_id ` set ts = {}"
    using mset_eq_imp_distinct_iff[of "map sg_id ss" "map sg_id ts"] mset_eq_setD[OF assms(2)] assms(2)
    by (simp add: mset_map)
  have "map fst (map signer_entry ss) = map sg_id ss" by simp
  with ok have "bt.insert_all (map signer_entry ss) (db_entries b) = bt.insert_all (map signer_entry ts) (db_entries b)"
    using assms(1,2) by (intro bt.entries_insert_perm) (auto simp: mset_map comp_def)
  with ok ok' add_signers_eq[of b ss] add_signers_eq[of b ts] assms(3) show ?thesis by simp
qed

section \<open>Properties\<close>

text \<open>Signers can be added in any order: whenever one order is accepted, every other order of the same
signers is, and gives the same builder, hence the same descriptor and the same policy.\<close>

theorem builder_order_insensitive:
  assumes "bt_wf (db_entries b)" "mset ss = mset ts" "add_signers b ss = Ok b'"
  shows "add_signers b ts = Ok b'"
  by (rule add_signers_perm[OF assms])

text \<open>Signers are accepted exactly when no two share an id; the builder then holds one entry per
signer, with that signer's fingerprint, path and key, in the order of the ids, and is otherwise
unchanged.\<close>

theorem builder_collects:
  assumes "db_entries b = []"
  shows "add_signers b ss = Ok b' \<longleftrightarrow> distinct (map sg_id ss) \<and>
    (\<exists>es. b' = b\<lparr>db_entries := es\<rparr> \<and> sorted_wrt (<) (map fst es) \<and> set es = set (map signer_entry ss))"
    (is "_ \<longleftrightarrow> ?d \<and> (\<exists>es. ?P es)")
proof -
  let ?es = "bt.insert_all (map signer_entry ss) []"
  have s: "sorted_wrt (<) (map fst ?es)" using bt_wf_entries by (simp add: bt_wf_def)
  have d: "distinct (map sg_id ss) \<Longrightarrow> set ?es = set (map signer_entry ss)"
    by (rule set_entries) (simp add: comp_def)
  have "es = ?es" if "?d" "?P es" for es
  proof (rule sorted_alist_ext[OF _ s])
    show "map_of es = map_of ?es"
      using that s d by (intro map_of_inject_set[THEN iffD2]) (simp_all add: strict_sorted_iff)
  qed (use that in simp)
  with s d show ?thesis unfolding add_signers_fresh[OF assms] by auto
qed

text \<open>
C34: A \<open>wsh\<close> build succeeds exactly when there are signers, the network is a Bitcoin one that
every extended key belongs to, no two keys print alike, and miniscript accepts
\<open>sortedmulti\<close> of the threshold and one key per signer in id order; and then its descriptor is the
result.\<close>

theorem build_wsh_iff:
  assumes "zero_index_ok L" "db_script_type b = Script_Wsh"
  shows "build L b = Ok d \<longleftrightarrow> db_entries b \<noteq> []
    \<and> (\<exists>net. db_network b = Bitcoin net
        \<and> (\<forall>e \<in> snd ` set (db_entries b). xp_network (ke_xpub e) = kind_from_network L net))
    \<and> distinct (map (\<lambda>(_, e). dpk_to_string L (wsh_key (db_mode b) e)) (db_entries b))
    \<and> new_wsh_sortedmulti L (unat (db_threshold b)) (map (\<lambda>(_, e). wsh_key (db_mode b) e) (db_entries b)) = Ok d"
  unfolding build_Ok using assms(2) by (auto simp: build_wsh_Ok[OF assms(1)])

text \<open>
C35: A \<open>tr\<close> build succeeds exactly when the same conditions hold and miniscript parses the string
of a \<open>multi_a\<close> over the signers' keys; the keys stand in ascending order of the x-only form of
the signers' own keys, whatever order the signers were added in and whatever the key mode.\<close>

theorem build_taproot_iff:
  assumes "zero_index_ok L" "db_script_type b = Script_Tr"
  shows "build L b = Ok d \<longleftrightarrow> db_entries b \<noteq> [] \<and>
    (\<exists>net internal es. db_network b = Bitcoin net
        \<and> (\<forall>e \<in> snd ` set (db_entries b). xp_network (ke_xpub e) = kind_from_network L net)
        \<and> es = sort_key entry_x (map snd (db_entries b)) \<and> sorted (map entry_x es)
        \<and> distinct (map (\<lambda>e. dpk_to_string L (tr_key (db_mode b) e)) es)
        \<and> taproot_internal_key_str L b net = Ok internal
        \<and> desc_from_str L (tr_string internal (unat (db_threshold b))
             (map (\<lambda>e. dpk_to_string L (tr_key (db_mode b) e)) es)) = Ok d)"
  unfolding build_Ok using assms(2)
  by (simp add: build_taproot_Ok[OF assms(1)] tr_keys_def comp_def)

text \<open>A small library of key printing and parsing for the witnesses: a key prints as its x
coordinate.\<close>

definition NUMS_X :: word256 where
  "NUMS_X = 0x50929b74c1a04954b78b4b6035e97a5e078a5a0f28ec96d547bfee9ace803ac0"

fun demo_show_key :: "descriptor_public_key \<Rightarrow> string" where
  "demo_show_key (Single s) =
     (case sp_key s of FullKey k \<Rightarrow> ''f'' @ dec (unat (pk_x (inner k))) | XOnly x \<Rightarrow> dec (unat x))"
| "demo_show_key (XPub k) = dec (unat (pk_x (xp_public_key (dx_xkey k)))) @
     (if dx_path k = [0] \<and> dx_wildcard k = Unhardened then ''/0/*'' else [])"
| "demo_show_key (MultiXPub k) = ''m''"

definition demo_lib :: ms_lib where
  "demo_lib =
     \<lparr>dpk_to_string = demo_show_key,
      desc_to_string = (\<lambda>d. case d of Tr s \<Rightarrow> s | _ \<Rightarrow> ''wsh''),
      desc_from_str = (\<lambda>s. Ok (Tr s)),
      new_wsh_sortedmulti = (\<lambda>k ks. Ok (Wsh (SortedMulti k ks))),
      from_normal_idx = (\<lambda>i. Ok i),
      hex_decode32 = (\<lambda>s. Ok NUMS_X),
      pk_from_slice = (\<lambda>s. Ok \<lparr>pk_odd = False, pk_x = NUMS_X\<rparr>),
      kind_from_network = (\<lambda>n. if n = Mainnet then Main else Test),
      debug_kind = (\<lambda>k. if k = Main then ''Main'' else ''Test'')\<rparr>"

definition demo_xpub :: "word256 \<Rightarrow> xpub" where
  "demo_xpub x = \<lparr>xp_network = Test, xp_depth = 0, xp_parent_fingerprint = 0, xp_child_number = 0,
     xp_public_key = \<lparr>pk_odd = False, pk_x = x\<rparr>, xp_chain_code = 0\<rparr>"

definition demo_signer :: "string \<Rightarrow> word256 \<Rightarrow> signer" where
  "demo_signer i x =
     \<lparr>sg_id = SignerId i, sg_label = None, sg_xpub = demo_xpub x, sg_fingerprint = ucast x,
      sg_derivation_path = [], sg_signer_type = Software, sg_supported_networks = [Bitcoin Regtest],
      sg_capabilities = p2wsh_only [], sg_health_check = Err (Backend ''none'')\<rparr>"

definition demo_builder :: descriptor_builder where
  "demo_builder = builder_script_type Script_Tr (builder_key_mode Ranged
     (builder_taproot_internal_key (NumsXpub 5) (builder_new 2 (Bitcoin Regtest))))"

lemmas demo_lib_eval = demo_lib_def demo_signer_def demo_xpub_def demo_builder_def builder_new_def
  builder_key_mode_def builder_script_type_def builder_taproot_internal_key_def

theorem builder_order_insensitive_witness:
  "add_signers demo_builder [demo_signer ''b'' 1, demo_signer ''a'' 9] =
   add_signers demo_builder [demo_signer ''a'' 9, demo_signer ''b'' 1]"
proof -
  have wf: "bt_wf (db_entries demo_builder)" by (simp add: demo_lib_eval)
  have "\<exists>b'. add_signers demo_builder [demo_signer ''b'' 1, demo_signer ''a'' 9] = Ok b'"
    unfolding add_signers_Ok by (simp add: demo_lib_eval)
  then obtain b' where "add_signers demo_builder [demo_signer ''b'' 1, demo_signer ''a'' 9] = Ok b'" by blast
  then show ?thesis
    using builder_order_insensitive[OF wf, of "[demo_signer ''b'' 1, demo_signer ''a'' 9]"
        "[demo_signer ''a'' 9, demo_signer ''b'' 1]"] by simp
qed

theorem builder_collects_witness:
  "\<not> (\<exists>b'. add_signers demo_builder [demo_signer ''a'' 1, demo_signer ''a'' 9] = Ok b')"
  using builder_collects[of demo_builder "[demo_signer ''a'' 1, demo_signer ''a'' 9]"]
  by (simp add: demo_lib_eval)

theorem build_wsh_iff_witness:
  "build demo_lib (builder_new 2 (Bitcoin Regtest)\<lparr>db_entries := [signer_entry (demo_signer ''a'' 9), signer_entry (demo_signer ''b'' 1)]\<rparr>) =
   Ok (Wsh (SortedMulti 2 (map (\<lambda>s. wsh_key Fixed (snd (signer_entry s))) [demo_signer ''a'' 9, demo_signer ''b'' 1])))"
  by (subst build_wsh_iff) (simp_all add: demo_lib_eval signer_entry_def wsh_key_def dec_inject)

theorem build_taproot_iff_witness:
  "build demo_lib (demo_builder\<lparr>db_entries := [signer_entry (demo_signer ''a'' 9), signer_entry (demo_signer ''b'' 1)]\<rparr>) =
   Ok (Tr (tr_string (dec (unat NUMS_X) @ ''/0/*'') 2 [dec 1 @ ''/0/*'', dec 9 @ ''/0/*'']))"
  by (subst build_taproot_iff)
    (simp_all add: demo_lib_eval signer_entry_def wsh_key_def tr_key_def entry_x_def dec_inject
      taproot_internal_key_str_def nums_xpub_descriptor_key_def nums_xpub_def word_le_nat_alt)

text \<open>The NUMS extended key is the BIP-341 point H at depth 0, on the kind of the network and with
  the chosen chain code.\<close>

lemma nums_xpub_point:
  assumes "zero_index_ok L" "hex_decode32 L NUMS_INTERNAL_KEY = Ok NUMS_X"
    and "pk_from_slice L (0x02 # be_bytes NUMS_X) = Ok \<lparr>pk_odd = False, pk_x = NUMS_X\<rparr>"
  shows "nums_xpub L net chain_code =
    Ok \<lparr>xp_network = kind_from_network L net, xp_depth = 0, xp_parent_fingerprint = 0,
        xp_child_number = 0, xp_public_key = \<lparr>pk_odd = False, pk_x = NUMS_X\<rparr>, xp_chain_code = chain_code\<rparr>"
  using assms by (simp add: nums_xpub_def)

text \<open>How an extended key with path 0 and an unhardened wildcard prints: some text that does not end in
a star, then \<open>/0/*\<close>.\<close>

abbreviation ranged_display :: "ms_lib \<Rightarrow> bool" where
  "ranged_display L \<equiv> (\<forall>k. dx_path k = [0] \<longrightarrow> dx_wildcard k = Unhardened \<longrightarrow>
     (\<exists>body. dpk_to_string L (XPub k) = body @ ''/0/*'' \<and> body \<noteq> [] \<and> last body \<noteq> CHR ''*''))"

lemma strip_ranged:
  assumes "ranged_display L" "dx_path k = [0]" "dx_wildcard k = Unhardened"
  shows "strip_wildcard (dpk_to_string L (XPub k)) @ ''/0/*'' = dpk_to_string L (XPub k)"
  using assms strip_wildcard_body by metis

text \<open>The BIP-388 policy of a ranged builder describes the very descriptor the builder builds: its template
has one placeholder per key, and putting each key of the list, with the receive branch \<open>/0/*\<close>, in
the place of its placeholder gives the string the descriptor was parsed from.\<close>

lemma bip388_expansion:
  assumes "zero_index_ok L" "ranged_display L" "db_mode b = Ranged"
    and "bip388_taproot_policy_of L b = Ok pol" "build L b = Ok d"
  shows "bp_template pol = tr_string ''@0/**'' (unat (db_threshold b))
        (map (\<lambda>i. ''@'' @ dec i @ ''/**'') [1..<length (bp_keys pol)])
    \<and> length (bp_keys pol) = Suc (length (db_entries b))
    \<and> desc_from_str L (tr_string (hd (bp_keys pol) @ ''/0/*'') (unat (db_threshold b))
        (map (\<lambda>k. k @ ''/0/*'') (tl (bp_keys pol)))) = Ok d"
proof -
  from assms(4) obtain cc net nums where cc: "db_taproot_internal_key b = NumsXpub cc"
      and tr: "db_script_type b = Script_Tr" and net: "db_network b = Bitcoin net"
      and nums: "nums_xpub_descriptor_key L net cc = Ok nums"
      and pol: "bp_keys pol = strip_wildcard (dpk_to_string L nums) # map (\<lambda>k. strip_wildcard (dpk_to_string L k)) (tr_keys b)"
        "bp_template pol = tr_string ''@0/**'' (unat (db_threshold b))
           (map (\<lambda>i. ''@'' @ dec i @ ''/**'') [1..<length (bp_keys pol)])"
    by (auto simp: bip388_taproot_policy_of_def result_simps nt_bitcoin_iff sorted_taproot_keys_eq[OF assms(1)]
        tr_keys_def[symmetric] Let_def tr_string_def split: taproot_internal_key.splits if_splits)
  from assms(5) tr net cc nums
  have d: "desc_from_str L (tr_string (dpk_to_string L nums) (unat (db_threshold b)) (map (dpk_to_string L) (tr_keys b))) = Ok d"
    by (auto simp: build_Ok build_taproot_Ok[OF assms(1)] taproot_internal_key_str_def)
  from nums obtain x where "nums = XPub \<lparr>dx_origin = None, dx_xkey = x, dx_path = [0], dx_wildcard = Unhardened\<rparr>"
    using assms(1) by (auto simp: nums_xpub_descriptor_key_def result_simps)
  then have "strip_wildcard (dpk_to_string L nums) @ ''/0/*'' = dpk_to_string L nums"
    using strip_ranged[OF assms(2)] by simp
  moreover have "map (\<lambda>k. strip_wildcard (dpk_to_string L k) @ ''/0/*'') (tr_keys b) = map (dpk_to_string L) (tr_keys b)"
    using strip_ranged[OF assms(2)] by (auto simp: tr_keys_def tr_key_def wsh_key_def assms(3))
  moreover have "length (tr_keys b) = length (db_entries b)" by (simp add: tr_keys_def)
  ultimately show ?thesis
    using pol d by (simp add: comp_def cong: map_cong)
qed

text \<open>The multipath string never carries a checksum: it contains no \<open>#\<close>.\<close>

lemma multipath_no_checksum: "CHR ''#'' \<notin> set (to_multipath_string L d)"
  using set_replace_all[of "''/0/*''" "''/<0;1>/*''" "before_char (CHR ''#'') (desc_to_string L d)"]
    before_char_notin[of "CHR ''#''" "desc_to_string L d"]
  by (auto simp: to_multipath_string_def)

text \<open>The demo builder with two signers, its policy and its descriptor.\<close>

definition demo_full_builder :: descriptor_builder where
  "demo_full_builder = demo_builder\<lparr>db_entries := [signer_entry (demo_signer ''a'' 9), signer_entry (demo_signer ''b'' 1)]\<rparr>"

definition demo_policy :: bip388_taproot_policy where
  "demo_policy = \<lparr>bp_template = tr_string ''@0/**'' 2 [''@'' @ dec 1 @ ''/**'', ''@'' @ dec 2 @ ''/**''],
     bp_keys = [dec (unat NUMS_X), dec 1, dec 9]\<rparr>"

lemma dec_no_star: "last (dec n) \<noteq> CHR ''*''"
proof
  assume "last (dec n) = CHR ''*''"
  then have "is_digit (CHR ''*'')" using dec_digits[OF last_in_set[OF dec_nonempty[of n]]] by simp
  then show False by (simp add: is_digit_def)
qed

lemma demo_policy_of: "bip388_taproot_policy_of demo_lib demo_full_builder = Ok demo_policy"
proof -
  have strip: "strip_wildcard (dec n @ ''/0/*'') = dec n" for n
    using dec_no_star by (intro strip_wildcard_body) simp_all
  obtain nums where nums: "nums_xpub_descriptor_key demo_lib Regtest 5 = Ok nums"
      "dpk_to_string demo_lib nums = dec (unat NUMS_X) @ ''/0/*''"
    by (simp add: nums_xpub_descriptor_key_def nums_xpub_def demo_lib_def)
  obtain k1 k2 where keys: "sorted_taproot_keys demo_lib demo_full_builder = Ok [k1, k2]"
      "dpk_to_string demo_lib k1 = dec 1 @ ''/0/*''" "dpk_to_string demo_lib k2 = dec 9 @ ''/0/*''"
    by (simp add: sorted_taproot_keys_eq demo_full_builder_def demo_lib_eval signer_entry_def tr_key_def wsh_key_def entry_x_def
        word_le_nat_alt)
  have b: "db_taproot_internal_key demo_full_builder = NumsXpub 5" "db_script_type demo_full_builder = Script_Tr"
      "nt_bitcoin (db_network demo_full_builder) = Some Regtest" "unat (db_threshold demo_full_builder) = 2"
    by (simp_all add: demo_full_builder_def demo_builder_def builder_new_def builder_key_mode_def builder_script_type_def
        builder_taproot_internal_key_def nt_bitcoin_def)
  have "[1..<length (dec (unat NUMS_X) # map (\<lambda>k. strip_wildcard (dpk_to_string demo_lib k)) [k1, k2])] = [1, 2]"
    by (simp add: upt_rec)
  then show ?thesis
    unfolding bip388_taproot_policy_of_def demo_policy_def
    by (simp only: b nums keys taproot_internal_key.case and_then.simps ok_or.simps Let_def strip if_False
        simp_thms list.map tr_string_def append_Cons append_Nil)
qed

lemma demo_zero_index: "zero_index_ok demo_lib"
  by (simp add: demo_lib_def)

lemma demo_full_build:
  "build demo_lib demo_full_builder = Ok (Tr (tr_string (dec (unat NUMS_X) @ ''/0/*'') 2 [dec 1 @ ''/0/*'', dec 9 @ ''/0/*'']))"
  unfolding build_Ok build_taproot_Ok[OF demo_zero_index]
  by (simp add: demo_full_builder_def demo_lib_eval tr_keys_def signer_entry_def wsh_key_def tr_key_def entry_x_def dec_inject
      taproot_internal_key_str_def nums_xpub_descriptor_key_def nums_xpub_def word_le_nat_alt)

lemma demo_ranged_display: "ranged_display demo_lib"
  using dec_no_star by (auto simp: demo_lib_def)

end
