(* ===== verification/Federation.thy ===== *)
theory Federation
  imports Descriptor
begin

text \<open>
  \<open>src/federation.rs\<close>: the m-of-n federation. A federation is never changed in place: every
  mutation builds a new one through \<open>with_config\<close>, which validates the inputs and, on a Bitcoin
  network, builds the descriptor. The clock \<open>SystemTime::now()\<close> is the argument
  \<open>now\<close>.
\<close>

record federation =
  fd_threshold :: u32
  fd_signers :: "signer list"
  fd_descriptor :: "descriptor option"
  fd_descriptor_string :: string
  fd_network :: network_type
  fd_key_mode :: key_mode
  fd_script_type :: script_type
  fd_created_at :: system_time

fun validate_signers :: "network_type \<Rightarrow> signer_id set \<Rightarrow> signer list \<Rightarrow> (unit, federation_error) result" where
  "validate_signers net seen [] = Ok ()"
| "validate_signers net seen (s # ss) =
     (let sid = sg_id s in
      if sid \<in> seen then Err (DuplicateSigner sid)
      else if net \<notin> set (sg_supported_networks s) then Err (SignerNetworkMismatch sid net)
      else validate_signers net (insert sid seen) ss)"

definition validate_inputs :: "u32 \<Rightarrow> signer list \<Rightarrow> network_type \<Rightarrow> (unit, federation_error) result" where
  "validate_inputs threshold ss net =
     (if threshold = 0 then Err ZeroThreshold
      else and_then (if length ss < 2 ^ 32 then Ok (of_nat (length ss) :: u32) else Panic) (\<lambda>signer_count.
      if length ss < 2 then Err (InsufficientSigners signer_count)
      else if unat threshold > length ss then Err (ThresholdExceedsSignerCount threshold signer_count)
      else validate_signers net {} ss))"

definition build_federation_descriptor :: "ms_lib \<Rightarrow> u32 \<Rightarrow> signer list \<Rightarrow> network_type \<Rightarrow> key_mode \<Rightarrow> script_type \<Rightarrow>
    (descriptor, federation_error) result" where
  "build_federation_descriptor L threshold ss net mode stype =
     (let builder = builder_script_type stype (builder_key_mode mode (builder_new threshold net)) in
      and_then (map_err Fe_Descriptor (add_signers builder ss)) (\<lambda>builder.
      map_err Fe_Descriptor (build L builder)))"

definition with_config :: "ms_lib \<Rightarrow> system_time \<Rightarrow> u32 \<Rightarrow> signer list \<Rightarrow> network_type \<Rightarrow> key_mode \<Rightarrow> script_type \<Rightarrow>
    (federation, federation_error) result" where
  "with_config L now threshold ss net mode stype =
     and_then (validate_inputs threshold ss net) (\<lambda>_.
     and_then (if is_bitcoin net then
                 and_then (build_federation_descriptor L threshold ss net mode stype) (\<lambda>desc.
                 let s = desc_to_string L desc in Ok (Some desc, s))
               else Ok (None, [])) (\<lambda>(descriptor, descriptor_string).
     Ok \<lparr>fd_threshold = threshold, fd_signers = ss, fd_descriptor = descriptor,
         fd_descriptor_string = descriptor_string, fd_network = net, fd_key_mode = mode,
         fd_script_type = stype, fd_created_at = now\<rparr>))"

definition with_key_mode :: "ms_lib \<Rightarrow> system_time \<Rightarrow> u32 \<Rightarrow> signer list \<Rightarrow> network_type \<Rightarrow> key_mode \<Rightarrow>
    (federation, federation_error) result" where
  "with_key_mode L now threshold ss net mode = with_config L now threshold ss net mode Script_Wsh"

definition federation_new :: "ms_lib \<Rightarrow> system_time \<Rightarrow> u32 \<Rightarrow> signer list \<Rightarrow> network_type \<Rightarrow>
    (federation, federation_error) result" where
  "federation_new L now threshold ss net = with_key_mode L now threshold ss net Fixed"

definition total_signers :: "federation \<Rightarrow> nat" where
  "total_signers f = length (fd_signers f)"

text \<open>\<open>descriptor()\<close> panics on a federation without one.\<close>

definition federation_descriptor :: "federation \<Rightarrow> (descriptor, 'e) result" where
  "federation_descriptor f = expect (fd_descriptor f)"

definition try_descriptor :: "federation \<Rightarrow> descriptor option" where
  "try_descriptor f = fd_descriptor f"

text \<open>The printed descriptor already ends in its checksum.\<close>

definition descriptor_with_checksum :: "federation \<Rightarrow> string" where
  "descriptor_with_checksum f = fd_descriptor_string f"

definition find_signer :: "federation \<Rightarrow> signer_id \<Rightarrow> signer option" where
  "find_signer f sid = List.find (\<lambda>s. sg_id s = sid) (fd_signers f)"

definition contains :: "federation \<Rightarrow> signer_id \<Rightarrow> bool" where
  "contains f sid = (find_signer f sid \<noteq> None)"

definition rotate_signer :: "ms_lib \<Rightarrow> system_time \<Rightarrow> federation \<Rightarrow> signer_id \<Rightarrow> signer \<Rightarrow>
    (federation, federation_error) result" where
  "rotate_signer L now f old new =
     (if \<not> contains f old then Err (SignerNotFound old)
      else if contains f (sg_id new) \<and> sg_id new \<noteq> old then Err (DuplicateSigner (sg_id new))
      else let ss = map (\<lambda>s. if sg_id s = old then new else s) (fd_signers f)
           in with_config L now (fd_threshold f) ss (fd_network f) (fd_key_mode f) (fd_script_type f))"

definition add_signer :: "ms_lib \<Rightarrow> system_time \<Rightarrow> federation \<Rightarrow> signer \<Rightarrow> (federation, federation_error) result" where
  "add_signer L now f new =
     (if contains f (sg_id new) then Err (DuplicateSigner (sg_id new))
      else let ss = fd_signers f @ [new]
           in with_config L now (fd_threshold f) ss (fd_network f) (fd_key_mode f) (fd_script_type f))"

definition remove_signer :: "ms_lib \<Rightarrow> system_time \<Rightarrow> federation \<Rightarrow> signer_id \<Rightarrow> (federation, federation_error) result" where
  "remove_signer L now f sid =
     (if \<not> contains f sid then Err (SignerNotFound sid)
      else let ss = filter (\<lambda>s. sg_id s \<noteq> sid) (fd_signers f)
           in with_config L now (fd_threshold f) ss (fd_network f) (fd_key_mode f) (fd_script_type f))"

definition change_threshold :: "ms_lib \<Rightarrow> system_time \<Rightarrow> federation \<Rightarrow> u32 \<Rightarrow> (federation, federation_error) result" where
  "change_threshold L now f new_threshold =
     with_config L now new_threshold (fd_signers f) (fd_network f) (fd_key_mode f) (fd_script_type f)"

section \<open>The invariant\<close>

definition roster_ok :: "u32 \<Rightarrow> signer list \<Rightarrow> network_type \<Rightarrow> bool" where
  "roster_ok threshold ss net \<longleftrightarrow> 0 < threshold \<and> unat threshold \<le> length ss \<and> 2 \<le> length ss
     \<and> length ss < 2 ^ 32 \<and> distinct (map sg_id ss) \<and> list_all (\<lambda>s. net \<in> set (sg_supported_networks s)) ss"

text \<open>A federation is in order when its roster is, and its descriptor is the one its own data
  builds (or absent, with an empty string, off Bitcoin).\<close>

definition federation_ok :: "ms_lib \<Rightarrow> federation \<Rightarrow> bool" where
  "federation_ok L f \<longleftrightarrow> roster_ok (fd_threshold f) (fd_signers f) (fd_network f) \<and>
     (if is_bitcoin (fd_network f)
      then \<exists>d. build_federation_descriptor L (fd_threshold f) (fd_signers f) (fd_network f)
                 (fd_key_mode f) (fd_script_type f) = Ok d
             \<and> fd_descriptor f = Some d \<and> fd_descriptor_string f = desc_to_string L d
      else fd_descriptor f = None \<and> fd_descriptor_string f = [])"

lemma validate_signers_Ok:
  "validate_signers net seen ss = Ok () \<longleftrightarrow> distinct (map sg_id ss) \<and> seen \<inter> sg_id ` set ss = {}
     \<and> list_all (\<lambda>s. net \<in> set (sg_supported_networks s)) ss"
  by (induction net seen ss rule: validate_signers.induct) (auto simp: Let_def)

lemma validate_inputs_Ok [result_simps]:
  "validate_inputs threshold ss net = Ok u \<longleftrightarrow> roster_ok threshold ss net"
  by (auto simp: validate_inputs_def roster_ok_def validate_signers_Ok[where seen = "{}"] word_gt_0 not_less)

text \<open>What the checks of \<open>validate_inputs\<close> ask: of the counts, and of the signers
its loop has gone through.\<close>

definition counts_ok :: "u32 \<Rightarrow> signer list \<Rightarrow> bool" where
  "counts_ok threshold ss \<longleftrightarrow> 0 < threshold \<and> unat threshold \<le> length ss \<and> 2 \<le> length ss \<and> length ss < 2 ^ 32"

definition scanned :: "network_type \<Rightarrow> signer list \<Rightarrow> bool" where
  "scanned net ss \<longleftrightarrow> distinct (map sg_id ss) \<and> list_all (\<lambda>s. net \<in> set (sg_supported_networks s)) ss"

text \<open>Where the loop is when it looks at a signer: those before it passed.\<close>

definition reached :: "network_type \<Rightarrow> signer_id set \<Rightarrow> signer list \<Rightarrow> signer list \<Rightarrow> signer \<Rightarrow> bool" where
  "reached net seen ss pre s \<longleftrightarrow> (\<exists>post. ss = pre @ s # post) \<and> scanned net pre \<and> seen \<inter> sg_id ` set pre = {}"

lemma reached_Nil [simp]: "\<not> reached net seen [] pre s"
  by (simp add: reached_def)

lemma reached_Cons:
  "reached net seen (t # ts) pre s \<longleftrightarrow> pre = [] \<and> s = t
     \<or> (\<exists>rest. pre = t # rest \<and> sg_id t \<notin> seen \<and> net \<in> set (sg_supported_networks t)
          \<and> reached net (insert (sg_id t) seen) ts rest s)"
  by (cases pre) (auto simp: reached_def scanned_def)

lemma ex_reached_Cons:
  "(\<exists>pre s. reached net seen (t # ts) pre s \<and> P pre s) \<longleftrightarrow> P [] t
     \<or> sg_id t \<notin> seen \<and> net \<in> set (sg_supported_networks t)
       \<and> (\<exists>pre s. reached net (insert (sg_id t) seen) ts pre s \<and> P (t # pre) s)"
  unfolding reached_Cons by blast

lemma validate_signers_Err:
  "validate_signers net seen ss = Err e \<longleftrightarrow> (\<exists>pre s. reached net seen ss pre s \<and>
     (if sg_id s \<in> seen \<union> sg_id ` set pre then e = DuplicateSigner (sg_id s)
      else net \<notin> set (sg_supported_networks s) \<and> e = SignerNetworkMismatch (sg_id s) net))"
proof (induction ss arbitrary: seen)
  case (Cons t ts)
  show ?case unfolding ex_reached_Cons validate_signers.simps Let_def
    using Cons.IH[of "insert (sg_id t) seen"] by auto
qed simp

lemma validate_signers_no_panic: "validate_signers net seen ss \<noteq> Panic"
  by (induction net seen ss rule: validate_signers.induct) (auto simp: Let_def)

lemma with_config_Ok:
  "with_config L now threshold ss net mode stype = Ok f \<longleftrightarrow>
     federation_ok L f \<and> fd_threshold f = threshold \<and> fd_signers f = ss \<and> fd_network f = net
     \<and> fd_key_mode f = mode \<and> fd_script_type f = stype \<and> fd_created_at f = now"
  by (cases f) (auto simp: with_config_def federation_ok_def result_simps Let_def split: prod.splits)

lemma contains_iff: "contains f sid \<longleftrightarrow> sid \<in> sg_id ` set (fd_signers f)"
  by (auto simp: contains_def find_signer_def find_None_iff)

text \<open>The three descriptor accessors agree: \<open>descriptor()\<close> panics exactly off Bitcoin.\<close>

lemma federation_accessors:
  assumes "federation_ok L f"
  shows "federation_descriptor f = Panic \<longleftrightarrow> \<not> is_bitcoin (fd_network f)"
    and "federation_descriptor f = Ok d \<longleftrightarrow> try_descriptor f = Some d"
    and "descriptor_with_checksum f = (case try_descriptor f of None \<Rightarrow> [] | Some d \<Rightarrow> desc_to_string L d)"
  using assms
  by (auto simp: federation_ok_def federation_descriptor_def try_descriptor_def descriptor_with_checksum_def
      result_simps split: if_splits)

section \<open>Histories\<close>

inductive federation_step :: "ms_lib \<Rightarrow> federation \<Rightarrow> federation \<Rightarrow> bool" for L where
  rotate: "rotate_signer L now f old new = Ok f' \<Longrightarrow> federation_step L f f'"
| add: "add_signer L now f new = Ok f' \<Longrightarrow> federation_step L f f'"
| remove: "remove_signer L now f sid = Ok f' \<Longrightarrow> federation_step L f f'"
| threshold: "change_threshold L now f m = Ok f' \<Longrightarrow> federation_step L f f'"

inductive_cases federation_stepE: "federation_step L f f'"

lemmas mutation_defs = rotate_signer_def add_signer_def remove_signer_def change_threshold_def

text \<open>Every mutation goes through \<open>with_config\<close> with the network and modes of the old
  federation.\<close>

lemma federation_step_config:
  assumes "federation_step L f f'"
  shows "\<exists>now threshold ss.
    with_config L now threshold ss (fd_network f) (fd_key_mode f) (fd_script_type f) = Ok f'"
  using assms by (cases rule: federation_step.cases) (auto simp: mutation_defs Let_def split: if_splits)

interpretation fed_history: transition_system "federation_step L" "federation_ok L"
    "\<lambda>f. (fd_network f, fd_key_mode f, fd_script_type f)" for L
  by unfold_locales (auto simp: with_config_Ok dest!: federation_step_config)

section \<open>The signer set\<close>

lemma roster_ok_mset: "mset ss = mset ts \<Longrightarrow> roster_ok m ss net \<longleftrightarrow> roster_ok m ts net"
  unfolding roster_ok_def list_all_iff
  by (metis mset_eq_imp_distinct_iff mset_eq_length mset_eq_setD mset_map)

lemma builder_start_wf: "bt_wf (db_entries (builder_script_type t (builder_key_mode k (builder_new m net))))"
  by (simp add: builder_script_type_def builder_key_mode_def builder_new_def)

lemma federation_descriptor_mset:
  assumes "mset ss = mset ts" "build_federation_descriptor L m ss net mode stype = Ok d"
  shows "build_federation_descriptor L m ts net mode stype = Ok d"
  using assms(2) add_signers_perm[OF builder_start_wf assms(1)]
  unfolding build_federation_descriptor_def Let_def by (fastforce simp: result_simps)

text \<open>A federation built again from a permutation of its signers.\<close>

lemma with_config_mset:
  assumes "federation_ok L f" "mset ss = mset (fd_signers f)"
  shows "with_config L now (fd_threshold f) ss (fd_network f) (fd_key_mode f) (fd_script_type f) =
    Ok (f\<lparr>fd_signers := ss, fd_created_at := now\<rparr>)"
  unfolding with_config_Ok
  using assms federation_descriptor_mset[OF assms(2)[symmetric]] roster_ok_mset[OF assms(2)]
  by (auto simp: federation_ok_def)

lemma federation_ok_ids: "federation_ok L f \<Longrightarrow> distinct (map sg_id (fd_signers f))"
  by (simp add: federation_ok_def roster_ok_def)

lemma rotate_Ok:
  "rotate_signer L now f old new = Ok f' \<longleftrightarrow> old \<in> sg_id ` set (fd_signers f)
     \<and> (sg_id new \<in> sg_id ` set (fd_signers f) \<longrightarrow> sg_id new = old)
     \<and> with_config L now (fd_threshold f) (map (\<lambda>s. if sg_id s = old then new else s) (fd_signers f))
         (fd_network f) (fd_key_mode f) (fd_script_type f) = Ok f'"
  by (auto simp: rotate_signer_def contains_iff Let_def)

lemma add_Ok:
  "add_signer L now f new = Ok f' \<longleftrightarrow> sg_id new \<notin> sg_id ` set (fd_signers f)
     \<and> with_config L now (fd_threshold f) (fd_signers f @ [new]) (fd_network f) (fd_key_mode f)
         (fd_script_type f) = Ok f'"
  by (auto simp: add_signer_def contains_iff Let_def)

lemma remove_Ok:
  "remove_signer L now f sid = Ok f' \<longleftrightarrow> sid \<in> sg_id ` set (fd_signers f)
     \<and> with_config L now (fd_threshold f) (filter (\<lambda>s. sg_id s \<noteq> sid) (fd_signers f)) (fd_network f)
         (fd_key_mode f) (fd_script_type f) = Ok f'"
  by (auto simp: remove_signer_def contains_iff Let_def)

section \<open>Properties\<close>

text \<open>A small federation for the witnesses.\<close>

definition demo_federation :: federation where
  "demo_federation =
     \<lparr>fd_threshold = 2, fd_signers = [demo_signer ''a'' 9, demo_signer ''b'' 1],
      fd_descriptor = Some (Wsh (SortedMulti 2 (map (\<lambda>s. wsh_key Fixed (snd (signer_entry s)))
        [demo_signer ''a'' 9, demo_signer ''b'' 1]))),
      fd_descriptor_string = ''wsh'', fd_network = Bitcoin Regtest, fd_key_mode = Fixed,
      fd_script_type = Script_Wsh, fd_created_at = 0\<rparr>"

lemmas federation_eval = demo_federation_def demo_lib_eval with_config_def validate_inputs_def
  build_federation_descriptor_def is_bitcoin_def builder_add_signer_def build_def build_wsh_def
  build_descriptor_key_def reject_duplicate_keys_def wsh_key_def signer_entry_def entry_origin_def
  nt_bitcoin_def dec_inject

lemma demo_federation_ok: "federation_ok demo_lib demo_federation"
  by (simp add: federation_ok_def roster_ok_def federation_eval)

text \<open>
C31: A federation is constructed exactly when the threshold is between 1 and the number of signers, there
are at least two and fewer than 2^32 signers, no two share an id, each supports the network, and, on
a Bitcoin network, the builder accepts them; it then carries its inputs unchanged and the descriptor
(with its text) that they build. Off Bitcoin it carries none.\<close>

theorem with_config_iff:
  "with_config L now threshold ss net mode stype = Ok f \<longleftrightarrow>
     0 < threshold \<and> unat threshold \<le> length ss \<and> 2 \<le> length ss \<and> length ss < 2 ^ 32
     \<and> distinct (map sg_id ss) \<and> list_all (\<lambda>s. net \<in> set (sg_supported_networks s)) ss
     \<and> (\<exists>desc. (if is_bitcoin net
                then \<exists>d. desc = Some d \<and> build_federation_descriptor L threshold ss net mode stype = Ok d
                else desc = None)
         \<and> f = \<lparr>fd_threshold = threshold, fd_signers = ss, fd_descriptor = desc,
                fd_descriptor_string = (case desc of None \<Rightarrow> [] | Some d \<Rightarrow> desc_to_string L d),
                fd_network = net, fd_key_mode = mode, fd_script_type = stype, fd_created_at = now\<rparr>)"
  unfolding with_config_Ok by (cases f) (auto simp: federation_ok_def roster_ok_def)

text \<open>
C32: What the validation of a roster answers, outcome by outcome, in the documented order. A zero
threshold is refused before anything else; then 2^32 signers or more panic, fewer than two are refused,
and a threshold above their number is. Only when all these passed are the signers looked at one by one,
and a refusal names the first that is at fault: a \<open>DuplicateSigner\<close> repeats the id of an
earlier one (whether or not it supports the network), a \<open>SignerNetworkMismatch\<close> is new but
lacks the network, and all before it are distinct and support it. Success means that all of them do.
Each line is exact: the outcome is given if and only if its condition holds.\<close>

theorem validate_inputs_errors:
  "validate_inputs threshold ss net = outcome \<longleftrightarrow>
   (case outcome of
      Err ZeroThreshold \<Rightarrow> threshold = 0
    | Panic \<Rightarrow> threshold \<noteq> 0 \<and> 2 ^ 32 \<le> length ss
    | Err (InsufficientSigners k) \<Rightarrow> threshold \<noteq> 0 \<and> length ss < 2 \<and> unat k = length ss
    | Err (ThresholdExceedsSignerCount t k) \<Rightarrow> t = threshold \<and> unat k = length ss
        \<and> 2 \<le> length ss \<and> length ss < unat threshold
    | Err (DuplicateSigner i) \<Rightarrow> counts_ok threshold ss
        \<and> (\<exists>pre s post. ss = pre @ s # post \<and> scanned net pre \<and> sg_id s = i \<and> i \<in> sg_id ` set pre)
    | Err (SignerNetworkMismatch i n) \<Rightarrow> n = net \<and> counts_ok threshold ss
        \<and> (\<exists>pre s post. ss = pre @ s # post \<and> scanned net pre \<and> sg_id s = i \<and> i \<notin> sg_id ` set pre
              \<and> net \<notin> set (sg_supported_networks s))
    | Ok _ \<Rightarrow> counts_ok threshold ss \<and> scanned net ss
    | Err _ \<Rightarrow> False)"
proof (cases "counts_ok threshold ss")
  case True
  then have loop: "validate_inputs threshold ss net = validate_signers net {} ss"
    by (auto simp: validate_inputs_def counts_ok_def)
  show ?thesis
  proof (cases outcome)
    case (Ok u)
    with True show ?thesis by (simp add: loop validate_signers_Ok[of net "{}"] scanned_def)
  next
    case (Err e)
    have "\<not> length ss < 2" "threshold \<noteq> 0" "\<not> length ss < unat threshold"
      using True by (auto simp: counts_ok_def)
    with True show ?thesis
      unfolding loop Err validate_signers_Err by (cases e) (auto simp: reached_def)
  next
    case Panic
    with True show ?thesis by (simp add: loop validate_signers_no_panic counts_ok_def)
  qed
next
  case False
  have n: "of_nat (length ss) = k \<longleftrightarrow> unat k = length ss" if "length ss < 2 ^ 32" for k :: u32
    using that by (auto simp: word_unat_eq_iff unat_of_nat take_bit_nat_eq_self)
  consider "threshold = 0" | "threshold \<noteq> 0" "2 ^ 32 \<le> length ss" | "threshold \<noteq> 0" "length ss < 2"
    | "threshold \<noteq> 0" "2 \<le> length ss" "length ss < 2 ^ 32" "length ss < unat threshold"
    using False unfolding counts_ok_def word_gt_0 by (metis not_le)
  then show ?thesis
  proof cases
    case 1 then show ?thesis using False
      by (auto simp: validate_inputs_def split: result.split federation_error.split)
  next
    case 2 then show ?thesis using False unsigned_less[of threshold, where 'a = nat]
      by (auto simp: validate_inputs_def split: result.split federation_error.split)
  next
    case 3 then show ?thesis using False n
      by (auto simp: validate_inputs_def split: result.split federation_error.split)
  next
    case 4 then show ?thesis using False n
      by (auto simp: validate_inputs_def split: result.split federation_error.split)
  qed
qed
text \<open>Along any history of mutations a federation stays in order: its threshold, its signer set and its
descriptor always agree, and its network, key mode and script type never change.\<close>

theorem federation_history:
  assumes "federation_ok L f" "(federation_step L)\<^sup>*\<^sup>* f f'"
  shows "federation_ok L f' \<and> fd_network f' = fd_network f \<and> fd_key_mode f' = fd_key_mode f
    \<and> fd_script_type f' = fd_script_type f"
  using fed_history.history_good[OF assms(2,1)] fed_history.history_fixed[OF assms(2,1)] by simp

text \<open>Rotating a signer out puts the new one exactly in its place: the number of signers and the threshold
stay, the ids change by one, and rotating back restores the federation (but for the time stamp).\<close>

theorem rotate_back:
  assumes "federation_ok L f" "s \<in> set (fd_signers f)" "rotate_signer L now f (sg_id s) new = Ok f'"
  shows "sg_id ` set (fd_signers f') = insert (sg_id new) (sg_id ` set (fd_signers f) - {sg_id s})
    \<and> length (fd_signers f') = length (fd_signers f) \<and> fd_threshold f' = fd_threshold f
    \<and> rotate_signer L now' f' (sg_id new) s = Ok (f\<lparr>fd_created_at := now'\<rparr>)"
proof -
  let ?swap = "\<lambda>r. if sg_id r = sg_id s then new else r"
  from assms(3) have f': "fd_signers f' = map ?swap (fd_signers f)" "fd_threshold f' = fd_threshold f"
      "fd_network f' = fd_network f" "fd_key_mode f' = fd_key_mode f" "fd_script_type f' = fd_script_type f"
    and fresh: "sg_id new \<in> sg_id ` set (fd_signers f) \<Longrightarrow> sg_id new = sg_id s"
    by (auto simp: rotate_Ok with_config_Ok)
  have one: "r = s" if "r \<in> set (fd_signers f)" "sg_id r = sg_id s" for r
    using that assms(2) federation_ok_ids[OF assms(1)] by (auto simp: distinct_map inj_on_def)
  have other: "r = s" if "r \<in> set (fd_signers f)" "sg_id r = sg_id new" for r
    using that fresh one by (metis imageI)
  have swapped: "map (\<lambda>r. if sg_id r = sg_id new then s else r) (fd_signers f') = fd_signers f"
    unfolding f' map_map by (rule map_idI) (use other one in auto)
  have "sg_id ` set (fd_signers f') = insert (sg_id new) (sg_id ` set (fd_signers f) - {sg_id s})"
    unfolding f' using assms(2) by (auto simp: image_iff)
  moreover have "rotate_signer L now' f' (sg_id new) s = Ok (f\<lparr>fd_created_at := now'\<rparr>)"
    unfolding rotate_Ok swapped
    using with_config_mset[OF assms(1), of "fd_signers f" now'] assms(2) fresh by (auto simp: f' image_iff)
  ultimately show ?thesis using f' by simp
qed

text \<open>Adding a signer and removing it again restores the federation (but for the time stamp), and so the
descriptor and the address; the removal never fails.\<close>

theorem add_then_remove:
  assumes "federation_ok L f" "add_signer L now f s = Ok f'"
  shows "remove_signer L now' f' (sg_id s) = Ok (f\<lparr>fd_created_at := now'\<rparr>)"
proof -
  from assms(2) have f': "fd_signers f' = fd_signers f @ [s]" "fd_threshold f' = fd_threshold f"
      "fd_network f' = fd_network f" "fd_key_mode f' = fd_key_mode f" "fd_script_type f' = fd_script_type f"
    and fresh: "sg_id s \<notin> sg_id ` set (fd_signers f)"
    by (auto simp: add_Ok with_config_Ok)
  have "filter (\<lambda>r. sg_id r \<noteq> sg_id s) (fd_signers f') = fd_signers f"
    using fresh by (auto simp: f' filter_id_conv image_iff)
  then show ?thesis
    using with_config_mset[OF assms(1), of "fd_signers f" now'] by (simp add: remove_Ok f')
qed

text \<open>
C33: The descriptor depends on the set of signers and not on the order they are listed in: the same
signers in any other order make the same federation, signer list aside.\<close>

theorem federation_order_insensitive:
  assumes "federation_ok L f" "mset ss = mset (fd_signers f)"
  shows "with_config L now (fd_threshold f) ss (fd_network f) (fd_key_mode f) (fd_script_type f) =
    Ok (f\<lparr>fd_signers := ss, fd_created_at := now\<rparr>)"
  by (rule with_config_mset[OF assms])

text \<open>Witnesses.\<close>

lemma demo_with_config:
  "with_config demo_lib 0 2 [demo_signer ''a'' 9, demo_signer ''b'' 1] (Bitcoin Regtest) Fixed Script_Wsh = Ok demo_federation"
  using demo_federation_ok unfolding with_config_Ok by (simp add: demo_federation_def)

lemma demo_add: "\<exists>f'. add_signer demo_lib 5 demo_federation (demo_signer ''c'' 4) = Ok f'"
  unfolding add_signer_def by (simp add: contains_iff federation_eval)

lemma demo_rotate: "\<exists>f'. rotate_signer demo_lib 5 demo_federation (sg_id (demo_signer ''a'' 9)) (demo_signer ''c'' 4) = Ok f'"
  unfolding rotate_signer_def by (simp add: contains_iff federation_eval)

theorem federation_history_witness:
  "\<exists>f'. (federation_step demo_lib)\<^sup>*\<^sup>* demo_federation f' \<and> federation_ok demo_lib f'
     \<and> length (fd_signers f') = 3"
proof -
  obtain f' where f': "add_signer demo_lib 5 demo_federation (demo_signer ''c'' 4) = Ok f'"
    using demo_add by blast
  then have step: "(federation_step demo_lib)\<^sup>*\<^sup>* demo_federation f'"
    by (intro r_into_rtranclp federation_step.add)
  have "length (fd_signers f') = 3" using f' by (auto simp: add_Ok with_config_Ok demo_federation_def)
  with federation_history[OF demo_federation_ok step] step show ?thesis by blast
qed

theorem rotate_back_witness:
  "\<exists>f'. sg_id ` set (fd_signers f') = {SignerId ''b'', SignerId ''c''}
     \<and> rotate_signer demo_lib 7 f' (SignerId ''c'') (demo_signer ''a'' 9) = Ok (demo_federation\<lparr>fd_created_at := 7\<rparr>)"
proof -
  obtain f' where f': "rotate_signer demo_lib 5 demo_federation (sg_id (demo_signer ''a'' 9)) (demo_signer ''c'' 4) = Ok f'"
    using demo_rotate by blast
  have "demo_signer ''a'' 9 \<in> set (fd_signers demo_federation)" by (simp add: demo_federation_def)
  from rotate_back[OF demo_federation_ok this f', of 7] show ?thesis
    by (intro exI[of _ f']) (auto simp: demo_federation_def demo_signer_def)
qed

theorem add_then_remove_witness:
  "\<exists>f'. remove_signer demo_lib 7 f' (SignerId ''c'') = Ok (demo_federation\<lparr>fd_created_at := 7\<rparr>)"
proof -
  obtain f' where "add_signer demo_lib 5 demo_federation (demo_signer ''c'' 4) = Ok f'"
    using demo_add by blast
  from add_then_remove[OF demo_federation_ok this, of 7] show ?thesis
    by (intro exI[of _ f']) (simp add: demo_signer_def)
qed

theorem federation_order_insensitive_witness:
  "\<exists>f. with_config demo_lib 3 2 [demo_signer ''b'' 1, demo_signer ''a'' 9] (Bitcoin Regtest) Fixed Script_Wsh = Ok f
     \<and> fd_descriptor f = fd_descriptor demo_federation"
proof -
  have "mset [demo_signer ''b'' 1, demo_signer ''a'' 9] = mset (fd_signers demo_federation)"
    by (simp add: demo_federation_def)
  from federation_order_insensitive[OF demo_federation_ok this, of 3] show ?thesis
    by (simp add: demo_federation_def)
qed

theorem validate_inputs_errors_witness:
  "validate_inputs 2 [demo_signer ''a'' 9, demo_signer ''b'' 1, demo_signer ''a'' 4, demo_signer ''b'' 5] (Bitcoin Regtest) =
     Err (DuplicateSigner (SignerId ''a''))"
proof -
  let ?ss = "[demo_signer ''a'' 9, demo_signer ''b'' 1, demo_signer ''a'' 4, demo_signer ''b'' 5]"
  have "counts_ok 2 ?ss" by (simp add: counts_ok_def)
  moreover have "scanned (Bitcoin Regtest) [demo_signer ''a'' 9, demo_signer ''b'' 1]"
    by (simp add: scanned_def demo_signer_def)
  ultimately show ?thesis
    unfolding validate_inputs_errors result.case federation_error.case
    by (intro conjI exI[of _ "[demo_signer ''a'' 9, demo_signer ''b'' 1]"] exI[of _ "demo_signer ''a'' 4"]
          exI[of _ "[demo_signer ''b'' 5]"]) (simp_all add: demo_signer_def)
qed

end
