(* ===== verification/Psbt.thy ===== *)
theory Psbt
  imports Federation
begin

text \<open>
  \<open>src/psbt.rs\<close>: the signing pipeline. The coordinator owns the PSBT in flight and the set of
  signers seen to have signed. BDK's wallet (signing, finalizing, building) and the bitcoin crate's
  PSBT operations are the argument \<open>P\<close>; an operation that takes \<open>&mut Psbt\<close> returns
  the PSBT it leaves behind together with its result.
\<close>

record ('w, 'o) psbt_lib =
  compute_txid :: "transaction \<Rightarrow> word256"
  serialize_tx :: "transaction \<Rightarrow> bytes"
  combine :: "psbt \<Rightarrow> psbt \<Rightarrow> psbt \<times> (unit, string) result"
  extract_tx :: "psbt \<Rightarrow> (transaction, string) result"
  wallet_sign :: "'w \<Rightarrow> 'o \<Rightarrow> psbt \<Rightarrow> psbt \<times> (bool, string) result"
  wallet_finalize :: "'w \<Rightarrow> 'o \<Rightarrow> psbt \<Rightarrow> psbt \<times> (bool, string) result"
  wallet_build_tx :: "'w \<Rightarrow> script \<Rightarrow> amount \<Rightarrow> fee_rate \<Rightarrow> 'w \<times> (psbt, string) result"
  default_options :: 'o

section \<open>The newtypes\<close>

definition unsigned_psbt_new :: "psbt \<Rightarrow> (unsigned_psbt, psbt_error) result" where
  "unsigned_psbt_new p =
     (let total_sigs = sum_list (map (\<lambda>i. length (partial_sigs i)) (inputs p))
      in if total_sigs \<noteq> 0 then Err (UnexpectedSignatures total_sigs) else Ok (UnsignedPsbt p))"

record finalized_psbt =
  fp_psbt :: psbt
  fp_transaction :: transaction

definition finalized_txid :: "('w, 'o) psbt_lib \<Rightarrow> finalized_psbt \<Rightarrow> word256" where
  "finalized_txid P fin = compute_txid P (fp_transaction fin)"

definition finalized_serialize :: "('w, 'o) psbt_lib \<Rightarrow> finalized_psbt \<Rightarrow> bytes" where
  "finalized_serialize P fin = serialize_tx P (fp_transaction fin)"

section \<open>Primitives\<close>

definition build_spend :: "('w, 'o) psbt_lib \<Rightarrow> 'w \<Rightarrow> script \<Rightarrow> amount \<Rightarrow> fee_rate \<Rightarrow> 'w \<times> (psbt, psbt_error) result" where
  "build_spend P w recipient amount rate =
     (case wallet_build_tx P w recipient amount rate of (w', r) \<Rightarrow> (w', map_err BuildFailed r))"

definition combine_psbt :: "('w, 'o) psbt_lib \<Rightarrow> psbt \<Rightarrow> psbt \<Rightarrow> (psbt, psbt_error) result" where
  "combine_psbt P base partial =
     (case combine P base partial of (base', r) \<Rightarrow> and_then (map_err Pe_Bitcoin r) (\<lambda>_. Ok base'))"

definition finalize_and_extract :: "('w, 'o) psbt_lib \<Rightarrow> 'w \<Rightarrow> psbt \<Rightarrow> (transaction \<times> word256, psbt_error) result" where
  "finalize_and_extract P w p =
     (case wallet_finalize P w (default_options P) p of (p', r) \<Rightarrow>
        and_then (map_err FinalizationFailed r) (\<lambda>finalized.
        if \<not> finalized then Err ThresholdNotMet
        else and_then (map_err ExtractFailed (extract_tx P p')) (\<lambda>transaction.
        let txid = compute_txid P transaction in Ok (transaction, txid))))"

section \<open>Who has signed\<close>

text \<open>The map from fingerprints to ids; a later signer overwrites an earlier one with the same
  fingerprint.\<close>

definition fp_to_id :: "federation \<Rightarrow> fingerprint \<Rightarrow> signer_id option" where
  "fp_to_id f = map_of (rev (map (\<lambda>s. (sg_fingerprint s, sg_id s)) (fd_signers f)))"

definition wsh_contributors :: "(fingerprint \<Rightarrow> signer_id option) \<Rightarrow> psbt_input \<Rightarrow> signer_id list" where
  "wsh_contributors ids i = List.map_filter (\<lambda>(_, fp, _).
     case ids fp of None \<Rightarrow> None
     | Some sid \<Rightarrow>
         if list_ex (\<lambda>(pk, _). case map_of (bip32_derivation i) (inner pk) of
                        None \<Rightarrow> False | Some (f, _) \<Rightarrow> f = fp) (partial_sigs i)
         then Some sid else None) (bip32_derivation i)"

definition tap_contributors :: "(fingerprint \<Rightarrow> signer_id option) \<Rightarrow> psbt_input \<Rightarrow> signer_id list" where
  "tap_contributors ids i = List.map_filter (\<lambda>(_, _, fp, _).
     case ids fp of None \<Rightarrow> None
     | Some sid \<Rightarrow> if tap_script_sigs i \<noteq> [] \<or> tap_key_sig i \<noteq> None then Some sid else None) (tap_key_origins i)"

definition signers_with_sigs :: "psbt \<Rightarrow> federation \<Rightarrow> signer_id set" where
  "signers_with_sigs p f =
     set (concat (map (\<lambda>i. wsh_contributors (fp_to_id f) i @ tap_contributors (fp_to_id f) i) (inputs p)))"

section \<open>The coordinator\<close>

record signing_request =
  rq_signer_id :: signer_id
  rq_fingerprint :: fingerprint
  rq_psbt :: psbt

record external_signing =
  ex_request :: signing_request
  ex_instructions :: "string option"

datatype signing_action = Direct | External_Action external_signing

record coordinator =
  co_federation :: federation
  co_psbt :: psbt
  co_signed :: "signer_id set"

definition coordinator_new :: "federation \<Rightarrow> unsigned_psbt \<Rightarrow> coordinator" where
  "coordinator_new f p = \<lparr>co_federation = f, co_psbt = into_psbt p, co_signed = {}\<rparr>"

definition signatures_collected :: "coordinator \<Rightarrow> nat" where
  "signatures_collected co = card (co_signed co)"

definition is_complete :: "coordinator \<Rightarrow> (bool, psbt_error) result" where
  "is_complete co =
     (let n = signatures_collected co in
      if n < 2 ^ 32 then Ok (fd_threshold (co_federation co) \<le> (of_nat n :: u32)) else Panic)"

definition signing_action_for :: "psbt \<Rightarrow> signer \<Rightarrow> signer_id \<times> signing_action" where
  "signing_action_for p s =
     (let sid = sg_id s in
      (sid, case sg_signer_type s of
         Software \<Rightarrow> Direct
       | External \<Rightarrow> External_Action
           \<lparr>ex_request = \<lparr>rq_signer_id = sid, rq_fingerprint = sg_fingerprint s, rq_psbt = p\<rparr>,
            ex_instructions = map_option (\<lambda>l.
              ''Hand the PSBT to '' @ l @ '' for signing on the connected hardware wallet.'') (sg_label s)\<rparr>))"

definition request_signatures :: "('w, 'o) psbt_lib \<Rightarrow> 'w \<Rightarrow> 'o \<Rightarrow> coordinator \<Rightarrow>
    coordinator \<times> ((signer_id \<times> signing_action) list, psbt_error) result" where
  "request_signatures P w opts co =
     (case wallet_sign P w opts (co_psbt co) of (p, r) \<Rightarrow>
        let co' = co\<lparr>co_psbt := p\<rparr> in
        case r of
          Err e \<Rightarrow> (co', Err (BdkSigner e))
        | Panic \<Rightarrow> (co', Panic)
        | Ok _ \<Rightarrow>
            let signed = signers_with_sigs p (co_federation co);
                co'' = co'\<lparr>co_signed := co_signed co \<union> signed\<rparr>
            in (co'', Ok (map (signing_action_for p) (fd_signers (co_federation co)))))"

text \<open>Whether the signer with fingerprint \<open>fp\<close> owns the key \<open>pk\<close> on an input.\<close>

definition fp_matches :: "fingerprint \<Rightarrow> psbt_input \<Rightarrow> btc_public_key \<Rightarrow> bool" where
  "fp_matches fp i pk \<longleftrightarrow>
     list_ex (\<lambda>(k, f, _). f = fp \<and> k = inner pk) (bip32_derivation i) \<or>
     list_ex (\<lambda>(k, _, f, _). f = fp \<and> k = fst (x_only_public_key (inner pk))) (tap_key_origins i)"

definition has_new_signature :: "fingerprint \<Rightarrow> psbt \<Rightarrow> psbt \<Rightarrow> bool" where
  "has_new_signature fp old merged \<longleftrightarrow>
     list_ex (\<lambda>(idx, i). list_ex (\<lambda>(pk, _). fp_matches fp i pk \<and>
         \<not> (idx < length (inputs old) \<and> pk \<in> fst ` set (partial_sigs (inputs old ! idx)))) (partial_sigs i))
       (List.enumerate 0 (inputs merged))"

definition receive_signature :: "('w, 'o) psbt_lib \<Rightarrow> coordinator \<Rightarrow> signer_id \<Rightarrow> psbt \<Rightarrow>
    coordinator \<times> (unit, psbt_error) result" where
  "receive_signature P co sid signed_psbt =
     (case find_signer (co_federation co) sid of
        None \<Rightarrow> (co, Err (UnknownSigner sid))
      | Some s \<Rightarrow>
          let fp = sg_fingerprint s in
          if compute_txid P (unsigned_tx signed_psbt) \<noteq> compute_txid P (unsigned_tx (co_psbt co))
          then (co, Err (DescriptorMismatch
            ''returned PSBT does not match this signing session's unsigned transaction''))
          else case combine P (co_psbt co) signed_psbt of (merged, r) \<Rightarrow>
            case r of
              Err e \<Rightarrow> (co, Err (Pe_Bitcoin e))
            | Panic \<Rightarrow> (co, Panic)
            | Ok _ \<Rightarrow>
                if \<not> has_new_signature fp (co_psbt co) merged
                then (co, Err (InvalidSignature sid
                  ''no new partial signature attributable to this signer was present in the returned PSBT''))
                else (co\<lparr>co_psbt := merged, co_signed := insert sid (co_signed co)\<rparr>, Ok ()))"

definition finalize :: "('w, 'o) psbt_lib \<Rightarrow> 'w \<Rightarrow> 'o \<Rightarrow> coordinator \<Rightarrow> (finalized_psbt, psbt_error) result" where
  "finalize P w opts co =
     and_then (is_complete co) (\<lambda>complete.
     if \<not> complete
     then Err (InsufficientSignatures (signatures_collected co) (unat (fd_threshold (co_federation co))))
     else case wallet_finalize P w opts (co_psbt co) of (p, r) \<Rightarrow>
       and_then (map_err FinalizationFailed r) (\<lambda>finalized.
       if \<not> finalized then Err (FinalizationFailed ''BDK reported the PSBT could not be finalized'')
       else and_then (map_err FinalizationFailed (extract_tx P p)) (\<lambda>transaction.
       Ok \<lparr>fp_psbt = p, fp_transaction = transaction\<rparr>)))"

section \<open>Sessions\<close>

text \<open>A step of a session: a signing round, whatever its outcome, or an answer from an external
  signer, accepted or refused.\<close>

inductive session_step :: "('w, 'o) psbt_lib \<Rightarrow> coordinator \<Rightarrow> coordinator \<Rightarrow> bool" for P where
  round: "request_signatures P w opts co = (co', r) \<Longrightarrow> session_step P co co'"
| answer: "receive_signature P co sid p = (co', r) \<Longrightarrow> session_step P co co'"

inductive_cases session_stepE: "session_step P co co'"

text \<open>What signing and combining are documented to do: neither touches the unsigned transaction.\<close>

definition psbt_lib_ok :: "('w, 'o) psbt_lib \<Rightarrow> bool" where
  "psbt_lib_ok P \<longleftrightarrow> (\<forall>w opts p. unsigned_tx (fst (wallet_sign P w opts p)) = unsigned_tx p)
     \<and> (\<forall>p q r. combine P p q = (r, Ok ()) \<longrightarrow> unsigned_tx r = unsigned_tx p)"

text \<open>A step may also keep every signature and key origin on every input. Signing without finalizing
  does, and so does combining PSBTs that do not contradict each other; a wallet that finalizes an
  input clears them, and an answer may overwrite the key origins of others.\<close>

definition input_grows :: "psbt_input \<Rightarrow> psbt_input \<Rightarrow> bool" where
  "input_grows i j \<longleftrightarrow> fst ` set (partial_sigs i) \<subseteq> fst ` set (partial_sigs j)
     \<and> set (bip32_derivation i) \<subseteq> set (bip32_derivation j)
     \<and> set (tap_key_origins i) \<subseteq> set (tap_key_origins j)
     \<and> (tap_script_sigs i \<noteq> [] \<longrightarrow> tap_script_sigs j \<noteq> []) \<and> (tap_key_sig i \<noteq> None \<longrightarrow> tap_key_sig j \<noteq> None)"

definition psbt_grows :: "psbt \<Rightarrow> psbt \<Rightarrow> bool" where
  "psbt_grows p q \<longleftrightarrow> unsigned_tx q = unsigned_tx p \<and> list_all2 input_grows (inputs p) (inputs q)"

definition keeping_step :: "('w, 'o) psbt_lib \<Rightarrow> coordinator \<Rightarrow> coordinator \<Rightarrow> bool" where
  "keeping_step P co co' \<longleftrightarrow> session_step P co co' \<and> psbt_grows (co_psbt co) (co_psbt co')"

text \<open>A signature that points to a signer's fingerprint: on some input, a partial signature by a key
  whose origin is that fingerprint, or, for taproot, such an origin next to any tap signature.\<close>

definition input_evidence :: "psbt_input \<Rightarrow> fingerprint \<Rightarrow> bool" where
  "input_evidence i fp \<longleftrightarrow> (\<exists>(pk, _) \<in> set (partial_sigs i). fp_matches fp i pk) \<or>
     ((\<exists>(_, _, f, _) \<in> set (tap_key_origins i). f = fp) \<and> (tap_script_sigs i \<noteq> [] \<or> tap_key_sig i \<noteq> None))"

definition evidence :: "psbt \<Rightarrow> fingerprint \<Rightarrow> bool" where
  "evidence p fp \<longleftrightarrow> (\<exists>i \<in> set (inputs p). input_evidence i fp)"

definition signed_members :: "coordinator \<Rightarrow> bool" where
  "signed_members co \<longleftrightarrow> co_signed co \<subseteq> sg_id ` set (fd_signers (co_federation co))"

definition session_ok :: "coordinator \<Rightarrow> bool" where
  "session_ok co \<longleftrightarrow> (\<forall>sid \<in> co_signed co.
     \<exists>s \<in> set (fd_signers (co_federation co)). sg_id s = sid \<and> evidence (co_psbt co) (sg_fingerprint s))"

lemma fp_matches_iff: "fp_matches fp i pk \<longleftrightarrow> (\<exists>path. (inner pk, fp, path) \<in> set (bip32_derivation i)) \<or>
    (\<exists>lh path. (pk_x (inner pk), lh, fp, path) \<in> set (tap_key_origins i))"
  unfolding fp_matches_def list_ex_iff x_only_public_key_def by auto

lemma input_evidence_wsh: "(pk, sig) \<in> set (partial_sigs i) \<Longrightarrow> fp_matches fp i pk \<Longrightarrow> input_evidence i fp"
  by (auto simp: input_evidence_def)

lemma input_evidence_tap: "(k, lh, fp, path) \<in> set (tap_key_origins i) \<Longrightarrow>
    tap_script_sigs i \<noteq> [] \<or> tap_key_sig i \<noteq> None \<Longrightarrow> input_evidence i fp"
  by (force simp: input_evidence_def)

lemma input_evidence_grows:
  assumes "input_grows i j" "input_evidence i fp"
  shows "input_evidence j fp"
proof -
  from assms(1) have g: "fst ` set (partial_sigs i) \<subseteq> fst ` set (partial_sigs j)"
      "set (bip32_derivation i) \<subseteq> set (bip32_derivation j)" "set (tap_key_origins i) \<subseteq> set (tap_key_origins j)"
      "tap_script_sigs i \<noteq> [] \<Longrightarrow> tap_script_sigs j \<noteq> []" "tap_key_sig i \<noteq> None \<Longrightarrow> tap_key_sig j \<noteq> None"
    by (simp_all add: input_grows_def)
  from assms(2) consider pk sig where "(pk, sig) \<in> set (partial_sigs i)" "fp_matches fp i pk"
    | k lh path where "(k, lh, fp, path) \<in> set (tap_key_origins i)" "tap_script_sigs i \<noteq> [] \<or> tap_key_sig i \<noteq> None"
    by (auto simp: input_evidence_def)
  then show ?thesis
  proof cases
    case (1 pk sig)
    from imageI[OF 1(1), of fst] g(1) obtain sig' where "(pk, sig') \<in> set (partial_sigs j)"
      by auto
    moreover from 1(2) g(2,3) have "fp_matches fp j pk"
      by (auto simp: fp_matches_iff dest: subsetD)
    ultimately show ?thesis by (rule input_evidence_wsh)
  next
    case (2 k lh path)
    from subsetD[OF g(3) 2(1)] 2(2) g(4,5) show ?thesis by (intro input_evidence_tap) auto
  qed
qed

lemma evidence_grows:
  assumes "psbt_grows p q" "evidence p fp"
  shows "evidence q fp"
proof -
  from assms(2) obtain n where "n < length (inputs p)" "input_evidence (inputs p ! n) fp"
    by (auto simp: evidence_def in_set_conv_nth)
  moreover from this assms(1) have "n < length (inputs q)" "input_grows (inputs p ! n) (inputs q ! n)"
    by (auto simp: psbt_grows_def list_all2_conv_all_nth)
  ultimately show ?thesis
    unfolding evidence_def by (meson input_evidence_grows nth_mem)
qed

lemma fp_to_id_Some: "fp_to_id f fp = Some sid \<Longrightarrow> \<exists>s \<in> set (fd_signers f). sg_fingerprint s = fp \<and> sg_id s = sid"
  unfolding fp_to_id_def by (drule map_of_SomeD) auto

lemma set_map_filter: "x \<in> set (List.map_filter f xs) \<longleftrightarrow> (\<exists>y \<in> set xs. f y = Some x)"
  by (induction xs) (auto simp: List.map_filter_def split: option.splits)

lemma wsh_contributors_evidence:
  assumes "sid \<in> set (wsh_contributors ids i)"
  shows "\<exists>fp. ids fp = Some sid \<and> input_evidence i fp"
proof -
  from assms obtain k fp path where "ids fp = Some sid"
      and "list_ex (\<lambda>(pk, _). case map_of (bip32_derivation i) (inner pk) of
             None \<Rightarrow> False | Some (f, _) \<Rightarrow> f = fp) (partial_sigs i)"
    unfolding wsh_contributors_def set_map_filter by (force split: option.splits if_splits)
  then obtain pk sig path' where "ids fp = Some sid" "(pk, sig) \<in> set (partial_sigs i)"
      "map_of (bip32_derivation i) (inner pk) = Some (fp, path')"
    unfolding list_ex_iff by (force split: option.splits)
  then show ?thesis
    by (metis fp_matches_iff input_evidence_wsh map_of_SomeD)
qed

lemma tap_contributors_iff:
  "sid \<in> set (tap_contributors ids i) \<longleftrightarrow> (tap_script_sigs i \<noteq> [] \<or> tap_key_sig i \<noteq> None) \<and>
     (\<exists>k lh fp path. (k, lh, fp, path) \<in> set (tap_key_origins i) \<and> ids fp = Some sid)"
  unfolding tap_contributors_def set_map_filter by (force split: option.splits if_splits)

lemma signers_with_sigs_evidence:
  assumes "sid \<in> signers_with_sigs p f"
  shows "\<exists>s \<in> set (fd_signers f). sg_id s = sid \<and> evidence p (sg_fingerprint s)"
proof -
  from assms obtain i where i: "i \<in> set (inputs p)"
    and "sid \<in> set (wsh_contributors (fp_to_id f) i) \<or> sid \<in> set (tap_contributors (fp_to_id f) i)"
    by (auto simp: signers_with_sigs_def)
  then obtain fp where "fp_to_id f fp = Some sid" "input_evidence i fp"
    using wsh_contributors_evidence[of sid "fp_to_id f" i] input_evidence_tap
    unfolding tap_contributors_iff by blast
  with i fp_to_id_Some show ?thesis unfolding evidence_def by metis
qed

lemma signers_with_sigs_members: "signers_with_sigs p f \<subseteq> sg_id ` set (fd_signers f)"
  using signers_with_sigs_evidence by fast

lemma new_signature_evidence: "has_new_signature fp old merged \<Longrightarrow> evidence merged fp"
  unfolding has_new_signature_def evidence_def list_ex_iff
  by (auto simp: in_set_enumerate_eq intro!: bexI[OF _ nth_mem] intro: input_evidence_wsh)

lemma has_new_signature_iff:
  "has_new_signature fp old merged \<longleftrightarrow> (\<exists>n pk sig. n < length (inputs merged)
      \<and> (pk, sig) \<in> set (partial_sigs (inputs merged ! n)) \<and> fp_matches fp (inputs merged ! n) pk
      \<and> \<not> (n < length (inputs old) \<and> pk \<in> fst ` set (partial_sigs (inputs old ! n))))"
proof -
  have idx: "(\<exists>x \<in> set (List.enumerate 0 xs). Q (fst x) (snd x)) \<longleftrightarrow> (\<exists>n < length xs. Q n (xs ! n))"
    for Q and xs :: "psbt_input list"
    by (auto simp: Bex_def in_set_enumerate_eq)
  have "has_new_signature fp old merged \<longleftrightarrow> (\<exists>n < length (inputs merged). \<exists>x \<in> set (partial_sigs (inputs merged ! n)).
      fp_matches fp (inputs merged ! n) (fst x) \<and>
      \<not> (n < length (inputs old) \<and> fst x \<in> fst ` set (partial_sigs (inputs old ! n))))"
    unfolding has_new_signature_def list_ex_iff case_prod_beta
    by (rule idx[where Q = "\<lambda>n i. \<exists>x \<in> set (partial_sigs i). fp_matches fp i (fst x) \<and>
      \<not> (n < length (inputs old) \<and> fst x \<in> fst ` set (partial_sigs (inputs old ! n)))"])
  then show ?thesis by (simp add: Bex_def)
qed

section \<open>The invariant of a session\<close>

lemma session_ok_grows:
  assumes "session_ok co" "psbt_grows (co_psbt co) p"
  shows "session_ok (co\<lparr>co_psbt := p\<rparr>)"
  using assms evidence_grows[OF assms(2)] unfolding session_ok_def by fastforce

lemma round_cases:
  assumes "request_signatures P w opts co = (co', r)"
  obtains p where "p = fst (wallet_sign P w opts (co_psbt co))"
    and "co' = co\<lparr>co_psbt := p\<rparr>
       \<or> co' = co\<lparr>co_psbt := p, co_signed := co_signed co \<union> signers_with_sigs p (co_federation co)\<rparr>"
proof (rule that[OF refl])
  obtain p r' where sign: "wallet_sign P w opts (co_psbt co) = (p, r')" by fastforce
  show "co' = co\<lparr>co_psbt := fst (wallet_sign P w opts (co_psbt co))\<rparr> \<or>
      co' = co\<lparr>co_psbt := fst (wallet_sign P w opts (co_psbt co)),
        co_signed := co_signed co \<union> signers_with_sigs (fst (wallet_sign P w opts (co_psbt co))) (co_federation co)\<rparr>"
    using assms by (cases r') (auto simp: request_signatures_def Let_def sign)
qed

lemma round_members:
  assumes "psbt_lib_ok P" "signed_members co" "request_signatures P w opts co = (co', r)"
  shows "signed_members co' \<and> co_federation co' = co_federation co \<and> unsigned_tx (co_psbt co') = unsigned_tx (co_psbt co)"
proof -
  obtain p where p: "p = fst (wallet_sign P w opts (co_psbt co))"
    and co': "co' = co\<lparr>co_psbt := p\<rparr>
       \<or> co' = co\<lparr>co_psbt := p, co_signed := co_signed co \<union> signers_with_sigs p (co_federation co)\<rparr>"
    using round_cases[OF assms(3)] by blast
  have "unsigned_tx p = unsigned_tx (co_psbt co)" using assms(1) by (simp add: psbt_lib_ok_def p)
  with co' assms(2) signers_with_sigs_members[of p "co_federation co"] show ?thesis
    by (elim disjE) (simp_all add: signed_members_def)
qed

lemma round_evidence:
  assumes "session_ok co" "request_signatures P w opts co = (co', r)" "psbt_grows (co_psbt co) (co_psbt co')"
  shows "session_ok co'"
proof -
  obtain p where co': "co' = co\<lparr>co_psbt := p\<rparr>
       \<or> co' = co\<lparr>co_psbt := p, co_signed := co_signed co \<union> signers_with_sigs p (co_federation co)\<rparr>"
    using round_cases[OF assms(2)] by blast
  with assms(3) have "psbt_grows (co_psbt co) p" by auto
  from session_ok_grows[OF assms(1) this] co' show ?thesis
    using signers_with_sigs_evidence[of _ p "co_federation co"] by (auto simp: session_ok_def)
qed

lemma receive_cases:
  "receive_signature P co sid q = (co', r) \<longleftrightarrow>
     (case find_signer (co_federation co) sid of
        None \<Rightarrow> co' = co \<and> r = Err (UnknownSigner sid)
      | Some s \<Rightarrow>
          if compute_txid P (unsigned_tx q) \<noteq> compute_txid P (unsigned_tx (co_psbt co))
          then co' = co \<and> r = Err (DescriptorMismatch ''returned PSBT does not match this signing session's unsigned transaction'')
          else (case combine P (co_psbt co) q of
              (_, Err e) \<Rightarrow> co' = co \<and> r = Err (Pe_Bitcoin e)
            | (_, Panic) \<Rightarrow> co' = co \<and> r = Panic
            | (merged, Ok _) \<Rightarrow>
                if has_new_signature (sg_fingerprint s) (co_psbt co) merged
                then co' = co\<lparr>co_psbt := merged, co_signed := insert sid (co_signed co)\<rparr> \<and> r = Ok ()
                else co' = co \<and> r = Err (InvalidSignature sid
                  ''no new partial signature attributable to this signer was present in the returned PSBT'')))"
  by (auto simp: receive_signature_def Let_def split: option.split prod.split result.split)

lemma find_signer_Some: "find_signer f sid = Some s \<Longrightarrow> s \<in> set (fd_signers f) \<and> sg_id s = sid"
  unfolding find_signer_def by (rule find_Some_iff)

lemma receive_Ok:
  "receive_signature P co sid q = (co', Ok ()) \<longleftrightarrow>
     (\<exists>s merged. find_signer (co_federation co) sid = Some s
       \<and> compute_txid P (unsigned_tx q) = compute_txid P (unsigned_tx (co_psbt co))
       \<and> combine P (co_psbt co) q = (merged, Ok ()) \<and> has_new_signature (sg_fingerprint s) (co_psbt co) merged
       \<and> co' = co\<lparr>co_psbt := merged, co_signed := insert sid (co_signed co)\<rparr>)"
  unfolding receive_cases by (auto split: option.splits prod.splits result.splits)

lemma receive_error: "receive_signature P co sid q = (co', r) \<Longrightarrow> r \<noteq> Ok () \<Longrightarrow> co' = co"
  unfolding receive_cases by (auto split: option.splits prod.splits result.splits if_splits)

lemma answer_members:
  assumes "psbt_lib_ok P" "signed_members co" "receive_signature P co sid q = (co', r)"
  shows "signed_members co' \<and> co_federation co' = co_federation co \<and> unsigned_tx (co_psbt co') = unsigned_tx (co_psbt co)"
proof (cases "r = Ok ()")
  case True
  then obtain s merged where s: "find_signer (co_federation co) sid = Some s"
      and "combine P (co_psbt co) q = (merged, Ok ())"
      and co': "co' = co\<lparr>co_psbt := merged, co_signed := insert sid (co_signed co)\<rparr>"
    using assms(3)[unfolded True receive_Ok] by blast
  moreover from find_signer_Some[OF s] have "sid \<in> sg_id ` set (fd_signers (co_federation co))" by blast
  ultimately show ?thesis using assms(1,2) by (simp add: signed_members_def psbt_lib_ok_def)
qed (use receive_error[OF assms(3)] assms(2) in simp)

lemma answer_evidence:
  assumes "session_ok co" "receive_signature P co sid q = (co', r)" "psbt_grows (co_psbt co) (co_psbt co')"
  shows "session_ok co'"
proof (cases "r = Ok ()")
  case True
  then obtain s merged where s: "find_signer (co_federation co) sid = Some s"
      and sig: "has_new_signature (sg_fingerprint s) (co_psbt co) merged"
      and co': "co' = co\<lparr>co_psbt := merged, co_signed := insert sid (co_signed co)\<rparr>"
    using assms(2)[unfolded True receive_Ok] by blast
  with assms(3) have "psbt_grows (co_psbt co) merged" by simp
  from session_ok_grows[OF assms(1) this] find_signer_Some[OF s] new_signature_evidence[OF sig] co'
  show ?thesis by (auto simp: session_ok_def)
qed (use receive_error[OF assms(2)] assms(1) in simp)

interpretation session: transition_system "session_step P" "\<lambda>co. psbt_lib_ok P \<and> signed_members co"
    "\<lambda>co. (co_federation co, unsigned_tx (co_psbt co))" for P
  by unfold_locales (auto elim!: session_stepE dest: round_members answer_members)

interpretation keeping_session: transition_system "keeping_step P" session_ok "\<lambda>_. ()" for P
  by unfold_locales (auto simp: keeping_step_def elim!: session_stepE dest: round_evidence answer_evidence)

lemma signed_members_start: "signed_members (coordinator_new f p)"
  by (simp add: signed_members_def coordinator_new_def)

lemma session_ok_start: "session_ok (coordinator_new f p)"
  by (simp add: session_ok_def coordinator_new_def)

lemma session_run:
  assumes "psbt_lib_ok P" "(session_step P)\<^sup>*\<^sup>* (coordinator_new f p) co"
  shows "signed_members co \<and> co_federation co = f \<and> unsigned_tx (co_psbt co) = unsigned_tx (into_psbt p)"
proof -
  have start: "psbt_lib_ok P \<and> signed_members (coordinator_new f p)"
    using assms(1) signed_members_start by blast
  from session.history_good[OF assms(2) start] session.history_fixed[OF assms(2) start]
  show ?thesis by (simp add: coordinator_new_def)
qed

lemma is_complete_eq:
  assumes "federation_ok L (co_federation co)" "signed_members co"
  shows "is_complete co = Ok (unat (fd_threshold (co_federation co)) \<le> card (co_signed co))"
    and "card (co_signed co) \<le> length (fd_signers (co_federation co))"
proof -
  let ?f = "co_federation co"
  have "card (co_signed co) \<le> card (sg_id ` set (fd_signers ?f))"
    by (rule card_mono[OF _ assms(2)[unfolded signed_members_def]]) simp
  also have "\<dots> \<le> length (fd_signers ?f)"
    by (metis card_length length_map list.set_map)
  finally show le: "card (co_signed co) \<le> length (fd_signers ?f)" .
  then have "card (co_signed co) < 2 ^ 32"
    using assms(1) by (simp add: federation_ok_def roster_ok_def)
  then show "is_complete co = Ok (unat (fd_threshold ?f) \<le> card (co_signed co))"
    by (simp add: is_complete_def signatures_collected_def Let_def word_le_nat_alt unat_of_nat take_bit_nat_eq_self)
qed

section \<open>Properties\<close>

text \<open>A session of the demo federation over one input; combining appends signatures.\<close>

definition demo_merge :: "psbt_input \<Rightarrow> psbt_input \<Rightarrow> psbt_input" where
  "demo_merge i j = i\<lparr>partial_sigs := partial_sigs i @ partial_sigs j,
     bip32_derivation := bip32_derivation i @ bip32_derivation j\<rparr>"

definition demo_psbt_lib :: "(unit, unit) psbt_lib" where
  "demo_psbt_lib =
     \<lparr>compute_txid = (\<lambda>t. of_nat (length (tx_output t))),
      serialize_tx = (\<lambda>t. []),
      combine = (\<lambda>p q. if length (inputs p) \<noteq> length (inputs q) then (p, Err ''inputs'')
                       else if \<not> xpubs_agree p q then (p, Err ''xpubs'')
                       else (p\<lparr>inputs := map2 demo_merge (inputs p) (inputs q),
                              global_xpubs := global_xpubs p @ filter (\<lambda>e. e \<notin> set (global_xpubs p)) (global_xpubs q)\<rparr>, Ok ())),
      extract_tx = (\<lambda>p. Ok (unsigned_tx p)),
      wallet_sign = (\<lambda>w opts p. (p, Ok False)),
      wallet_finalize = (\<lambda>w opts p. (p, Ok True)),
      wallet_build_tx = (\<lambda>w spk a r. (w, Err ''none'')),
      default_options = ()\<rparr>"

lemma demo_psbt_lib_ok: "psbt_lib_ok demo_psbt_lib"
  by (auto simp: psbt_lib_ok_def demo_psbt_lib_def split: if_splits)

definition demo_key :: "word256 \<Rightarrow> btc_public_key" where
  "demo_key x = \<lparr>compressed = True, inner = \<lparr>pk_odd = False, pk_x = x\<rparr>\<rparr>"

definition demo_session_psbt :: "(btc_public_key \<times> bytes) list \<Rightarrow> ((word256 \<times> word256) \<times> bytes) list \<Rightarrow> psbt" where
  "demo_session_psbt sigs tapsigs =
     \<lparr>unsigned_tx = \<lparr>tx_version = 2, tx_lock_time = 0, tx_input = [], tx_output = []\<rparr>,
      global_xpubs = [], inputs = [\<lparr>partial_sigs = sigs,
        bip32_derivation = (if tapsigs = [] then [(inner (demo_key 9), (9, [])), (inner (demo_key 1), (1, []))] else []),
        tap_key_origins = (if tapsigs = [] then [] else [(9, ([], (9, []))), (1, ([], (1, [])))]),
        tap_script_sigs = tapsigs, tap_key_sig = None, input_rest = []\<rparr>],
      outputs = [], psbt_rest = []\<rparr>"

definition demo_coordinator :: coordinator where
  "demo_coordinator = coordinator_new demo_federation (UnsignedPsbt (demo_session_psbt [] []))"

lemmas session_eval = demo_coordinator_def coordinator_new_def demo_psbt_lib_def demo_session_psbt_def
  demo_key_def demo_merge_def demo_federation_def demo_signer_def find_signer_def has_new_signature_def
  fp_matches_def xpubs_agree_def

lemma demo_answer:
  "\<exists>co'. receive_signature demo_psbt_lib demo_coordinator (SignerId ''a'') (demo_session_psbt [(demo_key 9, [])] []) = (co', Ok ())
     \<and> co_signed co' = {SignerId ''a''} \<and> psbt_grows (co_psbt demo_coordinator) (co_psbt co')"
  unfolding receive_Ok by (simp add: session_eval psbt_grows_def input_grows_def)

text \<open>
C8: Throughout a signing session, however it runs and whatever the answers are, the federation and the unsigned
transaction are those it began with and only members are recorded as having signed. As long as no
step drops a signature or a key origin, the PSBT holds for each of them a signature that its key
origins attribute to that member's fingerprint.\<close>

theorem session_invariant:
  assumes "psbt_lib_ok P" "(session_step P)\<^sup>*\<^sup>* (coordinator_new f p) co"
  shows "co_federation co = f \<and> unsigned_tx (co_psbt co) = unsigned_tx (into_psbt p)
    \<and> co_signed co \<subseteq> sg_id ` set (fd_signers f)
    \<and> ((keeping_step P)\<^sup>*\<^sup>* (coordinator_new f p) co \<longrightarrow>
        (\<forall>sid \<in> co_signed co. \<exists>s \<in> set (fd_signers f). sg_id s = sid \<and> evidence (co_psbt co) (sg_fingerprint s)))"
proof -
  note run = session_run[OF assms]
  have "session_ok co" if "(keeping_step P)\<^sup>*\<^sup>* (coordinator_new f p) co"
    using keeping_session.history_good[OF that session_ok_start] .
  with run show ?thesis by (auto simp: signed_members_def session_ok_def)
qed

theorem session_invariant_witness:
  "\<exists>co'. (keeping_step demo_psbt_lib)\<^sup>*\<^sup>* demo_coordinator co' \<and> SignerId ''a'' \<in> co_signed co'
     \<and> evidence (co_psbt co') 9"
proof -
  obtain co' where co': "receive_signature demo_psbt_lib demo_coordinator (SignerId ''a'') (demo_session_psbt [(demo_key 9, [])] []) = (co', Ok ())"
      "co_signed co' = {SignerId ''a''}" "psbt_grows (co_psbt demo_coordinator) (co_psbt co')"
    using demo_answer by blast
  then have step: "session_step demo_psbt_lib demo_coordinator co'"
    by (intro session_step.answer)
  with co'(3) have keeping: "(keeping_step demo_psbt_lib)\<^sup>*\<^sup>* demo_coordinator co'"
    by (intro r_into_rtranclp) (simp add: keeping_step_def)
  from step have "(session_step demo_psbt_lib)\<^sup>*\<^sup>* demo_coordinator co'" by (rule r_into_rtranclp)
  from session_invariant[OF demo_psbt_lib_ok this[unfolded demo_coordinator_def]] co'(2) keeping
  show ?thesis by (auto simp: demo_federation_def demo_signer_def demo_coordinator_def)
qed

text \<open>
C9: A session of a federation in order finalizes exactly when at least the threshold of signers is recorded, the
wallet reports every input satisfied, and the transaction extracts; below the threshold the answer is
always the error that names both counts, whatever the wallet would say.\<close>

theorem finalize_threshold:
  assumes "psbt_lib_ok P" "federation_ok L f" "(session_step P)\<^sup>*\<^sup>* (coordinator_new f p) co"
  shows "(finalize P w opts co = Ok fin \<longleftrightarrow> unat (fd_threshold f) \<le> card (co_signed co)
      \<and> wallet_finalize P w opts (co_psbt co) = (fp_psbt fin, Ok True)
      \<and> extract_tx P (fp_psbt fin) = Ok (fp_transaction fin))
    \<and> (finalize P w opts co = Err (InsufficientSignatures (card (co_signed co)) (unat (fd_threshold f)))
        \<longleftrightarrow> card (co_signed co) < unat (fd_threshold f))"
proof -
  have ok: "signed_members co" "co_federation co = f"
    using session_run[OF assms(1,3)] by blast+
  have complete: "is_complete co = Ok (unat (fd_threshold f) \<le> card (co_signed co))"
    using is_complete_eq(1)[of L co] ok assms(2) by simp
  obtain q r where q: "wallet_finalize P w opts (co_psbt co) = (q, r)" by fastforce
  show ?thesis
    by (cases fin; cases r; cases "unat (fd_threshold f) \<le> card (co_signed co)")
      (auto simp: finalize_def complete q ok(2) signatures_collected_def result_simps)
qed

theorem finalize_threshold_witness:
  "finalize demo_psbt_lib () () demo_coordinator = Err (InsufficientSignatures 0 2)"
proof -
  have "(session_step demo_psbt_lib)\<^sup>*\<^sup>* demo_coordinator demo_coordinator" by simp
  from finalize_threshold[OF demo_psbt_lib_ok demo_federation_ok this[unfolded demo_coordinator_def], of "()" "()"]
  show ?thesis by (simp add: demo_coordinator_def[symmetric]) (simp add: demo_coordinator_def coordinator_new_def demo_federation_def)
qed

text \<open>
C10: An answer is accepted exactly when it comes from a member, is for this transaction, combines, and brings a
partial signature that was not there before, by a key whose origin is that member's fingerprint; it
then records exactly that member. Any other answer leaves the session as it was.\<close>

theorem receive_signature_exact:
  assumes "receive_signature P co sid q = (co', r)"
  shows "(r = Ok () \<longleftrightarrow> (\<exists>s merged. find_signer (co_federation co) sid = Some s
       \<and> compute_txid P (unsigned_tx q) = compute_txid P (unsigned_tx (co_psbt co))
       \<and> combine P (co_psbt co) q = (merged, Ok ())
       \<and> (\<exists>n pk sig. n < length (inputs merged) \<and> (pk, sig) \<in> set (partial_sigs (inputs merged ! n))
            \<and> fp_matches (sg_fingerprint s) (inputs merged ! n) pk
            \<and> \<not> (n < length (inputs (co_psbt co)) \<and> pk \<in> fst ` set (partial_sigs (inputs (co_psbt co) ! n))))
       \<and> co' = co\<lparr>co_psbt := merged, co_signed := insert sid (co_signed co)\<rparr>))
    \<and> (r = Ok () \<or> co' = co)"
proof -
  have "r = Ok () \<longleftrightarrow> receive_signature P co sid q = (co', Ok ())" using assms by auto
  then show ?thesis
    unfolding receive_Ok has_new_signature_iff using receive_error[OF assms] by blast
qed

theorem receive_signature_exact_witness:
  "\<exists>co'. receive_signature demo_psbt_lib demo_coordinator (SignerId ''b'') (demo_session_psbt [(demo_key 9, [])] []) = (co', Err (InvalidSignature (SignerId ''b'')
     ''no new partial signature attributable to this signer was present in the returned PSBT'')) \<and> co' = demo_coordinator"
proof -
  obtain co' r where r: "receive_signature demo_psbt_lib demo_coordinator (SignerId ''b'') (demo_session_psbt [(demo_key 9, [])] []) = (co', r)"
    by fastforce
  have "r = Err (InvalidSignature (SignerId ''b'')
     ''no new partial signature attributable to this signer was present in the returned PSBT'')"
    using r unfolding receive_cases by (simp add: session_eval)
  with r receive_signature_exact[OF r] show ?thesis by simp
qed

lemma fp_to_id_distinct:
  assumes "distinct (map sg_fingerprint (fd_signers f))" "s \<in> set (fd_signers f)"
  shows "fp_to_id f (sg_fingerprint s) = Some (sg_id s)"
  unfolding fp_to_id_def
  by (rule map_of_is_SomeI) (use assms in \<open>auto simp: rev_map[symmetric] comp_def\<close>)

text \<open>
C14: On a taproot input, a single script-path signature makes a signing round count every member whose key origin is
listed on the input: with origins for all members, the session reports completion after one
signature, whatever the threshold.\<close>

theorem taproot_round_overcounts:
  assumes "federation_ok L f" "distinct (map sg_fingerprint (fd_signers f))"
    and "wallet_sign P w opts (into_psbt p) = (q, Ok b)" "i \<in> set (inputs q)" "tap_script_sigs i = [sig]"
    and "\<forall>s \<in> set (fd_signers f). \<exists>k lh path. (k, lh, sg_fingerprint s, path) \<in> set (tap_key_origins i)"
  shows "co_signed (fst (request_signatures P w opts (coordinator_new f p))) = sg_id ` set (fd_signers f)
    \<and> is_complete (fst (request_signatures P w opts (coordinator_new f p))) = Ok True"
proof -
  let ?co = "fst (request_signatures P w opts (coordinator_new f p))"
  have co: "co_signed ?co = signers_with_sigs q f" "co_federation ?co = f"
    using assms(3) by (simp_all add: request_signatures_def coordinator_new_def Let_def)
  have "sg_id s \<in> signers_with_sigs q f" if "s \<in> set (fd_signers f)" for s
    using tap_contributors_iff[of "sg_id s" "fp_to_id f" i] assms(4-6) that fp_to_id_distinct[OF assms(2) that]
    by (force simp: signers_with_sigs_def)
  then have signed: "co_signed ?co = sg_id ` set (fd_signers f)"
    using signers_with_sigs_evidence[of _ q f] co(1) by blast
  moreover have "card (sg_id ` set (fd_signers f)) = length (fd_signers f)"
    using distinct_card[OF federation_ok_ids[OF assms(1)]] by simp
  ultimately show ?thesis
    using assms(1) co
    by (simp add: is_complete_def signatures_collected_def Let_def federation_ok_def roster_ok_def
        word_le_nat_alt unat_of_nat take_bit_nat_eq_self)
qed

theorem taproot_round_overcounts_witness:
  "is_complete (fst (request_signatures demo_psbt_lib () ()
     (coordinator_new demo_federation (UnsignedPsbt (demo_session_psbt [] [((9, 5), [])]))))) = Ok True"
proof -
  let ?p = "demo_session_psbt [] [((9, 5), [])]"
  have sign: "wallet_sign demo_psbt_lib () () (into_psbt (UnsignedPsbt ?p)) = (?p, Ok False)"
    by (simp add: demo_psbt_lib_def)
  have "distinct (map sg_fingerprint (fd_signers demo_federation))"
    by (simp add: demo_federation_def demo_signer_def)
  from taproot_round_overcounts[OF demo_federation_ok this sign, of "hd (inputs ?p)" "((9, 5), [])"]
  show ?thesis by (simp add: demo_session_psbt_def) (simp add: demo_federation_def demo_signer_def)
qed

text \<open>
C39: An external signer's answer to a taproot session is always refused: when no input carries an ECDSA partial
signature, as for taproot inputs, the answer of a member is an invalid signature, however many
taproot signatures it brings, and the session forgets them.\<close>

theorem taproot_answer_refused:
  assumes "find_signer (co_federation co) sid = Some s"
    and "compute_txid P (unsigned_tx q) = compute_txid P (unsigned_tx (co_psbt co))"
    and "combine P (co_psbt co) q = (merged, Ok ())" "\<forall>i \<in> set (inputs merged). partial_sigs i = []"
  shows "fst (receive_signature P co sid q) = co \<and> (\<exists>msg. snd (receive_signature P co sid q) = Err (InvalidSignature sid msg))"
proof -
  have "\<not> has_new_signature (sg_fingerprint s) (co_psbt co) merged"
    using assms(4) by (auto simp: has_new_signature_def list_ex_iff in_set_enumerate_eq)
  with assms(1-3) show ?thesis by (simp add: receive_signature_def Let_def)
qed

theorem taproot_answer_refused_witness:
  "\<exists>msg. snd (receive_signature demo_psbt_lib demo_coordinator (SignerId ''a'') (demo_session_psbt [] [((9, 5), [])])) =
     Err (InvalidSignature (SignerId ''a'') msg)"
proof -
  let ?q = "demo_session_psbt [] [((9, 5), [])]"
  obtain s where s: "find_signer (co_federation demo_coordinator) (SignerId ''a'') = Some s"
    by (simp add: session_eval)
  obtain merged where "combine demo_psbt_lib (co_psbt demo_coordinator) ?q = (merged, Ok ())"
      "\<forall>i \<in> set (inputs merged). partial_sigs i = []"
    by (simp add: session_eval)
  from taproot_answer_refused[OF s _ this] show ?thesis by (simp add: session_eval)
qed

end
