(* ===== verification/Verify.thy ===== *)
theory Verify
  imports Chain_Types
begin

text \<open>
  \<open>src/verify.rs\<close>: the checks that stand between a lying host and a signature.
  \<open>multisig_policy\<close> reads the policy of a \<open>wsh(sortedmulti(...))\<close> descriptor,
  \<open>ensure_descriptors_match\<close> compares two of them, \<open>verify_psbt_outputs\<close> compares
  the outputs of a PSBT with the approved ones. How scripts and amounts print is
  \<open>show_lib\<close>, used in messages only.
\<close>

section \<open>Policies\<close>

text \<open>A \<open>BTreeSet<String>\<close> is the strictly sorted list of its elements.\<close>

definition bset_collect :: "string list \<Rightarrow> string list" where
  "bset_collect xs = sort (remdups xs)"

definition bset_difference :: "string list \<Rightarrow> string list \<Rightarrow> string list" where
  "bset_difference xs ys = filter (\<lambda>x. x \<notin> set ys) xs"

record multisig_policy =
  mp_threshold :: nat
  mp_keys :: "string list"

fun descriptor_kind :: "descriptor \<Rightarrow> string" where
  "descriptor_kind (Bare _) = ''bare''"
| "descriptor_kind (Pkh _) = ''pkh''"
| "descriptor_kind (Wpkh _) = ''wpkh''"
| "descriptor_kind (Sh _) = ''sh''"
| "descriptor_kind (Wsh _) = ''wsh''"
| "descriptor_kind (Tr _) = ''tr''"

fun policy_of :: "ms_lib \<Rightarrow> descriptor \<Rightarrow> (multisig_policy, descriptor_error) result" where
  "policy_of L (Wsh (SortedMulti k pks)) =
     Ok \<lparr>mp_threshold = k, mp_keys = bset_collect (map (dpk_to_string L) pks)\<rparr>"
| "policy_of L (Wsh (Ms _)) =
     Err (UnsupportedShape ''wsh() body is raw miniscript, expected sortedmulti(...)'')"
| "policy_of L d =
     Err (UnsupportedShape
       (''expected wsh(sortedmulti(...)), got a '' @ descriptor_kind d @ '' descriptor''))"

definition descriptors_match :: "ms_lib \<Rightarrow> descriptor \<Rightarrow> descriptor \<Rightarrow> (bool, descriptor_error) result" where
  "descriptors_match L expected candidate =
     and_then (policy_of L expected) (\<lambda>a.
     and_then (policy_of L candidate) (\<lambda>b. Ok (a = b)))"

text \<open>\<open>Debug\<close> of a list of strings, on ASCII text (descriptor keys are ASCII; a byte from
  128 on is copied).\<close>

definition hex_digit :: "nat \<Rightarrow> char" where
  "hex_digit d = (if d < 10 then char_of (48 + d) else char_of (87 + d))"

definition debug_char :: "char \<Rightarrow> string" where
  "debug_char c =
     (let n = (of_char c :: nat) in
      if n = 0 then [CHR 0x5C, CHR ''0'']
      else if n = 9 then [CHR 0x5C, CHR ''t'']
      else if n = 10 then [CHR 0x5C, CHR ''n'']
      else if n = 13 then [CHR 0x5C, CHR ''r'']
      else if n = 34 \<or> n = 92 then [CHR 0x5C, c]
      else if n < 16 then [CHR 0x5C, CHR ''u'', CHR 0x7B, hex_digit n, CHR 0x7D]
      else if n < 32 \<or> n = 127 then
        [CHR 0x5C, CHR ''u'', CHR 0x7B, hex_digit (n div 16), hex_digit (n mod 16), CHR 0x7D]
      else [c])"

definition debug_string :: "string \<Rightarrow> string" where
  "debug_string s = CHR 0x22 # concat (map debug_char s) @ [CHR 0x22]"

definition debug_strings :: "string list \<Rightarrow> string" where
  "debug_strings xs = ''['' @ join '', '' (map debug_string xs) @ '']''"

definition mismatch_reasons :: "multisig_policy \<Rightarrow> multisig_policy \<Rightarrow> string list" where
  "mismatch_reasons want got =
     (let extra = bset_difference (mp_keys got) (mp_keys want);
          missing = bset_difference (mp_keys want) (mp_keys got)
      in (if mp_threshold want \<noteq> mp_threshold got
          then [''threshold '' @ dec (mp_threshold want) @ '' != '' @ dec (mp_threshold got)] else [])
         @ (if extra \<noteq> [] then [''unexpected key(s): '' @ debug_strings extra] else [])
         @ (if missing \<noteq> [] then [''missing expected key(s): '' @ debug_strings missing] else []))"

definition ensure_descriptors_match ::
    "ms_lib \<Rightarrow> descriptor \<Rightarrow> descriptor \<Rightarrow> (unit, descriptor_error) result" where
  "ensure_descriptors_match L expected candidate =
     and_then (policy_of L expected) (\<lambda>want.
     and_then (policy_of L candidate) (\<lambda>got.
       if want = got then Ok ()
       else Err (PolicyMismatch (join ''; '' (mismatch_reasons want got)))))"

definition ensure_descriptor_string_matches ::
    "ms_lib \<Rightarrow> descriptor \<Rightarrow> string \<Rightarrow> (unit, descriptor_error) result" where
  "ensure_descriptor_string_matches L expected candidate =
     and_then (map_err De_Parse (desc_from_str L candidate)) (\<lambda>parsed.
     ensure_descriptors_match L expected parsed)"

section \<open>PSBT outputs\<close>

record expected_output =
  eo_script :: script
  eo_amount :: amount

definition expected_output_new :: "script \<Rightarrow> amount \<Rightarrow> expected_output" where
  "expected_output_new s a = \<lparr>eo_script = s, eo_amount = a\<rparr>"

record show_lib =
  show_script :: "script \<Rightarrow> string"
  show_amount :: "amount \<Rightarrow> string"

text \<open>The first index, and the element there, of an approved output not yet matched that
  satisfies \<open>P\<close>. The flags are the vector \<open>matched\<close>, as long as \<open>approved\<close>.\<close>

definition find_unmatched ::
    "bool list \<Rightarrow> expected_output list \<Rightarrow> (expected_output \<Rightarrow> bool) \<Rightarrow> (nat \<times> expected_output) option" where
  "find_unmatched matched approved P =
     List.find (\<lambda>(i, e). \<not> matched ! i \<and> P e) (List.enumerate 0 approved)"

definition describes :: "txout \<Rightarrow> expected_output \<Rightarrow> bool" where
  "describes out e \<longleftrightarrow> eo_script e = txo_script out \<and> eo_amount e = txo_value out"

fun match_outputs ::
    "show_lib \<Rightarrow> (script \<Rightarrow> bool) \<Rightarrow> expected_output list \<Rightarrow> txout list \<Rightarrow> bool list \<Rightarrow>
     (bool list, psbt_error) result" where
  "match_outputs S is_change approved [] matched = Ok matched"
| "match_outputs S is_change approved (out # outs) matched =
     (case find_unmatched matched approved (describes out) of
        Some (i, _) \<Rightarrow> match_outputs S is_change approved outs (matched[i := True])
      | None \<Rightarrow>
          if is_change (txo_script out) then match_outputs S is_change approved outs matched
          else case find_unmatched matched approved (\<lambda>e. eo_script e = txo_script out) of
            Some (_, e) \<Rightarrow> Err (OutputMismatch
              (''amount to '' @ show_script S (txo_script out) @ '' was changed: approved ''
               @ show_amount S (eo_amount e) @ '', PSBT has '' @ show_amount S (txo_value out)))
          | None \<Rightarrow> Err (OutputMismatch
              (''unexpected output not in proposal and not owned change: ''
               @ show_amount S (txo_value out) @ '' to '' @ show_script S (txo_script out))))"

definition verify_psbt_outputs ::
    "show_lib \<Rightarrow> psbt \<Rightarrow> expected_output list \<Rightarrow> (script \<Rightarrow> bool) \<Rightarrow> (unit, psbt_error) result" where
  "verify_psbt_outputs S p approved is_change =
     and_then (match_outputs S is_change approved (tx_output (unsigned_tx p))
                 (replicate (length approved) False)) (\<lambda>matched.
       case find_unmatched matched approved (\<lambda>_. True) of
         Some (_, e) \<Rightarrow> Err (OutputMismatch
           (''approved output missing from PSBT: '' @ show_amount S (eo_amount e)
            @ '' to '' @ show_script S (eo_script e)))
       | None \<Rightarrow> Ok ())"

section \<open>Lemmas on policies\<close>

lemma bset_collect_eq_iff [simp]: "bset_collect xs = bset_collect ys \<longleftrightarrow> set xs = set ys"
  unfolding bset_collect_def sorted_list_of_set_sort_remdups[symmetric]
  by (metis finite_set set_sorted_list_of_set)

lemma set_bset_collect [simp]: "set (bset_collect xs) = set xs"
  by (simp add: bset_collect_def)

lemma policy_of_Ok_iff [result_simps]:
  "policy_of L d = Ok p \<longleftrightarrow> (\<exists>k pks. d = Wsh (SortedMulti k pks) \<and>
     p = \<lparr>mp_threshold = k, mp_keys = bset_collect (map (dpk_to_string L) pks)\<rparr>)"
  by (cases "(L, d)" rule: policy_of.cases) auto

lemma policy_of_total: "policy_of L d \<noteq> Panic" "policy_of L d \<noteq> Err (PolicyMismatch msg)"
  by (cases "(L, d)" rule: policy_of.cases; simp)+

lemma join_Nil_iff: "[] \<notin> set xs \<Longrightarrow> join sep xs = [] \<longleftrightarrow> xs = []"
  by (induction sep xs rule: join.induct) auto

lemma mismatch_reasons_nonempty: "[] \<notin> set (mismatch_reasons want got)"
  by (auto simp: mismatch_reasons_def Let_def)

lemma mismatch_reasons_Nil_iff:
  "mismatch_reasons want got = [] \<longleftrightarrow>
     mp_threshold want = mp_threshold got \<and> set (mp_keys want) = set (mp_keys got)"
  by (auto simp: mismatch_reasons_def Let_def bset_difference_def filter_empty_conv)

lemma policy_eq_iff:
  assumes "policy_of L a = Ok want" "policy_of L b = Ok got"
  shows "want = got \<longleftrightarrow> mp_threshold want = mp_threshold got \<and> set (mp_keys want) = set (mp_keys got)"
  using assms by (auto simp: result_simps)

lemmas match_defs = ensure_descriptors_match_def descriptors_match_def

section \<open>Lemmas on output matching\<close>

definition approved_out :: "expected_output \<Rightarrow> txout" where
  "approved_out e = \<lparr>txo_value = eo_amount e, txo_script = eo_script e\<rparr>"

lemma describes_iff: "describes out e \<longleftrightarrow> approved_out e = out"
  by (cases out) (auto simp: describes_def approved_out_def)

text \<open>The approved outputs whose flag is still unset, as a multiset.\<close>

definition open_indices :: "bool list \<Rightarrow> nat set" where
  "open_indices matched = {i. i < length matched \<and> \<not> matched ! i}"

definition open_outputs :: "bool list \<Rightarrow> expected_output list \<Rightarrow> txout multiset" where
  "open_outputs matched approved =
     image_mset (\<lambda>i. approved_out (approved ! i)) (mset_set (open_indices matched))"

lemma finite_open [simp]: "finite (open_indices matched)"
  by (simp add: open_indices_def)

lemma find_unmatched_Some:
  assumes "find_unmatched matched approved P = Some (i, e)" "length matched = length approved"
  shows "i \<in> open_indices matched \<and> e = approved ! i \<and> P e"
  using find_Some_iff[OF assms(1)[unfolded find_unmatched_def]] assms(2)
  by (auto simp: open_indices_def in_set_enumerate_eq)

lemma find_unmatched_None:
  assumes "length matched = length approved"
  shows "find_unmatched matched approved P = None \<longleftrightarrow> (\<forall>i \<in> open_indices matched. \<not> P (approved ! i))"
  using assms unfolding find_unmatched_def find_None_iff
  by (auto simp: open_indices_def in_set_enumerate_eq Ball_def)

lemma open_outputs_claim:
  assumes "i \<in> open_indices matched"
  shows "open_outputs matched approved =
    add_mset (approved_out (approved ! i)) (open_outputs (matched[i := True]) approved)"
proof -
  have "open_indices matched = insert i (open_indices (matched[i := True]))"
       "i \<notin> open_indices (matched[i := True])"
    using assms by (auto simp: open_indices_def nth_list_update)
  then show ?thesis by (simp add: open_outputs_def)
qed

lemma open_outputs_none:
  assumes "find_unmatched matched approved (describes out) = None" "length matched = length approved"
  shows "out \<notin># open_outputs matched approved"
  using assms by (auto simp: find_unmatched_None describes_iff open_outputs_def)

lemma mset_skip: "x \<notin># U \<Longrightarrow> add_mset x M - U = add_mset x (M - U) \<and> U - add_mset x M = U - M"
  by (auto simp: multiset_eq_iff not_in_iff)

lemma match_outputs_sound:
  assumes "match_outputs S is_change approved outs matched = Ok m" "length matched = length approved"
  shows "length m = length approved
    \<and> open_outputs m approved = open_outputs matched approved - mset outs
    \<and> (\<forall>out \<in># mset outs - open_outputs matched approved. is_change (txo_script out))"
  using assms
proof (induction S is_change approved outs matched rule: match_outputs.induct)
  case (2 S is_change approved out outs matched)
  show ?case
  proof (cases "find_unmatched matched approved (describes out)")
    case None
    then have c: "is_change (txo_script out)" and "match_outputs S is_change approved outs matched = Ok m"
      using "2.prems"(1) by (auto split: if_splits option.splits prod.splits)
    with 2(1)[OF None c] "2.prems"(2) mset_skip[OF open_outputs_none[OF None "2.prems"(2)], of "mset outs"]
    show ?thesis by auto
  next
    case (Some ie)
    obtain i e where ie: "ie = (i, e)" by (cases ie)
    note f = find_unmatched_Some[OF Some[unfolded ie] "2.prems"(2)]
    from Some ie f "2.prems" have "match_outputs S is_change approved outs (matched[i := True]) = Ok m"
      by simp
    with 2(2)[OF Some ie[symmetric]] "2.prems"(2) f show ?thesis
      by (auto simp: open_outputs_claim[of i matched approved] describes_iff)
  qed
qed simp

lemma match_outputs_complete:
  assumes "\<forall>out \<in># mset outs - open_outputs matched approved. is_change (txo_script out)"
    and "length matched = length approved"
  shows "\<exists>m. match_outputs S is_change approved outs matched = Ok m"
  using assms
proof (induction S is_change approved outs matched rule: match_outputs.induct)
  case (2 S is_change approved out outs matched)
  show ?case
  proof (cases "find_unmatched matched approved (describes out)")
    case None
    note skip = mset_skip[OF open_outputs_none[OF None "2.prems"(2)], of "mset outs"]
    from "2.prems"(1) skip have "is_change (txo_script out)" by simp
    with 2(1)[OF None] None "2.prems" skip show ?thesis by simp
  next
    case (Some ie)
    obtain i e where ie: "ie = (i, e)" by (cases ie)
    note f = find_unmatched_Some[OF Some[unfolded ie] "2.prems"(2)]
    with 2(2)[OF Some ie[symmetric]] "2.prems" Some ie show ?thesis
      by (auto simp: open_outputs_claim[of i matched approved] describes_iff)
  qed
qed simp

lemma open_outputs_start:
  "open_outputs (replicate (length approved) False) approved = mset (map approved_out approved)"
proof -
  have "open_indices (replicate (length approved) False) = {0..<length approved}"
    by (auto simp: open_indices_def)
  then show ?thesis
    unfolding open_outputs_def
    by (metis (no_types, lifting) image_mset.compositionality map_nth mset_map mset_set_upto_eq_mset_upto comp_def
        atLeast0LessThan image_mset_cong)
qed

lemma none_of_case: "(case x of Some (_, e) \<Rightarrow> Err (f e) | None \<Rightarrow> Ok ()) = Ok () \<longleftrightarrow> x = None"
  by (cases x) auto

lemma verify_outputs_exact:
  "verify_psbt_outputs S p approved is_change = Ok () \<longleftrightarrow>
     mset (map approved_out approved) \<subseteq># mset (tx_output (unsigned_tx p)) \<and>
     (\<forall>out \<in># mset (tx_output (unsigned_tx p)) - mset (map approved_out approved).
        is_change (txo_script out))"
    (is "?l \<longleftrightarrow> ?sub \<and> ?rest")
proof -
  let ?outs = "tx_output (unsigned_tx p)" and ?m0 = "replicate (length approved) False"
  have all_claimed: "find_unmatched m approved (\<lambda>_. True) = None \<longleftrightarrow> ?sub"
    if "match_outputs S is_change approved ?outs ?m0 = Ok m" for m
  proof -
    from match_outputs_sound[OF that] have "length m = length approved"
      and "open_outputs m approved = mset (map approved_out approved) - mset ?outs"
      by (simp_all add: open_outputs_start)
    moreover from this(1) have "find_unmatched m approved (\<lambda>_. True) = None \<longleftrightarrow> open_outputs m approved = {#}"
      by (auto simp: find_unmatched_None open_outputs_def mset_set_empty_iff)
    ultimately show ?thesis by (simp add: Diff_eq_empty_iff_mset)
  qed
  have rest: "(\<exists>m. match_outputs S is_change approved ?outs ?m0 = Ok m) \<longleftrightarrow> ?rest"
    using match_outputs_sound[of S is_change approved ?outs ?m0]
      match_outputs_complete[of ?outs ?m0 approved is_change S]
    by (auto simp: open_outputs_start)
  have "?l \<longleftrightarrow> (\<exists>m. match_outputs S is_change approved ?outs ?m0 = Ok m
                 \<and> find_unmatched m approved (\<lambda>_. True) = None)"
    by (simp add: verify_psbt_outputs_def result_simps none_of_case)
  with all_claimed rest show ?thesis by blast
qed

section \<open>Properties\<close>

text \<open>Two descriptors are accepted as the same policy exactly when both are
\<open>wsh(sortedmulti(k, ...))\<close> with the same threshold and the same set of key strings: neither
the order of the keys nor anything else of the descriptor counts.\<close>

theorem ensure_match_iff:
  "ensure_descriptors_match L a b = Ok () \<longleftrightarrow>
     (\<exists>k ps qs. a = Wsh (SortedMulti k ps) \<and> b = Wsh (SortedMulti k qs) \<and>
        dpk_to_string L ` set ps = dpk_to_string L ` set qs)"
  unfolding match_defs by (auto simp: result_simps)

text \<open>Every refusal is explained: a policy mismatch is reported exactly when both descriptors have a
policy and the policies differ, and its message is never empty; the other errors are those of reading
a policy; nothing panics.\<close>

theorem ensure_match_errors:
  "case ensure_descriptors_match L a b of
     Ok _ \<Rightarrow> descriptors_match L a b = Ok True
   | Err (PolicyMismatch msg) \<Rightarrow> descriptors_match L a b = Ok False \<and> msg \<noteq> []
   | Err e \<Rightarrow> descriptors_match L a b = Err e
   | Panic \<Rightarrow> False"
proof (cases "policy_of L a")
  case (Ok want)
  note a = this
  show ?thesis
  proof (cases "policy_of L b")
    case (Ok got)
    have "mismatch_reasons want got \<noteq> []" if "want \<noteq> got"
      using that policy_eq_iff[OF a Ok] by (simp add: mismatch_reasons_Nil_iff)
    with a Ok show ?thesis
      by (simp add: match_defs join_Nil_iff mismatch_reasons_nonempty)
  next
    case (Err e)
    with a policy_of_total(2)[of L b] show ?thesis
      by (cases e) (auto simp: match_defs)
  qed (simp add: policy_of_total)
next
  case (Err e)
  with policy_of_total(2)[of L a] show ?thesis
    by (cases e) (auto simp: match_defs)
qed (simp add: policy_of_total)

text \<open>
C1: A PSBT passes exactly when its outputs are the approved outputs, each as often as approved, plus
outputs to scripts the wallet recognises as its own change: no approved payout is dropped, no amount
or script is altered, nothing else is paid.\<close>

theorem verify_outputs_iff:
  "verify_psbt_outputs S p approved is_change = Ok () \<longleftrightarrow>
     mset (map approved_out approved) \<subseteq># mset (tx_output (unsigned_tx p)) \<and>
     (\<forall>out \<in># mset (tx_output (unsigned_tx p)) - mset (map approved_out approved).
        is_change (txo_script out))"
  by (rule verify_outputs_exact)

text \<open>A payout of 5 approved once, paid once, the rest to the own script \<open>[9]\<close>; the same
  PSBT with the payout doubled is refused.\<close>

definition demo_psbt :: "txout list \<Rightarrow> psbt" where
  "demo_psbt outs =
     \<lparr>unsigned_tx = \<lparr>tx_version = 2, tx_lock_time = 0, tx_input = [], tx_output = outs\<rparr>,
      global_xpubs = [], inputs = [], outputs = replicate (length outs) \<lparr>output_rest = []\<rparr>, psbt_rest = []\<rparr>"

definition demo_show :: show_lib where
  "demo_show = \<lparr>show_script = (\<lambda>_. []), show_amount = (\<lambda>a. dec (unat a))\<rparr>"

theorem verify_outputs_iff_witness:
  "verify_psbt_outputs demo_show
     (demo_psbt [\<lparr>txo_value = 7, txo_script = [9]\<rparr>, \<lparr>txo_value = 5, txo_script = [1]\<rparr>])
     [\<lparr>eo_script = [1], eo_amount = 5\<rparr>] (\<lambda>s. s = [9]) = Ok ()
   \<and> verify_psbt_outputs demo_show
     (demo_psbt [\<lparr>txo_value = 5, txo_script = [1]\<rparr>, \<lparr>txo_value = 5, txo_script = [1]\<rparr>])
     [\<lparr>eo_script = [1], eo_amount = 5\<rparr>] (\<lambda>s. s = [9]) \<noteq> Ok ()"
  by (simp add: verify_outputs_iff demo_psbt_def approved_out_def)

end
