(* ===== verification/Signing.thy ===== *)
theory Signing
  imports Psbt Verify
begin

text \<open>
  The signing pipeline end to end: \<open>verify_psbt_outputs\<close> before the session,
  \<open>SigningCoordinator\<close> during it and \<open>finalize\<close> at its end. What was approved is what
  the final transaction pays; and a session always completes once a threshold of members have
  answered with a signature of their own, in whatever order.
\<close>

section \<open>From approval to the final transaction\<close>

text \<open>Finalizing and extracting fill in witnesses only: the outputs are those of the unsigned
  transaction.\<close>

definition extraction_ok :: "('w, 'o) psbt_lib \<Rightarrow> bool" where
  "extraction_ok P \<longleftrightarrow> (\<forall>w opts p. unsigned_tx (fst (wallet_finalize P w opts p)) = unsigned_tx p)
     \<and> (\<forall>p t. extract_tx P p = Ok t \<longrightarrow> tx_output t = tx_output (unsigned_tx p))"

lemma finalize_outputs:
  assumes "extraction_ok P" "finalize P w opts co = Ok fin"
  shows "tx_output (fp_transaction fin) = tx_output (unsigned_tx (co_psbt co))"
proof -
  obtain q r where q: "wallet_finalize P w opts (co_psbt co) = (q, r)" by fastforce
  have "unsigned_tx q = unsigned_tx (co_psbt co)"
    using assms(1) q unfolding extraction_ok_def by (metis fst_conv)
  moreover have "extract_tx P q = Ok (fp_transaction fin)"
    using assms(2) q by (auto simp: finalize_def result_simps split: if_splits)
  ultimately show ?thesis using assms(1) by (simp add: extraction_ok_def)
qed

section \<open>Answers one after another\<close>

fun receive_all :: "('w, 'o) psbt_lib \<Rightarrow> coordinator \<Rightarrow> (signer_id \<times> psbt) list \<Rightarrow> coordinator" where
  "receive_all P co [] = co"
| "receive_all P co ((sid, q) # answers) = receive_all P (fst (receive_signature P co sid q)) answers"

text \<open>The keys that have signed, with the input they signed.\<close>

definition sig_keys :: "psbt \<Rightarrow> (nat \<times> btc_public_key) set" where
  "sig_keys p = {(n, pk). n < length (inputs p) \<and> pk \<in> fst ` set (partial_sigs (inputs p ! n))}"

text \<open>The combiner of BIP-174 on PSBTs of one transaction that do not contradict each other about the
  source of an extended key: it succeeds, every input gets the signatures of both and the key origins
  of the second, and the extended keys are those of both.\<close>

definition combiner_ok :: "('w, 'o) psbt_lib \<Rightarrow> bool" where
  "combiner_ok P \<longleftrightarrow> (\<forall>p q. unsigned_tx q = unsigned_tx p \<and> length (inputs q) = length (inputs p) \<and> xpubs_agree p q \<longrightarrow>
     (\<exists>r. combine P p q = (r, Ok ()) \<and> unsigned_tx r = unsigned_tx p \<and> length (inputs r) = length (inputs p)
        \<and> sig_keys r = sig_keys p \<union> sig_keys q
        \<and> set (global_xpubs r) = set (global_xpubs p) \<union> set (global_xpubs q)
        \<and> (\<forall>n < length (inputs q). set (bip32_derivation (inputs q ! n)) \<subseteq> set (bip32_derivation (inputs r ! n)))))"

text \<open>An answer of a member for this transaction with a signature by the key \<open>k\<close>, whose origin
  it gives as the member's, and that does not contradict the session about an extended key.\<close>

definition own_answer :: "federation \<Rightarrow> psbt \<Rightarrow> nat \<times> btc_public_key \<Rightarrow> signer_id \<times> psbt \<Rightarrow> bool" where
  "own_answer f p k a \<longleftrightarrow> unsigned_tx (snd a) = unsigned_tx p \<and> length (inputs (snd a)) = length (inputs p)
     \<and> xpubs_agree p (snd a) \<and> k \<in> sig_keys (snd a)
     \<and> (\<exists>s path. find_signer f (fst a) = Some s
          \<and> (inner (snd k), sg_fingerprint s, path) \<in> set (bip32_derivation (inputs (snd a) ! fst k)))"

lemma own_answer_member: "own_answer f p k a \<Longrightarrow> fst a \<in> sg_id ` set (fd_signers f)"
  unfolding own_answer_def by (metis find_signer_Some imageI)

lemma own_answer_accepted:
  assumes "combiner_ok P" "own_answer (co_federation co) (co_psbt co) k (sid, q)" "k \<notin> sig_keys (co_psbt co)"
  shows "\<exists>merged. receive_signature P co sid q = (co\<lparr>co_psbt := merged, co_signed := insert sid (co_signed co)\<rparr>, Ok ())
    \<and> unsigned_tx merged = unsigned_tx (co_psbt co) \<and> length (inputs merged) = length (inputs (co_psbt co))
    \<and> sig_keys merged = sig_keys (co_psbt co) \<union> sig_keys q
    \<and> set (global_xpubs merged) = set (global_xpubs (co_psbt co)) \<union> set (global_xpubs q)"
proof -
  obtain n pk where k: "k = (n, pk)" by fastforce
  from assms(2) obtain s path where q: "unsigned_tx q = unsigned_tx (co_psbt co)"
      "length (inputs q) = length (inputs (co_psbt co))" "xpubs_agree (co_psbt co) q" "k \<in> sig_keys q"
    and s: "find_signer (co_federation co) sid = Some s"
    and origin: "(inner pk, sg_fingerprint s, path) \<in> set (bip32_derivation (inputs q ! n))"
    by (auto simp: own_answer_def k)
  then obtain merged where merged: "combine P (co_psbt co) q = (merged, Ok ())"
      "unsigned_tx merged = unsigned_tx (co_psbt co)" "length (inputs merged) = length (inputs (co_psbt co))"
      "sig_keys merged = sig_keys (co_psbt co) \<union> sig_keys q"
      "set (global_xpubs merged) = set (global_xpubs (co_psbt co)) \<union> set (global_xpubs q)"
    and origins: "\<And>n. n < length (inputs q) \<Longrightarrow> set (bip32_derivation (inputs q ! n)) \<subseteq> set (bip32_derivation (inputs merged ! n))"
    using assms(1) unfolding combiner_ok_def by metis
  have n: "n < length (inputs q)" using q(4) by (simp add: sig_keys_def k)
  have "(n, pk) \<in> sig_keys merged" using q(4) merged(4) by (simp add: k)
  then obtain sig where "n < length (inputs merged)" "(pk, sig) \<in> set (partial_sigs (inputs merged ! n))"
    by (auto simp: sig_keys_def)
  moreover have "fp_matches (sg_fingerprint s) (inputs merged ! n) pk"
    using origin origins[OF n] by (auto simp: fp_matches_iff)
  moreover have "\<not> (n < length (inputs (co_psbt co)) \<and> pk \<in> fst ` set (partial_sigs (inputs (co_psbt co) ! n)))"
    using assms(3) by (auto simp: sig_keys_def k)
  ultimately have "has_new_signature (sg_fingerprint s) (co_psbt co) merged"
    unfolding has_new_signature_iff by blast
  with s q(1) merged show ?thesis by (intro exI[of _ merged]) (simp add: receive_Ok)
qed

text \<open>Every answer is its sender's own, by a key that no other sender's answer carries, and no two
  contradict each other about an extended key.\<close>

definition own_answers :: "(signer_id \<Rightarrow> nat \<times> btc_public_key) \<Rightarrow> coordinator \<Rightarrow> (signer_id \<times> psbt) list \<Rightarrow> bool" where
  "own_answers own co answers \<longleftrightarrow> distinct (map fst answers)
     \<and> (\<forall>a \<in> set answers. own_answer (co_federation co) (co_psbt co) (own (fst a)) a
          \<and> own (fst a) \<notin> sig_keys (co_psbt co)
          \<and> (\<forall>b \<in> set answers. fst b \<noteq> fst a \<longrightarrow> own (fst a) \<notin> sig_keys (snd b) \<and> xpubs_agree (snd a) (snd b)))"

lemma receive_all_records:
  assumes "combiner_ok P" "own_answers own co answers"
  shows "co_signed (receive_all P co answers) = co_signed co \<union> fst ` set answers
    \<and> co_federation (receive_all P co answers) = co_federation co"
  using assms(2)
proof (induction answers arbitrary: co)
  case (Cons a answers)
  obtain sid q where a: "a = (sid, q)" by fastforce
  from Cons.prems have "own_answer (co_federation co) (co_psbt co) (own sid) (sid, q)" "own sid \<notin> sig_keys (co_psbt co)"
    by (simp_all add: own_answers_def a)
  then obtain merged where merged: "receive_signature P co sid q = (co\<lparr>co_psbt := merged, co_signed := insert sid (co_signed co)\<rparr>, Ok ())"
      "unsigned_tx merged = unsigned_tx (co_psbt co)" "length (inputs merged) = length (inputs (co_psbt co))"
      "sig_keys merged = sig_keys (co_psbt co) \<union> sig_keys q"
      "set (global_xpubs merged) = set (global_xpubs (co_psbt co)) \<union> set (global_xpubs q)"
    using own_answer_accepted[OF assms(1)] by blast
  have xpubs: "xpubs_agree merged r \<longleftrightarrow> xpubs_agree (co_psbt co) r \<and> xpubs_agree q r" for r
    unfolding xpubs_agree_def merged(5) by (rule ball_Un)
  have still: "own_answer (co_federation co) merged (own (fst c)) c \<and> own (fst c) \<notin> sig_keys merged" if c: "c \<in> set answers" for c
  proof -
    have "fst c \<noteq> sid" using Cons.prems c by (auto simp: own_answers_def a)
    then have "xpubs_agree q (snd c)" "own (fst c) \<notin> sig_keys q"
      using Cons.prems c by (simp_all add: own_answers_def a)
    moreover have "own_answer (co_federation co) (co_psbt co) (own (fst c)) c" "own (fst c) \<notin> sig_keys (co_psbt co)"
      using Cons.prems c by (simp_all add: own_answers_def)
    ultimately show ?thesis by (simp add: own_answer_def merged(2-4) xpubs)
  qed
  have "own_answers own (co\<lparr>co_psbt := merged, co_signed := insert sid (co_signed co)\<rparr>) answers"
    using Cons.prems still by (simp add: own_answers_def)
  from Cons.IH[OF this] show ?case by (auto simp: a merged(1))
qed simp

lemma receive_all_run: "(session_step P)\<^sup>*\<^sup>* co (receive_all P co answers)"
proof (induction P co answers rule: receive_all.induct)
  case (2 P co sid q answers)
  have "session_step P co (fst (receive_signature P co sid q))"
    by (rule session_step.answer[of _ _ sid q _ "snd (receive_signature P co sid q)"]) simp
  with 2 show ?case by simp
qed simp

lemma threshold_of_answers:
  assumes "combiner_ok P" "federation_ok L f" "own_answers own (coordinator_new f p) answers"
    and "unat (fd_threshold f) \<le> length answers"
  shows "co_signed (receive_all P (coordinator_new f p) answers) = fst ` set answers
    \<and> is_complete (receive_all P (coordinator_new f p) answers) = Ok True"
proof -
  let ?co = "receive_all P (coordinator_new f p) answers"
  have co: "co_signed ?co = fst ` set answers" "co_federation ?co = f"
    using receive_all_records[OF assms(1,3)] by (simp_all add: coordinator_new_def)
  have "card (fst ` set answers) = length answers"
    using assms(3) by (metis distinct_card own_answers_def length_map list.set_map)
  moreover have "fst a \<in> sg_id ` set (fd_signers f)" if "a \<in> set answers" for a
    using own_answer_member[of f "into_psbt p" "own (fst a)" a] that assms(3) by (auto simp: own_answers_def coordinator_new_def)
  then have "signed_members ?co" by (auto simp: signed_members_def co)
  ultimately show ?thesis using is_complete_eq(1)[of L ?co] assms(2,4) co by simp
qed

section \<open>Properties\<close>

text \<open>
C2: What was approved is what the network gets: if the outputs of the unsigned PSBT pass the check, then after
any signing session, whatever the signers answered, a transaction that the coordinator finalizes
pays the approved outputs, each as often as approved, and beyond them only the wallet's own change.\<close>

theorem approved_outputs_finalized:
  assumes "psbt_lib_ok P" "extraction_ok P" "verify_psbt_outputs S (into_psbt p) approved is_change = Ok ()"
    and "(session_step P)\<^sup>*\<^sup>* (coordinator_new f p) co" "finalize P w opts co = Ok fin"
  shows "mset (map approved_out approved) \<subseteq># mset (tx_output (fp_transaction fin))
    \<and> (\<forall>out \<in># mset (tx_output (fp_transaction fin)) - mset (map approved_out approved). is_change (txo_script out))"
proof -
  have "tx_output (fp_transaction fin) = tx_output (unsigned_tx (into_psbt p))"
    using finalize_outputs[OF assms(2,5)] session_run[OF assms(1,4)] by simp
  with assms(3) show ?thesis by (simp add: verify_outputs_exact)
qed

text \<open>
C11: A signing session can always be completed: when as many distinct members as the threshold answer, in any
order, each with a PSBT of this transaction that carries a signature by a key of its own, and no two of
the PSBTs contradict each other about the source of an extended key, then every one of them is recorded
and the session is complete.\<close>

theorem session_completes:
  assumes "combiner_ok P" "federation_ok L f" "own_answers own (coordinator_new f p) answers"
    and "unat (fd_threshold f) \<le> length answers"
  shows "co_signed (receive_all P (coordinator_new f p) answers) = fst ` set answers
    \<and> is_complete (receive_all P (coordinator_new f p) answers) = Ok True"
  by (rule threshold_of_answers[OF assms])

text \<open>Witnesses.\<close>

lemma demo_extraction_ok: "extraction_ok demo_psbt_lib"
  by (simp add: extraction_ok_def demo_psbt_lib_def)

lemma demo_combiner_ok: "combiner_ok demo_psbt_lib"
  unfolding combiner_ok_def by (auto simp: demo_psbt_lib_def sig_keys_def demo_merge_def) force+

definition demo_payment :: "(btc_public_key \<times> bytes) list \<Rightarrow> psbt" where
  "demo_payment sigs = (demo_session_psbt sigs [])\<lparr>unsigned_tx :=
     \<lparr>tx_version = 2, tx_lock_time = 0, tx_input = [], tx_output = [\<lparr>txo_value = 5, txo_script = [1]\<rparr>]\<rparr>\<rparr>"

definition demo_answers :: "(signer_id \<times> psbt) list" where
  "demo_answers = [(SignerId ''b'', demo_payment [(demo_key 1, [])]), (SignerId ''a'', demo_payment [(demo_key 9, [])])]"

definition demo_start :: coordinator where
  "demo_start = coordinator_new demo_federation (UnsignedPsbt (demo_payment []))"

lemma demo_own_answers:
  "own_answers (\<lambda>sid. (0, demo_key (if sid = SignerId ''a'' then 9 else 1))) demo_start demo_answers"
  by (simp add: own_answers_def own_answer_def demo_answers_def demo_start_def demo_payment_def sig_keys_def session_eval)

theorem session_completes_witness:
  "is_complete (receive_all demo_psbt_lib demo_start demo_answers) = Ok True"
  using session_completes[OF demo_combiner_ok demo_federation_ok demo_own_answers[unfolded demo_start_def]]
  by (simp add: demo_start_def) (simp add: demo_answers_def demo_federation_def)

theorem approved_outputs_finalized_witness:
  "\<exists>fin. finalize demo_psbt_lib () () (receive_all demo_psbt_lib demo_start demo_answers) = Ok fin
     \<and> \<lparr>txo_value = 5, txo_script = [1]\<rparr> \<in># mset (tx_output (fp_transaction fin))"
proof -
  let ?co = "receive_all demo_psbt_lib demo_start demo_answers"
  have "is_complete ?co = Ok True"
    using receive_all_records[OF demo_combiner_ok demo_own_answers]
    by (simp add: is_complete_def signatures_collected_def Let_def demo_start_def coordinator_new_def)
      (simp add: demo_answers_def demo_federation_def)
  then obtain fin where fin: "finalize demo_psbt_lib () () ?co = Ok fin"
    by (simp add: finalize_def demo_psbt_lib_def)
  have "verify_psbt_outputs demo_show (into_psbt (UnsignedPsbt (demo_payment []))) [\<lparr>eo_script = [1], eo_amount = 5\<rparr>] (\<lambda>_. False) = Ok ()"
    by (simp add: verify_outputs_exact demo_payment_def approved_out_def)
  from approved_outputs_finalized[OF demo_psbt_lib_ok demo_extraction_ok this
      receive_all_run[of demo_psbt_lib demo_start demo_answers, unfolded demo_start_def]] fin
  show ?thesis by (auto simp: demo_start_def approved_out_def)
qed

end
