(* ===== verification/Relay.thy ===== *)
theory Relay
  imports Roster Signing
begin

text \<open>
  \<open>historic_versions_at_risk\<close> of \<open>src/roster.rs\<close> read against the signing coordinator of
  \<open>src/psbt.rs\<close>. A late payment to an old version of the federation is relayed by a session of
  that version, with its threshold and its members. The warning is exact: a version that is not
  reported can be relayed by those of its members who stay active, and the session of one that is
  reported is never finalized on their answers alone.
\<close>

section \<open>A version and its members\<close>

text \<open>The roster knows a version by its members' user ids, the federation by its signers; \<open>who\<close>
  gives the signer that a user holds in this version.\<close>

definition version_of :: "(uuid \<Rightarrow> signer_id) \<Rightarrow> federation \<Rightarrow> historic_version \<Rightarrow> bool" where
  "version_of who f v \<longleftrightarrow> distinct (hv_members v) \<and> inj_on who (set (hv_members v))
     \<and> who ` set (hv_members v) = sg_id ` set (fd_signers f) \<and> hv_threshold v = fd_threshold f"

definition remaining :: "uuid list \<Rightarrow> historic_version \<Rightarrow> uuid list" where
  "remaining active v = filter (\<lambda>u. u \<in> set active) (hv_members v)"

lemma set_remaining [simp]: "set (remaining active v) = set (hv_members v) \<inter> set active"
  by (auto simp: remaining_def)

lemma at_risk_remaining:
  assumes "i < length historic"
  shows "i \<in> set (historic_versions_at_risk historic active) \<longleftrightarrow>
    length (remaining active (historic ! i)) < unat (hv_threshold (historic ! i))"
  using assms by (simp add: at_risk_iff remaining_def)

section \<open>Sessions of answers alone\<close>

text \<open>A session that only receives answers records nobody but their senders, all of them members.\<close>

lemma receive_all_senders:
  "co_signed (receive_all P co answers) \<subseteq> co_signed co \<union> fst ` set answers
    \<and> co_federation (receive_all P co answers) = co_federation co"
proof (induction answers arbitrary: co)
  case (Cons a answers)
  obtain sid q where a: "a = (sid, q)" by fastforce
  obtain co' r where r: "receive_signature P co sid q = (co', r)" by fastforce
  have "co_signed co' \<subseteq> insert sid (co_signed co) \<and> co_federation co' = co_federation co"
  proof (cases "r = Ok ()")
    case True
    with r show ?thesis by (auto simp: receive_Ok)
  qed (use receive_error[OF r] in auto)
  with Cons.IH[of co'] show ?case by (auto simp: a r)
qed simp

lemma receive_all_members: "signed_members co \<Longrightarrow> signed_members (receive_all P co answers)"
proof (induction answers arbitrary: co)
  case (Cons a answers)
  obtain sid q where a: "a = (sid, q)" by fastforce
  obtain co' r where r: "receive_signature P co sid q = (co', r)" by fastforce
  have "signed_members co'"
  proof (cases "r = Ok ()")
    case True
    with r obtain s merged where s: "find_signer (co_federation co) sid = Some s"
      and co': "co' = co\<lparr>co_psbt := merged, co_signed := insert sid (co_signed co)\<rparr>"
      by (auto simp: receive_Ok)
    from find_signer_Some[OF s] co' Cons.prems show ?thesis by (auto simp: signed_members_def)
  qed (use receive_error[OF r] Cons.prems in auto)
  with Cons.IH show ?case by (simp add: a r)
qed simp

text \<open>Whatever active users answer, a session of an old version records at most those of its members
  who remain.\<close>

lemma active_answers_bound:
  assumes "version_of who f v" "inj_on who (set (hv_members v) \<union> set active)" "fst ` set answers \<subseteq> who ` set active"
  shows "card (co_signed (receive_all P (coordinator_new f p) answers)) \<le> length (remaining active v)"
proof -
  let ?co = "receive_all P (coordinator_new f p) answers"
  have "co_signed ?co \<subseteq> who ` set active"
    using receive_all_senders[of P "coordinator_new f p" answers] assms(3) by (auto simp: coordinator_new_def)
  moreover have "co_signed ?co \<subseteq> who ` set (hv_members v)"
    using receive_all_members[OF signed_members_start, of P f p answers] assms(1)
      receive_all_senders[of P "coordinator_new f p" answers]
    by (simp add: signed_members_def version_of_def coordinator_new_def)
  ultimately have "co_signed ?co \<subseteq> who ` set (remaining active v)"
    using inj_on_image_Int[OF assms(2), of "set (hv_members v)" "set active"] by auto
  then have "card (co_signed ?co) \<le> card (who ` set (remaining active v))" by (rule card_mono[rotated]) simp
  also have "\<dots> \<le> length (remaining active v)" by (metis card_image_le card_length le_trans List.finite_set)
  finally show ?thesis .
qed

section \<open>Properties\<close>

text \<open>
C12: An old version that the roster check does not report can still be relayed by active users alone: when
those of its members who remain active answer, each with a signature by a key of their own and without
contradicting each other about an extended key, the session is complete.\<close>

theorem unreported_version_relays:
  assumes "combiner_ok P" "federation_ok L f" "version_of who f (historic ! i)"
    and "i < length historic" "i \<notin> set (historic_versions_at_risk historic active)"
    and "own_answers own (coordinator_new f p) (map (\<lambda>u. (who u, answer u)) (remaining active (historic ! i)))"
  shows "is_complete (receive_all P (coordinator_new f p) (map (\<lambda>u. (who u, answer u)) (remaining active (historic ! i)))) = Ok True"
proof -
  let ?answers = "map (\<lambda>u. (who u, answer u)) (remaining active (historic ! i))"
  have "unat (fd_threshold f) \<le> length ?answers"
    using assms(3-5) by (simp add: at_risk_remaining version_of_def not_less)
  from threshold_of_answers[OF assms(1,2,6) this] show ?thesis by simp
qed

text \<open>
C13: An old version that the roster check reports cannot be relayed by active users alone: whatever they answer,
in whatever order and how often, the session of that version is refused finalization for lack of
signatures.\<close>

theorem reported_version_stuck:
  assumes "federation_ok L f" "version_of who f (historic ! i)" "i \<in> set (historic_versions_at_risk historic active)"
    and "inj_on who (set (hv_members (historic ! i)) \<union> set active)" "fst ` set answers \<subseteq> who ` set active"
  shows "\<exists>k < unat (fd_threshold f). finalize P w opts (receive_all P (coordinator_new f p) answers)
    = Err (InsufficientSignatures k (unat (fd_threshold f)))"
proof -
  let ?co = "receive_all P (coordinator_new f p) answers"
  have co: "co_federation ?co = f" "signed_members ?co"
    using receive_all_senders[of P "coordinator_new f p" answers] receive_all_members[OF signed_members_start]
    by (auto simp: coordinator_new_def)
  have i: "i < length historic" using assms(3) by (simp add: at_risk_iff)
  have few: "card (co_signed ?co) < unat (fd_threshold f)"
    using active_answers_bound[OF assms(2,4,5), of P p] assms(3) assms(2)
    by (simp add: at_risk_remaining[OF i] version_of_def)
  with is_complete_eq(1)[of L ?co] assms(1) co show ?thesis
    by (intro exI[of _ "card (co_signed ?co)"]) (simp add: finalize_def signatures_collected_def)
qed

text \<open>Witnesses: the demo federation as an old version of the users 2 and 1. With user 3 joining, both stay; with
  user 3 in place of user 2, only one does.\<close>

definition demo_who :: "uuid \<Rightarrow> signer_id" where
  "demo_who u = SignerId (if u = 1 then ''a'' else if u = 2 then ''b'' else ''c'')"

definition demo_version :: historic_version where
  "demo_version = \<lparr>hv_members = [2, 1], hv_threshold = 2\<rparr>"

definition demo_answer :: "uuid \<Rightarrow> psbt" where
  "demo_answer u = demo_payment [(demo_key (if u = 1 then 9 else 1), [])]"

lemma demo_version_of: "version_of demo_who demo_federation demo_version"
  by (auto simp: version_of_def demo_version_def demo_who_def demo_federation_def demo_signer_def)

lemma demo_plans:
  "compute_roster_plan rev rev rev [1, 2] [3] [] = Ok \<lparr>next_members = [1, 2, 3], changes = [(1, Keep), (2, Keep), (3, Add)]\<rparr>"
  "compute_roster_plan rev rev rev [1, 2] [3] [2] = Ok \<lparr>next_members = [1, 3], changes = [(1, Keep), (2, Remove), (3, Add)]\<rparr>"
  "historic_versions_at_risk [demo_version] [1, 2, 3] = []"
  "historic_versions_at_risk [demo_version] [1, 3] = [0]"
  unfolding demo_version_def by code_simp+

theorem unreported_version_relays_witness:
  "is_complete (receive_all demo_psbt_lib demo_start demo_answers) = Ok True"
proof -
  have answers: "map (\<lambda>u. (demo_who u, demo_answer u)) (remaining [1, 2, 3] demo_version) = demo_answers"
    by (simp add: remaining_def demo_version_def demo_who_def demo_answer_def demo_answers_def)
  show ?thesis
    using unreported_version_relays[OF demo_combiner_ok demo_federation_ok, of demo_who "[demo_version]" 0 "[1, 2, 3]"
        "\<lambda>sid. (0, demo_key (if sid = SignerId ''a'' then 9 else 1))" "UnsignedPsbt (demo_payment [])" demo_answer]
      demo_version_of demo_plans(3) demo_own_answers
    by (simp add: answers flip: demo_start_def)
qed

theorem reported_version_stuck_witness:
  "\<exists>k < 2. finalize demo_psbt_lib () () (receive_all demo_psbt_lib demo_start [(SignerId ''a'', demo_answer 1)])
     = Err (InsufficientSignatures k 2)"
proof -
  have "inj_on demo_who (set (hv_members demo_version) \<union> set [1, 3])"
    by (auto simp: inj_on_def demo_who_def demo_version_def)
  with reported_version_stuck[OF demo_federation_ok, of demo_who "[demo_version]" 0 "[1, 3]" "[(SignerId ''a'', demo_answer 1)]"
      demo_psbt_lib "()" "()" "UnsignedPsbt (demo_payment [])"]
  show ?thesis
    by (simp add: demo_version_of demo_plans(4) flip: demo_start_def) (simp add: demo_who_def demo_federation_def)
qed

end
