(* ===== verification/Migration.thy ===== *)
theory Migration
  imports Chain_Types
begin

text \<open>
  \<open>src/migration.rs\<close>: the sweep planners. \<open>afa_plan\<close> is
  \<open>AccountForAccountSweep::plan\<close> (one transaction), \<open>batched_plan\<close> is
  \<open>AccountForAccountBatchedSweep::plan\<close> (a chain of transactions, each funded by the fee
  change of the one before, then the fee account itself).

  \<open>Amount\<close>'s checked operators, \<open>Weight::from_vb\<close> and \<open>FeeRate::fee_wu\<close>
  are the bitcoin crate's and come as the argument \<open>A\<close>; \<open>None\<close> from
  \<open>amt_add\<close> or \<open>amt_sub\<close> is the panic of the operator. \<open>amount_lib_ok\<close>
  is what the crate documents of the operators.
\<close>

section \<open>Plans\<close>

datatype sweep_output =
    Customer (so_account: u32) address (so_amount: amount)
  | FeeChange (so_account: u32) (so_amount: amount)

record 'p sweep_transaction =
  source_utxos :: "outpoint list"
  sweep_outputs :: "sweep_output list"
  is_fee_final :: bool
  sweep_psbt :: "'p option"

record 'p migration_plan =
  sweep_transactions :: "'p sweep_transaction list"
  total_fees :: amount
  utxo_count :: nat

record account_utxo_set =
  account_idx :: u32
  utxos :: "local_output list"
  destination_address :: address

record amount_lib =
  amt_add :: "amount \<Rightarrow> amount \<Rightarrow> amount option"
  amt_sub :: "amount \<Rightarrow> amount \<Rightarrow> amount option"
  weight_from_vb :: "u64 \<Rightarrow> u64 option"
  fee_wu :: "fee_rate \<Rightarrow> u64 \<Rightarrow> amount option"

fun fold_amounts :: "amount_lib \<Rightarrow> amount \<Rightarrow> amount list \<Rightarrow> (amount, migration_error) result" where
  "fold_amounts A acc [] = Ok acc"
| "fold_amounts A acc (v # vs) = and_then (expect (amt_add A acc v)) (\<lambda>acc'. fold_amounts A acc' vs)"

definition total_value :: "amount_lib \<Rightarrow> account_utxo_set \<Rightarrow> (amount, migration_error) result" where
  "total_value A a = fold_amounts A 0 (map (\<lambda>u. txo_value (lo_txout u)) (utxos a))"

definition ensure_same_network :: "network_type \<Rightarrow> network_type \<Rightarrow> (unit, migration_error) result" where
  "ensure_same_network old new = (if old \<noteq> new then Err (Me_NetworkMismatch old new) else Ok ())"

text \<open>The virtual size is \<open>u64\<close> arithmetic, wrapping as in a release build.\<close>

definition estimate_fee :: "amount_lib \<Rightarrow> nat \<Rightarrow> nat \<Rightarrow> fee_rate \<Rightarrow> amount" where
  "estimate_fee A input_count output_count rate =
     (let total_vb = 10 + of_nat input_count * 105 + of_nat output_count * 32 :: u64;
          weight = (case weight_from_vb A total_vb of None \<Rightarrow> 0 | Some w \<Rightarrow> w)
      in case fee_wu A rate weight of None \<Rightarrow> 0 | Some f \<Rightarrow> f)"

definition missing_fee_account :: "u32 \<Rightarrow> migration_error" where
  "missing_fee_account fee_idx =
     InvalidConfig (''fee account index '' @ dec (unat fee_idx) @ '' not found in input set or has no UTXOs'')"

section \<open>One transaction for all accounts\<close>

definition afa_output :: "amount_lib \<Rightarrow> u32 \<Rightarrow> amount \<Rightarrow> account_utxo_set \<Rightarrow> (sweep_output, migration_error) result" where
  "afa_output A fee_idx fee a =
     (if account_idx a = fee_idx then
        and_then (total_value A a) (\<lambda>v.
        and_then (expect (amt_sub A v fee)) (\<lambda>rest.
        Ok (FeeChange (account_idx a) rest)))
      else
        and_then (total_value A a) (\<lambda>v.
        Ok (Customer (account_idx a) (destination_address a) v)))"

definition afa_plan :: "amount_lib \<Rightarrow> u32 \<Rightarrow> account_utxo_set list \<Rightarrow> network_type \<Rightarrow> network_type \<Rightarrow> fee_rate \<Rightarrow>
    (unsigned_psbt migration_plan, migration_error) result" where
  "afa_plan A fee_idx accts old new rate =
     and_then (ensure_same_network old new) (\<lambda>_.
     let funded = filter (\<lambda>a. utxos a \<noteq> []) accts in
     if funded = [] then Err NoUtxos else
     and_then (ok_or (missing_fee_account fee_idx) (List.find (\<lambda>a. account_idx a = fee_idx) funded)) (\<lambda>fee_account.
     let total_inputs = sum_list (map (\<lambda>a. length (utxos a)) funded);
         fee = estimate_fee A total_inputs (length funded) rate in
     and_then (total_value A fee_account) (\<lambda>fee_account_value.
     if fee_account_value < fee then Err (InsufficientFeeBalance fee_idx fee_account_value fee) else
     let sources = concat (map (\<lambda>a. map lo_outpoint (utxos a)) funded) in
     and_then (result_map (afa_output A fee_idx fee) funded) (\<lambda>outs.
     Ok \<lparr>sweep_transactions =
            [\<lparr>source_utxos = sources, sweep_outputs = outs, is_fee_final = True, sweep_psbt = None\<rparr>],
         total_fees = fee,
         utxo_count = total_inputs\<rparr>))))"

section \<open>A chain of transactions\<close>

record batched_plan_state =
  bs_transactions :: "unsigned_psbt sweep_transaction list"
  bs_utxo_count :: nat
  bs_cumulative_fee :: amount

definition synthetic_change_outpoint :: "nat \<Rightarrow> outpoint" where
  "synthetic_change_outpoint i = \<lparr>op_txid = 0, op_vout = of_nat i\<rparr>"

text \<open>Indexing a slice panics out of range.\<close>

definition index_slice :: "'a list \<Rightarrow> nat \<Rightarrow> ('a, migration_error) result" where
  "index_slice xs i = (if i < length xs then Ok (xs ! i) else Panic)"

definition batched_estimate_total_fees ::
    "amount_lib \<Rightarrow> account_utxo_set list \<Rightarrow> account_utxo_set list \<Rightarrow> nat \<Rightarrow> fee_rate \<Rightarrow> (amount, migration_error) result" where
  "batched_estimate_total_fees A large small fee_account_utxo_count rate =
     and_then (fold_amounts A 0 (map (\<lambda>a. estimate_fee A (length (utxos a) + 1) 2 rate) large)) (\<lambda>total.
     and_then (if small \<noteq> [] then
                 let small_input_count = sum_list (map (\<lambda>a. length (utxos a)) small) + 1
                 in expect (amt_add A total (estimate_fee A small_input_count (length small + 1) rate))
               else Ok total) (\<lambda>total.
     expect (amt_add A total (estimate_fee A fee_account_utxo_count 1 rate))))"

text \<open>One pass of the loop of \<open>plan_large_accounts\<close>, then the loop, with the index
  \<open>tx_idx\<close> as an argument.\<close>

definition plan_large_step ::
    "amount_lib \<Rightarrow> outpoint list \<Rightarrow> amount \<Rightarrow> u32 \<Rightarrow> fee_rate \<Rightarrow> nat \<Rightarrow> account_utxo_set \<Rightarrow> batched_plan_state \<Rightarrow>
     (batched_plan_state, migration_error) result" where
  "plan_large_step A fee_utxos initial fee_idx rate tx_idx acct st =
     (let acct_inputs = length (utxos acct);
          tx_fee = estimate_fee A (acct_inputs + 1) 2 rate;
          source = map lo_outpoint (utxos acct) in
      and_then (if tx_idx = 0 then index_slice fee_utxos 0
                else Ok (synthetic_change_outpoint (tx_idx - 1))) (\<lambda>link.
      and_then (if tx_idx = 0 then Ok initial
                else expect (amt_sub A initial (bs_cumulative_fee st))) (\<lambda>fee_input_value.
      and_then (expect (amt_add A (bs_cumulative_fee st) tx_fee)) (\<lambda>cumulative.
      and_then (total_value A acct) (\<lambda>v.
      and_then (expect (amt_sub A fee_input_value tx_fee)) (\<lambda>change.
      Ok \<lparr>bs_transactions = bs_transactions st @
             [\<lparr>source_utxos = source @ [link],
               sweep_outputs = [Customer (account_idx acct) (destination_address acct) v,
                                FeeChange fee_idx change],
               is_fee_final = False, sweep_psbt = None\<rparr>],
          bs_utxo_count = bs_utxo_count st + (acct_inputs + 1),
          bs_cumulative_fee = cumulative\<rparr>))))))"

fun plan_large_accounts ::
    "amount_lib \<Rightarrow> outpoint list \<Rightarrow> amount \<Rightarrow> u32 \<Rightarrow> fee_rate \<Rightarrow> nat \<Rightarrow> account_utxo_set list \<Rightarrow> batched_plan_state \<Rightarrow>
     (batched_plan_state, migration_error) result" where
  "plan_large_accounts A fee_utxos initial fee_idx rate tx_idx [] st = Ok st"
| "plan_large_accounts A fee_utxos initial fee_idx rate tx_idx (acct # large) st =
     and_then (plan_large_step A fee_utxos initial fee_idx rate tx_idx acct st) (\<lambda>st'.
     plan_large_accounts A fee_utxos initial fee_idx rate (tx_idx + 1) large st')"

definition plan_small_bundle ::
    "amount_lib \<Rightarrow> outpoint list \<Rightarrow> amount \<Rightarrow> u32 \<Rightarrow> fee_rate \<Rightarrow> nat \<Rightarrow> account_utxo_set list \<Rightarrow> batched_plan_state \<Rightarrow>
     (batched_plan_state, migration_error) result" where
  "plan_small_bundle A fee_utxos initial fee_idx rate preceding small st =
     (let small_inputs = sum_list (map (\<lambda>a. length (utxos a)) small);
          tx_fee = estimate_fee A (small_inputs + 1) (length small + 1) rate;
          source = concat (map (\<lambda>a. map lo_outpoint (utxos a)) small) in
      and_then (if preceding = 0 then index_slice fee_utxos 0
                else Ok (synthetic_change_outpoint (preceding - 1))) (\<lambda>link.
      and_then (if preceding = 0 then Ok initial
                else expect (amt_sub A initial (bs_cumulative_fee st))) (\<lambda>fee_input_value.
      and_then (expect (amt_add A (bs_cumulative_fee st) tx_fee)) (\<lambda>cumulative.
      and_then (result_map (\<lambda>a. and_then (total_value A a) (\<lambda>v.
                  Ok (Customer (account_idx a) (destination_address a) v))) small) (\<lambda>outs.
      and_then (expect (amt_sub A fee_input_value tx_fee)) (\<lambda>change.
      Ok \<lparr>bs_transactions = bs_transactions st @
             [\<lparr>source_utxos = source @ [link],
               sweep_outputs = outs @ [FeeChange fee_idx change],
               is_fee_final = False, sweep_psbt = None\<rparr>],
          bs_utxo_count = bs_utxo_count st + (small_inputs + 1),
          bs_cumulative_fee = cumulative\<rparr>))))))"

text \<open>\<open>partition\<close> evaluates the balance of every account, which may panic.\<close>

fun partition_accounts :: "amount_lib \<Rightarrow> amount \<Rightarrow> account_utxo_set list \<Rightarrow>
    (account_utxo_set list \<times> account_utxo_set list, migration_error) result" where
  "partition_accounts A limit [] = Ok ([], [])"
| "partition_accounts A limit (a # accts) =
     and_then (total_value A a) (\<lambda>v.
     and_then (partition_accounts A limit accts) (\<lambda>(large, small).
     Ok (if limit \<le> v then (a # large, small) else (large, a # small))))"

text \<open>The part of \<open>plan\<close> after the pre-flight check.\<close>

definition plan_chain ::
    "amount_lib \<Rightarrow> u32 \<Rightarrow> fee_rate \<Rightarrow> account_utxo_set \<Rightarrow> amount \<Rightarrow> amount \<Rightarrow>
     account_utxo_set list \<Rightarrow> account_utxo_set list \<Rightarrow> (unsigned_psbt migration_plan, migration_error) result" where
  "plan_chain A fee_idx rate fee_account fee_account_total initial large small =
     (let fee_utxos = map lo_outpoint (utxos fee_account) in
      and_then (plan_large_accounts A fee_utxos initial fee_idx rate 0 large
                  \<lparr>bs_transactions = [], bs_utxo_count = 0, bs_cumulative_fee = 0\<rparr>) (\<lambda>st.
      and_then (if small \<noteq> [] then
                  plan_small_bundle A fee_utxos initial fee_idx rate (length large) small st
                else Ok st) (\<lambda>st.
      let fee_migration_fee = estimate_fee A (length (utxos fee_account)) 1 rate in
      and_then (expect (amt_add A (bs_cumulative_fee st) fee_migration_fee)) (\<lambda>cumulative.
      and_then (if bs_transactions st \<noteq> [] then
                  (if fee_utxos = [] then Panic
                   else Ok (tl fee_utxos @ [synthetic_change_outpoint (length (bs_transactions st) - 1)]))
                else Ok fee_utxos) (\<lambda>fee_source.
      and_then (expect (amt_sub A fee_account_total cumulative)) (\<lambda>remaining.
      Ok \<lparr>sweep_transactions = bs_transactions st @
             [\<lparr>source_utxos = fee_source, sweep_outputs = [FeeChange fee_idx remaining],
               is_fee_final = True, sweep_psbt = None\<rparr>],
          total_fees = cumulative,
          utxo_count = bs_utxo_count st + length fee_source\<rparr>))))))"

definition batched_plan ::
    "amount_lib \<Rightarrow> u32 \<Rightarrow> amount \<Rightarrow> account_utxo_set list \<Rightarrow> network_type \<Rightarrow> network_type \<Rightarrow> fee_rate \<Rightarrow>
     (unsigned_psbt migration_plan, migration_error) result" where
  "batched_plan A fee_idx limit accts old new rate =
     and_then (ensure_same_network old new) (\<lambda>_.
     let funded = filter (\<lambda>a. utxos a \<noteq> []) accts in
     if funded = [] then Err NoUtxos else
     and_then (ok_or (missing_fee_account fee_idx) (List.find (\<lambda>a. account_idx a = fee_idx) funded)) (\<lambda>fee_account.
     and_then (total_value A fee_account) (\<lambda>fee_account_total.
     and_then (index_slice (utxos fee_account) 0) (\<lambda>first.
     let initial = txo_value (lo_txout first);
         non_fee = filter (\<lambda>a. account_idx a \<noteq> fee_idx) funded in
     and_then (partition_accounts A limit non_fee) (\<lambda>(large, small).
     and_then (batched_estimate_total_fees A large small (length (utxos fee_account)) rate) (\<lambda>planned_fees.
     if fee_account_total < planned_fees
     then Err (InsufficientFeeBalance fee_idx fee_account_total planned_fees)
     else plan_chain A fee_idx rate fee_account fee_account_total initial large small))))))"

section \<open>Exact amounts\<close>

text \<open>21 million bitcoin, in satoshi. Below it \<open>Amount\<close> addition is exact; subtraction
  is exact, and panics on a negative result.\<close>

definition max_money :: nat where
  "max_money = 21 * 10 ^ 14"

definition amount_lib_ok :: "amount_lib \<Rightarrow> bool" where
  "amount_lib_ok A \<longleftrightarrow>
     (\<forall>a b. unat a + unat b \<le> max_money \<longrightarrow> amt_add A a b = Some (a + b)) \<and>
     (\<forall>a b. amt_sub A a b = (if b \<le> a then Some (a - b) else None))"

lemma max_money_word: "n \<le> max_money \<Longrightarrow> n < 2 ^ 64"
  by (simp add: max_money_def)

lemma unat_of_money [simp]: "n \<le> max_money \<Longrightarrow> unat (of_nat n :: amount) = n"
  using max_money_word[of n] by (simp add: unat_of_nat take_bit_nat_eq_self)

lemma unat_add_money:
  "unat (a :: amount) + unat b \<le> max_money \<Longrightarrow> unat (a + b) = unat a + unat b"
  using max_money_word by (simp add: unat_word_ariths(1))

lemma amt_add_ok: "amount_lib_ok A \<Longrightarrow> unat a + unat b \<le> max_money \<Longrightarrow> amt_add A a b = Some (a + b)"
  by (simp add: amount_lib_ok_def)

lemma amt_sub_ok: "amount_lib_ok A \<Longrightarrow> amt_sub A a b = (if b \<le> a then Some (a - b) else None)"
  by (simp add: amount_lib_ok_def)

lemma fold_amounts_ok:
  assumes "amount_lib_ok A"
  shows "unat acc + sum_list (map unat vs) \<le> max_money \<Longrightarrow>
    fold_amounts A acc vs = Ok (acc + sum_list vs) \<and> unat (acc + sum_list vs) = unat acc + sum_list (map unat vs)"
proof (induction vs arbitrary: acc)
  case (Cons v vs)
  then have b: "unat acc + unat v \<le> max_money" by simp
  from Cons.IH[of "acc + v"] Cons.prems show ?case
    by (simp add: amt_add_ok[OF assms b] unat_add_money[OF b] add.assoc[symmetric])
qed simp

text \<open>What an account holds.\<close>

definition account_value :: "account_utxo_set \<Rightarrow> nat" where
  "account_value a = sum_list (map (\<lambda>u. unat (txo_value (lo_txout u))) (utxos a))"

definition funds :: "account_utxo_set list \<Rightarrow> nat" where
  "funds accts = sum_list (map account_value accts)"

lemma account_value_le: "a \<in> set accts \<Longrightarrow> account_value a \<le> funds accts"
  unfolding funds_def by (induction accts) auto

lemma funds_filter_le: "funds (filter P accts) \<le> funds accts"
  unfolding funds_def by (induction accts) auto

lemma funds_filter_split: "funds (filter P accts) + funds (filter (\<lambda>a. \<not> P a) accts) = funds accts"
  unfolding funds_def by (induction accts) auto

lemma total_value_ok:
  assumes "amount_lib_ok A" "account_value a \<le> max_money"
  shows "total_value A a = Ok (of_nat (account_value a))"
proof -
  let ?vs = "map (\<lambda>u. txo_value (lo_txout u)) (utxos a)"
  have n: "sum_list (map unat ?vs) = account_value a"
    by (simp add: account_value_def comp_def)
  then have "total_value A a = Ok (sum_list ?vs)" and "unat (sum_list ?vs) = account_value a"
    using assms(2) by (simp_all add: total_value_def fold_amounts_ok[OF assms(1), of 0 ?vs, simplified])
  then show ?thesis by (metis of_nat_unat ucast_id)
qed

lemma word_le_money: "unat (x :: amount) \<le> n \<Longrightarrow> n \<le> max_money \<Longrightarrow> x \<le> of_nat n"
  by (simp add: word_le_nat_alt)

text \<open>What the outputs of a list pay, in all and to customers.\<close>

definition paid :: "sweep_output list \<Rightarrow> nat" where
  "paid outs = sum_list (map (\<lambda>x. unat (so_amount x)) outs)"

fun is_customer :: "sweep_output \<Rightarrow> bool" where
  "is_customer (Customer _ _ _) = True"
| "is_customer (FeeChange _ _) = False"

text \<open>The customer output an account is due.\<close>

definition due :: "account_utxo_set \<Rightarrow> sweep_output" where
  "due a = Customer (account_idx a) (destination_address a) (of_nat (account_value a))"

lemma paid_simps [simp]:
  "paid [] = 0" "paid (x # xs) = unat (so_amount x) + paid xs" "paid (xs @ ys) = paid xs + paid ys"
  by (simp_all add: paid_def)

lemma paid_due: "(\<And>a. a \<in> set accts \<Longrightarrow> account_value a \<le> max_money) \<Longrightarrow> paid (map due accts) = funds accts"
  by (induction accts) (auto simp: due_def funds_def)

definition all_outpoints :: "account_utxo_set list \<Rightarrow> outpoint list" where
  "all_outpoints accts = concat (map (\<lambda>a. map lo_outpoint (utxos a)) accts)"

definition input_count :: "account_utxo_set list \<Rightarrow> nat" where
  "input_count accts = sum_list (map (\<lambda>a. length (utxos a)) accts)"

lemma all_outpoints_filter [simp]:
  "all_outpoints (filter (\<lambda>a. utxos a \<noteq> []) accts) = all_outpoints accts"
  unfolding all_outpoints_def by (induction accts) auto

lemma length_all_outpoints: "length (all_outpoints accts) = input_count accts"
  unfolding all_outpoints_def input_count_def by (induction accts) auto

lemma mset_all_outpoints_split:
  "mset (all_outpoints (filter P accts)) + mset (all_outpoints (filter (\<lambda>a. \<not> P a) accts)) =
   mset (all_outpoints accts)"
  unfolding all_outpoints_def by (induction accts) auto

lemma funds_funded [simp]: "funds (filter (\<lambda>a. utxos a \<noteq> []) accts) = funds accts"
  unfolding funds_def by (induction accts) (auto simp: account_value_def)

section \<open>The single-transaction plan in closed form\<close>

abbreviation funded :: "account_utxo_set list \<Rightarrow> account_utxo_set list" where
  "funded accts \<equiv> filter (\<lambda>a. utxos a \<noteq> []) accts"

lemma input_count_funded [simp]: "input_count (funded accts) = input_count accts"
  unfolding input_count_def by (induction accts) auto

definition afa_due :: "u32 \<Rightarrow> amount \<Rightarrow> account_utxo_set \<Rightarrow> sweep_output" where
  "afa_due fee_idx fee a =
     (if account_idx a = fee_idx then FeeChange fee_idx (of_nat (account_value a) - fee) else due a)"

lemma afa_due_simps:
  "account_idx a = fee_idx \<Longrightarrow> afa_due fee_idx fee a = FeeChange fee_idx (of_nat (account_value a) - fee)"
  "account_idx a \<noteq> fee_idx \<Longrightarrow> afa_due fee_idx fee a = due a"
  by (simp_all add: afa_due_def)

lemma afa_output_ok:
  assumes "amount_lib_ok A" "account_value a \<le> max_money"
    and "account_idx a = fee_idx \<Longrightarrow> unat fee \<le> account_value a"
  shows "afa_output A fee_idx fee a = Ok (afa_due fee_idx fee a)"
  using assms
  by (auto simp: afa_output_def afa_due_def due_def total_value_ok amt_sub_ok word_le_money)

lemma find_account:
  assumes "List.find (\<lambda>a. account_idx a = i) accts = Some fa" "distinct (map account_idx accts)"
  shows "fa \<in> set accts \<and> (\<forall>a \<in> set accts. account_idx a = i \<longleftrightarrow> a = fa)"
  using find_Some_iff[OF assms(1)] assms(2) by (auto simp: distinct_map inj_on_def)

lemma paid_afa_other:
  assumes "fee_idx \<notin> account_idx ` set accts" "funds accts \<le> max_money"
  shows "paid (map (afa_due fee_idx fee) accts) = funds accts"
  using assms by (induction accts) (auto simp: afa_due_def due_def funds_def)

lemma paid_afa:
  assumes "fa \<in> set accts" "distinct (map account_idx accts)" "unat fee \<le> account_value fa"
    and "account_idx fa = fee_idx" "funds accts \<le> max_money"
  shows "paid (map (afa_due fee_idx fee) accts) + unat fee = funds accts"
  using assms
proof (induction accts)
  case (Cons a accts)
  have f: "funds (a # accts) = account_value a + funds accts" by (simp add: funds_def)
  show ?case
  proof (cases "a = fa")
    case True
    with Cons.prems have "paid (map (afa_due fee_idx fee) accts) = funds accts"
      by (intro paid_afa_other) (auto simp: funds_def)
    moreover have "unat (of_nat (account_value fa) - fee) = account_value fa - unat fee"
      using Cons.prems True f by (subst unat_sub) (auto intro: word_le_money)
    ultimately show ?thesis using True Cons.prems f by (simp add: afa_due_simps(1))
  next
    case False
    with Cons.prems have "fa \<in> set accts" and "account_idx a \<noteq> fee_idx" by auto
    with Cons f show ?thesis by (simp add: afa_due_simps(2) due_def)
  qed
qed simp

lemma afa_plan_eq:
  assumes "amount_lib_ok A" "distinct (map account_idx accts)" "funds accts \<le> max_money"
  shows "afa_plan A fee_idx accts old new rate =
     (if old \<noteq> new then Err (Me_NetworkMismatch old new)
      else if funded accts = [] then Err NoUtxos
      else case List.find (\<lambda>a. account_idx a = fee_idx) (funded accts) of
        None \<Rightarrow> Err (missing_fee_account fee_idx)
      | Some fa \<Rightarrow>
          let fee = estimate_fee A (input_count accts) (length (funded accts)) rate in
          if account_value fa < unat fee
          then Err (InsufficientFeeBalance fee_idx (of_nat (account_value fa)) fee)
          else Ok \<lparr>sweep_transactions =
                     [\<lparr>source_utxos = all_outpoints accts,
                       sweep_outputs = map (afa_due fee_idx fee) (funded accts),
                       is_fee_final = True, sweep_psbt = None\<rparr>],
                   total_fees = fee, utxo_count = input_count accts\<rparr>)"
proof (cases "old = new \<and> funded accts \<noteq> []")
  case False
  then show ?thesis by (auto simp: afa_plan_def ensure_same_network_def)
next
  case ok: True
  show ?thesis
  proof (cases "List.find (\<lambda>a. account_idx a = fee_idx) (funded accts)")
    case None
    with ok show ?thesis by (simp add: afa_plan_def ensure_same_network_def)
  next
    case (Some fa)
    let ?fee = "estimate_fee A (input_count accts) (length (funded accts)) rate"
    have d: "distinct (map account_idx (funded accts))"
      using assms(2) by (simp add: distinct_map_filter)
    note fa = find_account[OF Some d]
    have v: "account_value a \<le> max_money" if "a \<in> set (funded accts)" for a
      using that account_value_le[of a accts] assms(3) by auto
    have counts: "sum_list (map (\<lambda>a. length (utxos a)) (funded accts)) = input_count accts"
      "concat (map (\<lambda>a. map lo_outpoint (utxos a)) (funded accts)) = all_outpoints accts"
      using input_count_funded[of accts] all_outpoints_filter[of accts]
      by (simp_all only: input_count_def all_outpoints_def)
    have less: "(of_nat (account_value fa) < ?fee) = (account_value fa < unat ?fee)"
      using v fa by (simp add: word_less_nat_alt)
    have outs: "result_map (afa_output A fee_idx ?fee) (funded accts) =
        (Ok (map (afa_due fee_idx ?fee) (funded accts)) :: (_, migration_error) result)"
      if "\<not> account_value fa < unat ?fee"
      using that v fa by (intro result_map_pure afa_output_ok[OF assms(1)]) auto
    show ?thesis
    proof (cases "account_value fa < unat ?fee")
      case True
      with ok Some fa v show ?thesis
        by (simp add: afa_plan_def ensure_same_network_def total_value_ok[OF assms(1)] less counts Let_def)
    next
      case False
      from ok Some fa v False outs[OF False] show ?thesis
        by (simp add: afa_plan_def ensure_same_network_def total_value_ok[OF assms(1)] less counts Let_def)
    qed
  qed
qed

end
