(* ===== verification/Migration_Chain.thy ===== *)
theory Migration_Chain
  imports Migration
begin

text \<open>
  The batched sweep of the theory \<open>Migration\<close> in closed form. A large account is a group of
  one account, the small accounts are one group; each group is one transaction of the chain
  (\<open>chain_txs\<close>), and \<open>batched_plan_eq\<close> says that the planner produces exactly the
  chain for the groups followed by the fee account's own transaction, or panics when the first UTXO
  of the fee account cannot fund the chain. The properties of the plan are properties of the
  chain.
\<close>

section \<open>The chain of transactions\<close>

definition group_fee :: "amount_lib \<Rightarrow> fee_rate \<Rightarrow> account_utxo_set list \<Rightarrow> amount" where
  "group_fee A rate g = estimate_fee A (input_count g + 1) (length g + 1) rate"

definition group_tx :: "u32 \<Rightarrow> outpoint \<Rightarrow> amount \<Rightarrow> account_utxo_set list \<Rightarrow> unsigned_psbt sweep_transaction" where
  "group_tx fee_idx link change g =
     \<lparr>source_utxos = all_outpoints g @ [link], sweep_outputs = map due g @ [FeeChange fee_idx change],
      is_fee_final = False, sweep_psbt = None\<rparr>"

fun chain_txs :: "amount_lib \<Rightarrow> u32 \<Rightarrow> fee_rate \<Rightarrow> outpoint \<Rightarrow> nat \<Rightarrow> amount \<Rightarrow> account_utxo_set list list \<Rightarrow>
    unsigned_psbt sweep_transaction list" where
  "chain_txs A fee_idx rate link i budget [] = []"
| "chain_txs A fee_idx rate link i budget (g # gs) =
     group_tx fee_idx link (budget - group_fee A rate g) g #
     chain_txs A fee_idx rate (synthetic_change_outpoint i) (i + 1) (budget - group_fee A rate g) gs"

definition chain_fees :: "amount_lib \<Rightarrow> fee_rate \<Rightarrow> account_utxo_set list list \<Rightarrow> nat" where
  "chain_fees A rate gs = sum_list (map (\<lambda>g. unat (group_fee A rate g)) gs)"

definition groups :: "account_utxo_set list \<Rightarrow> account_utxo_set list \<Rightarrow> account_utxo_set list list" where
  "groups large small = map (\<lambda>a. [a]) large @ (if small = [] then [] else [small])"

lemma chain_fees_simps [simp]:
  "chain_fees A rate [] = 0" "chain_fees A rate (g # gs) = unat (group_fee A rate g) + chain_fees A rate gs"
  "chain_fees A rate (gs @ hs) = chain_fees A rate gs + chain_fees A rate hs"
  by (simp_all add: chain_fees_def)

lemma length_chain_txs [simp]: "length (chain_txs A fee_idx rate link i budget gs) = length gs"
  by (induction gs arbitrary: link i budget) auto

section \<open>The loops build the chain\<close>

definition link_at :: "outpoint list \<Rightarrow> nat \<Rightarrow> outpoint" where
  "link_at fee_utxos i = (if i = 0 then fee_utxos ! 0 else synthetic_change_outpoint (i - 1))"

definition extend :: "amount_lib \<Rightarrow> u32 \<Rightarrow> fee_rate \<Rightarrow> outpoint list \<Rightarrow> amount \<Rightarrow> nat \<Rightarrow> account_utxo_set list list \<Rightarrow>
    batched_plan_state \<Rightarrow> batched_plan_state" where
  "extend A fee_idx rate fee_utxos initial i gs st =
     \<lparr>bs_transactions = bs_transactions st @
        chain_txs A fee_idx rate (link_at fee_utxos i) i (initial - bs_cumulative_fee st) gs,
      bs_utxo_count = bs_utxo_count st + input_count (concat gs) + length gs,
      bs_cumulative_fee = bs_cumulative_fee st + of_nat (chain_fees A rate gs)\<rparr>"

text \<open>What a state looks like at index \<open>i\<close>: the fees so far fit the first fee UTXO, and
  there are none at the start.\<close>

definition state_ok :: "amount \<Rightarrow> nat \<Rightarrow> batched_plan_state \<Rightarrow> bool" where
  "state_ok initial i st \<longleftrightarrow> bs_cumulative_fee st \<le> initial \<and> (i = 0 \<longrightarrow> bs_cumulative_fee st = 0)"

lemma fee_input:
  assumes "amount_lib_ok A" "state_ok initial i st"
  shows "(if i = 0 then Ok initial else expect (amt_sub A initial (bs_cumulative_fee st))) =
    Ok (initial - bs_cumulative_fee st)"
  using assms by (simp add: state_ok_def amt_sub_ok)

lemma fee_link:
  "fee_utxos \<noteq> [] \<Longrightarrow>
   (if i = 0 then index_slice fee_utxos 0 else Ok (synthetic_change_outpoint (i - 1))) = Ok (link_at fee_utxos i)"
  by (simp add: link_at_def index_slice_def)

lemma change_fits:
  assumes "amount_lib_ok A" "state_ok initial i st" "unat (bs_cumulative_fee st) + unat f \<le> max_money"
  shows "amt_sub A (initial - bs_cumulative_fee st) f =
    (if unat (bs_cumulative_fee st) + unat f \<le> unat initial
     then Some (initial - bs_cumulative_fee st - f) else None)"
proof -
  have "bs_cumulative_fee st \<le> initial" using assms(2) by (simp add: state_ok_def)
  then have "unat (initial - bs_cumulative_fee st) = unat initial - unat (bs_cumulative_fee st)"
      and "unat (bs_cumulative_fee st) \<le> unat initial"
    by (simp_all add: unat_sub word_le_nat_alt)
  then have "f \<le> initial - bs_cumulative_fee st \<longleftrightarrow> unat (bs_cumulative_fee st) + unat f \<le> unat initial"
    by (simp add: word_le_nat_alt) linarith
  then show ?thesis by (simp add: amt_sub_ok[OF assms(1)])
qed

lemma extend_one:
  "extend A fee_idx rate fee_utxos initial i [g] st =
     \<lparr>bs_transactions = bs_transactions st @
        [group_tx fee_idx (link_at fee_utxos i) (initial - bs_cumulative_fee st - group_fee A rate g) g],
      bs_utxo_count = bs_utxo_count st + (input_count g + 1),
      bs_cumulative_fee = bs_cumulative_fee st + group_fee A rate g\<rparr>"
  by (simp add: extend_def)

lemma input_count_append [simp]: "input_count (xs @ ys) = input_count xs + input_count ys"
  by (simp add: input_count_def)

lemma extend_Nil: "extend A fee_idx rate fee_utxos initial i [] st = st"
  by (cases st) (simp add: extend_def input_count_def)

lemma extend_Cons:
  "extend A fee_idx rate fee_utxos initial i (g # gs) st =
   extend A fee_idx rate fee_utxos initial (i + 1) gs (extend A fee_idx rate fee_utxos initial i [g] st)"
  by (simp add: extend_def link_at_def algebra_simps)

lemma chain_txs_append:
  "chain_txs A fee_idx rate link i budget (gs @ hs) =
   chain_txs A fee_idx rate link i budget gs @
   chain_txs A fee_idx rate (if gs = [] then link else synthetic_change_outpoint (i + length gs - 1))
     (i + length gs) (budget - of_nat (chain_fees A rate gs)) hs"
  by (induction gs arbitrary: link i budget) (auto simp: algebra_simps)

lemma extend_append:
  "extend A fee_idx rate fee_utxos initial i (gs @ hs) st =
   extend A fee_idx rate fee_utxos initial (i + length gs) hs (extend A fee_idx rate fee_utxos initial i gs st)"
  by (simp add: extend_def link_at_def chain_txs_append algebra_simps)

lemma state_ok_extend:
  assumes "state_ok initial i st" "unat (bs_cumulative_fee st) + chain_fees A rate gs \<le> unat initial"
    and "unat initial \<le> max_money"
  shows "unat (bs_cumulative_fee (extend A fee_idx rate fee_utxos initial i gs st)) =
      unat (bs_cumulative_fee st) + chain_fees A rate gs
    \<and> (gs \<noteq> [] \<longrightarrow> state_ok initial (i + length gs) (extend A fee_idx rate fee_utxos initial i gs st))"
proof -
  have "unat (of_nat (chain_fees A rate gs) :: amount) = chain_fees A rate gs"
    using assms(2,3) by simp
  then have "unat (bs_cumulative_fee st + of_nat (chain_fees A rate gs)) =
      unat (bs_cumulative_fee st) + chain_fees A rate gs"
    using assms(2,3) by (subst unat_add_money) simp_all
  with assms(2) show ?thesis by (simp add: extend_def state_ok_def word_le_nat_alt)
qed

lemma input_count_single: "input_count [a] = length (utxos a)"
  by (simp add: input_count_def)

lemma large_step_eq:
  assumes "amount_lib_ok A" "fee_utxos \<noteq> []" "account_value a \<le> max_money" "state_ok initial i st"
    and "unat (bs_cumulative_fee st) + unat (group_fee A rate [a]) \<le> max_money"
  shows "plan_large_step A fee_utxos initial fee_idx rate i a st =
    (if unat (bs_cumulative_fee st) + unat (group_fee A rate [a]) \<le> unat initial
     then Ok (extend A fee_idx rate fee_utxos initial i [[a]] st) else Panic)"
proof -
  have f: "estimate_fee A (length (utxos a) + 1) 2 rate = group_fee A rate [a]"
    by (simp add: group_fee_def input_count_single numeral_2_eq_2)
  have o: "map lo_outpoint (utxos a) = all_outpoints [a]" by (simp add: all_outpoints_def)
  show ?thesis
    unfolding plan_large_step_def Let_def f o fee_link[OF assms(2)] fee_input[OF assms(1,4)] extend_one
    using change_fits[OF assms(1,4,5)] assms(3,5)
    by (simp add: amt_add_ok[OF assms(1)] total_value_ok[OF assms(1)] group_tx_def due_def input_count_single)
qed

lemma plan_large_eq:
  assumes "amount_lib_ok A" "fee_utxos \<noteq> []" "unat initial \<le> max_money"
  shows "(\<And>a. a \<in> set large \<Longrightarrow> account_value a \<le> max_money) \<Longrightarrow> state_ok initial i st \<Longrightarrow>
    unat (bs_cumulative_fee st) + chain_fees A rate (map (\<lambda>a. [a]) large) \<le> max_money \<Longrightarrow>
    plan_large_accounts A fee_utxos initial fee_idx rate i large st =
     (if unat (bs_cumulative_fee st) + chain_fees A rate (map (\<lambda>a. [a]) large) \<le> unat initial
      then Ok (extend A fee_idx rate fee_utxos initial i (map (\<lambda>a. [a]) large) st) else Panic)"
proof (induction large arbitrary: i st)
  case Nil
  then show ?case by (simp add: extend_Nil state_ok_def word_le_nat_alt)
next
  case (Cons a large)
  let ?st = "extend A fee_idx rate fee_utxos initial i [[a]] st"
  note step = large_step_eq[OF assms(1,2) _ Cons.prems(2), of a rate fee_idx]
  show ?case
  proof (cases "unat (bs_cumulative_fee st) + unat (group_fee A rate [a]) \<le> unat initial")
    case True
    then have "unat (bs_cumulative_fee ?st) = unat (bs_cumulative_fee st) + unat (group_fee A rate [a])"
        and "state_ok initial (i + 1) ?st"
      using state_ok_extend[OF Cons.prems(2), of A rate "[[a]]" fee_idx fee_utxos] assms(3) by auto
    with Cons.IH[of "i + 1" ?st] Cons.prems True step show ?thesis
      by (simp add: extend_Cons[of A fee_idx rate fee_utxos initial i "[a]" "map (\<lambda>a. [a]) large"] add.assoc)
  next
    case False
    with Cons.prems step show ?thesis by simp
  qed
qed

lemma small_bundle_eq:
  assumes "amount_lib_ok A" "fee_utxos \<noteq> []" "\<And>a. a \<in> set small \<Longrightarrow> account_value a \<le> max_money"
    and "state_ok initial i st" "unat (bs_cumulative_fee st) + unat (group_fee A rate small) \<le> max_money"
  shows "plan_small_bundle A fee_utxos initial fee_idx rate i small st =
    (if unat (bs_cumulative_fee st) + unat (group_fee A rate small) \<le> unat initial
     then Ok (extend A fee_idx rate fee_utxos initial i [small] st) else Panic)"
proof -
  have c: "sum_list (map (\<lambda>a. length (utxos a)) small) = input_count small"
    by (simp add: input_count_def)
  have f: "estimate_fee A (input_count small + 1) (length small + 1) rate = group_fee A rate small"
    by (simp add: group_fee_def)
  have o: "concat (map (\<lambda>a. map lo_outpoint (utxos a)) small) = all_outpoints small"
    by (simp add: all_outpoints_def)
  have outs: "result_map (\<lambda>a. and_then (total_value A a) (\<lambda>v.
      Ok (Customer (account_idx a) (destination_address a) v))) small = Ok (map due small)"
    using assms(3) by (intro result_map_pure) (simp add: total_value_ok[OF assms(1)] due_def)
  show ?thesis
    unfolding plan_small_bundle_def Let_def c f o fee_link[OF assms(2)] fee_input[OF assms(1,4)] extend_one outs
    using change_fits[OF assms(1,4,5)] assms(5)
    by (simp add: amt_add_ok[OF assms(1)] group_tx_def)
qed

section \<open>The whole plan\<close>

definition final_fee :: "amount_lib \<Rightarrow> fee_rate \<Rightarrow> account_utxo_set \<Rightarrow> amount" where
  "final_fee A rate fa = estimate_fee A (length (utxos fa)) 1 rate"

definition chain_plan :: "amount_lib \<Rightarrow> u32 \<Rightarrow> fee_rate \<Rightarrow> account_utxo_set \<Rightarrow> account_utxo_set list list \<Rightarrow>
    unsigned_psbt migration_plan" where
  "chain_plan A fee_idx rate fa gs =
     (let outs = map lo_outpoint (utxos fa);
          fees = chain_fees A rate gs + unat (final_fee A rate fa) in
      \<lparr>sweep_transactions =
         chain_txs A fee_idx rate (hd outs) 0 (txo_value (lo_txout (hd (utxos fa)))) gs @
         [\<lparr>source_utxos = (if gs = [] then outs else tl outs @ [synthetic_change_outpoint (length gs - 1)]),
           sweep_outputs = [FeeChange fee_idx (of_nat (account_value fa - fees))],
           is_fee_final = True, sweep_psbt = None\<rparr>],
       total_fees = of_nat fees,
       utxo_count = input_count (concat gs) + length gs + length (utxos fa)\<rparr>)"

lemma groups_Nil_iff: "groups large small = [] \<longleftrightarrow> large = [] \<and> small = []"
  by (simp add: groups_def)

text \<open>The two loops together.\<close>

definition run_groups ::
    "amount_lib \<Rightarrow> outpoint list \<Rightarrow> amount \<Rightarrow> u32 \<Rightarrow> fee_rate \<Rightarrow> account_utxo_set list \<Rightarrow> account_utxo_set list \<Rightarrow>
     (batched_plan_state, migration_error) result" where
  "run_groups A fee_utxos initial fee_idx rate large small =
     and_then (plan_large_accounts A fee_utxos initial fee_idx rate 0 large
                 \<lparr>bs_transactions = [], bs_utxo_count = 0, bs_cumulative_fee = 0\<rparr>) (\<lambda>st.
     if small \<noteq> [] then plan_small_bundle A fee_utxos initial fee_idx rate (length large) small st else Ok st)"

lemma run_groups_eq:
  assumes "amount_lib_ok A" "fee_utxos \<noteq> []" "unat initial \<le> max_money"
    and "\<And>a. a \<in> set large \<union> set small \<Longrightarrow> account_value a \<le> max_money"
    and "chain_fees A rate (groups large small) \<le> max_money"
  shows "run_groups A fee_utxos initial fee_idx rate large small =
    (if chain_fees A rate (groups large small) \<le> unat initial
     then Ok (extend A fee_idx rate fee_utxos initial 0 (groups large small)
                \<lparr>bs_transactions = [], bs_utxo_count = 0, bs_cumulative_fee = 0\<rparr>) else Panic)"
proof -
  let ?st = "\<lparr>bs_transactions = [], bs_utxo_count = 0, bs_cumulative_fee = 0\<rparr>"
  let ?ls = "map (\<lambda>a. [a]) large"
  let ?st' = "extend A fee_idx rate fee_utxos initial 0 ?ls ?st"
  have ok: "state_ok initial 0 ?st" by (simp add: state_ok_def)
  have b: "chain_fees A rate ?ls \<le> max_money" using assms(5) by (simp add: groups_def)
  have large: "plan_large_accounts A fee_utxos initial fee_idx rate 0 large ?st =
      (if chain_fees A rate ?ls \<le> unat initial then Ok ?st' else Panic)"
    using plan_large_eq[OF assms(1-3), of large 0 ?st rate fee_idx] assms(4) ok b by simp
  show ?thesis
  proof (cases "small = [] \<or> \<not> chain_fees A rate ?ls \<le> unat initial")
    case True
    then show ?thesis by (auto simp: run_groups_def large groups_def)
  next
    case False
    have c: "unat (bs_cumulative_fee ?st') = chain_fees A rate ?ls"
      using state_ok_extend[OF ok, of A rate ?ls fee_idx fee_utxos] False assms(3) by simp
    have "state_ok initial (length large) ?st'"
      using state_ok_extend[OF ok, of A rate ?ls fee_idx fee_utxos] False assms(3) ok
      by (cases "large = []") (simp_all add: extend_Nil)
    from small_bundle_eq[OF assms(1,2) _ this, of small rate fee_idx] assms(4,5) c False
    show ?thesis
      by (simp add: run_groups_def large groups_def extend_append)
  qed
qed

lemma extend_start_transactions:
  "bs_transactions (extend A fee_idx rate fee_utxos initial 0 gs
     \<lparr>bs_transactions = [], bs_utxo_count = 0, bs_cumulative_fee = 0\<rparr>) =
   chain_txs A fee_idx rate (fee_utxos ! 0) 0 initial gs"
  by (simp add: extend_def link_at_def)

lemma plan_chain_run:
  "plan_chain A fee_idx rate fa tot initial large small =
    and_then (run_groups A (map lo_outpoint (utxos fa)) initial fee_idx rate large small) (\<lambda>st.
      and_then (expect (amt_add A (bs_cumulative_fee st) (final_fee A rate fa))) (\<lambda>cumulative.
      and_then (if bs_transactions st \<noteq> [] then
                  (if map lo_outpoint (utxos fa) = [] then Panic
                   else Ok (tl (map lo_outpoint (utxos fa)) @ [synthetic_change_outpoint (length (bs_transactions st) - 1)]))
                else Ok (map lo_outpoint (utxos fa))) (\<lambda>fee_source.
      and_then (expect (amt_sub A tot cumulative)) (\<lambda>remaining.
      Ok \<lparr>sweep_transactions = bs_transactions st @
             [\<lparr>source_utxos = fee_source, sweep_outputs = [FeeChange fee_idx remaining],
               is_fee_final = True, sweep_psbt = None\<rparr>],
          total_fees = cumulative,
          utxo_count = bs_utxo_count st + length fee_source\<rparr>))))"
  unfolding plan_chain_def run_groups_def Let_def final_fee_def
  by (cases "plan_large_accounts A (map lo_outpoint (utxos fa)) initial fee_idx rate 0 large
       \<lparr>bs_transactions = [], bs_utxo_count = 0, bs_cumulative_fee = 0\<rparr> ::
       (batched_plan_state, migration_error) result") simp_all

lemma plan_chain_eq:
  assumes "amount_lib_ok A" "utxos fa \<noteq> []" "account_value fa \<le> max_money"
    and "\<And>a. a \<in> set large \<union> set small \<Longrightarrow> account_value a \<le> max_money"
    and fees: "chain_fees A rate (groups large small) + unat (final_fee A rate fa) \<le> account_value fa"
  defines "initial \<equiv> txo_value (lo_txout (hd (utxos fa)))"
  assumes "unat initial \<le> max_money"
  shows "plan_chain A fee_idx rate fa (of_nat (account_value fa)) initial large small =
    (if chain_fees A rate (groups large small) \<le> unat initial
     then Ok (chain_plan A fee_idx rate fa (groups large small)) else Panic)"
proof -
  let ?gs = "groups large small" and ?outs = "map lo_outpoint (utxos fa)"
  let ?start = "\<lparr>bs_transactions = [], bs_utxo_count = 0, bs_cumulative_fee = 0\<rparr>"
  let ?st = "extend A fee_idx rate ?outs initial 0 ?gs ?start"
  have run: "run_groups A ?outs initial fee_idx rate large small =
      (if chain_fees A rate ?gs \<le> unat initial then Ok ?st else Panic)"
    by (rule run_groups_eq[OF assms(1)]) (use assms in auto)
  show ?thesis
  proof (cases "chain_fees A rate ?gs \<le> unat initial")
    case False
    with run assms(2,3) fees show ?thesis by (simp add: plan_chain_run)
  next
    case True
    have c: "unat (bs_cumulative_fee ?st) = chain_fees A rate ?gs"
      using state_ok_extend[of initial 0 ?start A rate ?gs fee_idx ?outs] True assms(7)
      by (simp add: state_ok_def)
    then have w: "bs_cumulative_fee ?st = of_nat (chain_fees A rate ?gs)"
      by (metis of_nat_unat ucast_id)
    have add: "amt_add A (bs_cumulative_fee ?st) (final_fee A rate fa) =
        Some (of_nat (chain_fees A rate ?gs + unat (final_fee A rate fa)))"
      using fees assms(3) c by (subst amt_add_ok[OF assms(1)]) (simp_all add: w)
    have sub: "amt_sub A (of_nat (account_value fa)) (of_nat (chain_fees A rate ?gs + unat (final_fee A rate fa))) =
        Some (of_nat (account_value fa - (chain_fees A rate ?gs + unat (final_fee A rate fa))))"
      using fees assms(3) by (simp add: amt_sub_ok[OF assms(1)] word_le_nat_alt of_nat_diff del: of_nat_add)
    have "bs_transactions ?st = chain_txs A fee_idx rate (hd ?outs) 0 initial ?gs"
      using assms(2) by (simp add: extend_start_transactions hd_conv_nth)
    moreover have "bs_utxo_count ?st = input_count (concat ?gs) + length ?gs"
      by (simp add: extend_def)
    ultimately show ?thesis
      using run True assms(2,3) fees add sub
      by (auto simp add: plan_chain_run chain_plan_def Let_def initial_def[symmetric] length_0_conv[symmetric]
          simp del: length_0_conv length_greater_0_conv)
  qed
qed

lemma partition_accounts_ok:
  assumes "amount_lib_ok A"
  shows "(\<And>a. a \<in> set accts \<Longrightarrow> account_value a \<le> max_money) \<Longrightarrow>
    partition_accounts A limit accts =
      Ok (filter (\<lambda>a. unat limit \<le> account_value a) accts, filter (\<lambda>a. \<not> unat limit \<le> account_value a) accts)"
proof (induction accts)
  case (Cons a accts)
  then have "limit \<le> of_nat (account_value a) \<longleftrightarrow> unat limit \<le> account_value a"
    by (simp add: word_le_nat_alt)
  with Cons show ?case by (simp add: total_value_ok[OF assms])
qed simp

lemma preflight_ok:
  assumes "amount_lib_ok A"
    and "chain_fees A rate (groups large small) + unat (final_fee A rate fa) \<le> max_money"
  shows "batched_estimate_total_fees A large small (length (utxos fa)) rate =
    Ok (of_nat (chain_fees A rate (groups large small) + unat (final_fee A rate fa)))"
proof -
  let ?ls = "map (\<lambda>a. [a]) large"
  let ?f = "\<lambda>a. estimate_fee A (length (utxos a) + 1) 2 rate"
  have f: "group_fee A rate [a] = ?f a" for a
    by (simp add: group_fee_def input_count_single numeral_2_eq_2)
  then have s: "sum_list (map unat (map ?f large)) = chain_fees A rate ?ls"
    by (simp add: chain_fees_def comp_def)
  have b: "chain_fees A rate ?ls \<le> max_money" using assms(2) by (simp add: groups_def)
  then have "fold_amounts A 0 (map ?f large) = Ok (sum_list (map ?f large))"
      and u: "unat (sum_list (map ?f large)) = chain_fees A rate ?ls"
    using fold_amounts_ok[OF assms(1), of 0 "map ?f large"] s by simp_all
  moreover have "sum_list (map ?f large) = of_nat (chain_fees A rate ?ls)"
    using u by (metis of_nat_unat ucast_id)
  ultimately have large: "fold_amounts A 0 (map ?f large) = Ok (of_nat (chain_fees A rate ?ls))"
    by simp
  have small: "estimate_fee A (sum_list (map (\<lambda>a. length (utxos a)) small) + 1) (length small + 1) rate =
      group_fee A rate small"
    by (simp add: group_fee_def input_count_def)
  have last: "estimate_fee A (length (utxos fa)) 1 rate = final_fee A rate fa"
    by (simp add: final_fee_def)
  show ?thesis
  proof (cases "small = []")
    case True
    with assms(2) show ?thesis
      by (simp add: batched_estimate_total_fees_def large last groups_def amt_add_ok[OF assms(1)] del: One_nat_def)
  next
    case False
    have "amt_add A (of_nat (chain_fees A rate ?ls)) (group_fee A rate small) =
        Some (of_nat (chain_fees A rate ?ls + unat (group_fee A rate small)))"
      using assms(2) False by (subst amt_add_ok[OF assms(1)]) (simp_all add: groups_def)
    moreover have "amt_add A (of_nat (chain_fees A rate ?ls + unat (group_fee A rate small))) (final_fee A rate fa) =
        Some (of_nat (chain_fees A rate ?ls + unat (group_fee A rate small) + unat (final_fee A rate fa)))"
      using assms(2) False by (subst amt_add_ok[OF assms(1)]) (simp_all add: groups_def del: of_nat_add, simp)
    ultimately show ?thesis using False
      by (simp add: batched_estimate_total_fees_def large small last groups_def Let_def
          del: of_nat_add One_nat_def)
  qed
qed

text \<open>The groups of a set of accounts, and all fees of its plan.\<close>

definition other_accounts :: "u32 \<Rightarrow> account_utxo_set list \<Rightarrow> account_utxo_set list" where
  "other_accounts fee_idx accts = filter (\<lambda>a. account_idx a \<noteq> fee_idx) (funded accts)"

definition batch_groups :: "u32 \<Rightarrow> amount \<Rightarrow> account_utxo_set list \<Rightarrow> account_utxo_set list list" where
  "batch_groups fee_idx limit accts =
     groups (filter (\<lambda>a. unat limit \<le> account_value a) (other_accounts fee_idx accts))
            (filter (\<lambda>a. \<not> unat limit \<le> account_value a) (other_accounts fee_idx accts))"

definition batch_fees :: "amount_lib \<Rightarrow> fee_rate \<Rightarrow> u32 \<Rightarrow> amount \<Rightarrow> account_utxo_set list \<Rightarrow> account_utxo_set \<Rightarrow> nat" where
  "batch_fees A rate fee_idx limit accts fa =
     chain_fees A rate (batch_groups fee_idx limit accts) + unat (final_fee A rate fa)"

definition fee_account :: "u32 \<Rightarrow> account_utxo_set list \<Rightarrow> account_utxo_set option" where
  "fee_account fee_idx accts = List.find (\<lambda>a. account_idx a = fee_idx) (funded accts)"

definition first_utxo_value :: "account_utxo_set \<Rightarrow> nat" where
  "first_utxo_value fa = unat (txo_value (lo_txout (hd (utxos fa))))"

lemma fee_account_Some: "fee_account fee_idx accts = Some fa \<Longrightarrow>
    fa \<in> set accts \<and> utxos fa \<noteq> [] \<and> account_idx fa = fee_idx"
  unfolding fee_account_def by (auto dest: find_Some_iff)

lemma first_utxo_le: "utxos fa \<noteq> [] \<Longrightarrow> first_utxo_value fa \<le> account_value fa"
  by (cases "utxos fa") (simp_all add: first_utxo_value_def account_value_def)

text \<open>The planner in closed form: the errors in order, then the chain, or the panic.\<close>

lemma batched_plan_eq:
  assumes "amount_lib_ok A" "funds accts \<le> max_money"
    and "\<And>fa. fee_account fee_idx accts = Some fa \<Longrightarrow> batch_fees A rate fee_idx limit accts fa \<le> max_money"
  shows "batched_plan A fee_idx limit accts old new rate =
     (if old \<noteq> new then Err (Me_NetworkMismatch old new)
      else if funded accts = [] then Err NoUtxos
      else case fee_account fee_idx accts of
        None \<Rightarrow> Err (missing_fee_account fee_idx)
      | Some fa \<Rightarrow>
          if account_value fa < batch_fees A rate fee_idx limit accts fa
          then Err (InsufficientFeeBalance fee_idx (of_nat (account_value fa))
                     (of_nat (batch_fees A rate fee_idx limit accts fa)))
          else if first_utxo_value fa < chain_fees A rate (batch_groups fee_idx limit accts) then Panic
          else Ok (chain_plan A fee_idx rate fa (batch_groups fee_idx limit accts)))"
proof (cases "old = new \<and> funded accts \<noteq> []")
  case False
  then show ?thesis by (auto simp: batched_plan_def ensure_same_network_def)
next
  case ok: True
  show ?thesis
  proof (cases "fee_account fee_idx accts")
    case None
    with ok show ?thesis by (simp add: batched_plan_def ensure_same_network_def fee_account_def)
  next
    case (Some fa)
    note fa = fee_account_Some[OF Some]
    let ?fees = "batch_fees A rate fee_idx limit accts fa"
    let ?large = "filter (\<lambda>a. unat limit \<le> account_value a) (other_accounts fee_idx accts)"
    let ?small = "filter (\<lambda>a. \<not> unat limit \<le> account_value a) (other_accounts fee_idx accts)"
    have v: "account_value a \<le> max_money" if "a \<in> set accts" for a
      using account_value_le[OF that] assms(2) by simp
    have v': "account_value a \<le> max_money" if "a \<in> set (other_accounts fee_idx accts)" for a
      using that v by (simp add: other_accounts_def)
    note part = partition_accounts_ok[OF assms(1), of "other_accounts fee_idx accts" limit, OF v']
    have b: "?fees \<le> max_money" by (rule assms(3)[OF Some])
    have pre: "batched_estimate_total_fees A ?large ?small (length (utxos fa)) rate = Ok (of_nat ?fees)"
      unfolding batch_fees_def batch_groups_def
      by (rule preflight_ok[OF assms(1)]) (use b in \<open>simp add: batch_fees_def batch_groups_def\<close>)
    have first: "index_slice (utxos fa) 0 = Ok (hd (utxos fa))"
      using fa by (simp add: index_slice_def hd_conv_nth)
    have chain: "plan_chain A fee_idx rate fa (of_nat (account_value fa)) (txo_value (lo_txout (hd (utxos fa)))) ?large ?small =
        (if first_utxo_value fa < chain_fees A rate (batch_groups fee_idx limit accts) then Panic
         else Ok (chain_plan A fee_idx rate fa (batch_groups fee_idx limit accts)))"
      if "\<not> account_value fa < ?fees"
    proof -
      have "account_value a \<le> max_money" if "a \<in> set ?large \<union> set ?small" for a
        using that v' by auto
      moreover have "account_value fa \<le> max_money" using fa v by simp
      moreover from this have "unat (txo_value (lo_txout (hd (utxos fa)))) \<le> max_money"
        using fa first_utxo_le[of fa] by (simp add: first_utxo_value_def)
      moreover have "chain_fees A rate (groups ?large ?small) + unat (final_fee A rate fa) \<le> account_value fa"
        using that by (simp add: batch_fees_def batch_groups_def)
      ultimately show ?thesis
        using plan_chain_eq[OF assms(1), of fa ?large ?small rate fee_idx] fa
        unfolding first_utxo_value_def batch_groups_def by (metis not_less)
    qed
    have "batched_plan A fee_idx limit accts old new rate =
        (if of_nat (account_value fa) < (of_nat ?fees :: amount)
         then Err (InsufficientFeeBalance fee_idx (of_nat (account_value fa)) (of_nat ?fees))
         else plan_chain A fee_idx rate fa (of_nat (account_value fa)) (txo_value (lo_txout (hd (utxos fa)))) ?large ?small)"
      using ok Some fa v part pre first
      by (simp add: batched_plan_def ensure_same_network_def fee_account_def total_value_ok[OF assms(1)]
          Let_def other_accounts_def)
    moreover have "of_nat (account_value fa) < (of_nat ?fees :: amount) \<longleftrightarrow> account_value fa < ?fees"
      using v fa b by (simp add: word_less_nat_alt)
    ultimately show ?thesis using ok Some chain by simp
  qed
qed

end
