(* ===== verification/Sweep.thy ===== *)
theory Sweep
  imports Migration_Chain
begin

text \<open>
  The \<open>SweepAlgorithm\<close> trait of \<open>src/migration.rs\<close> as a locale: a plan is refused
  on a network mismatch and on an empty input set, spends every UTXO it is given exactly once, and
  loses nothing but its stated fees. Both planners are interpretations, on inputs with one entry per
  account whose funds are at most 21 million bitcoin; then the properties of the two planners.
\<close>

section \<open>What a plan moves\<close>

text \<open>What reaches the new federation: customer outputs, and the fee change of a final
  transaction. The fee change of any other transaction is spent again by the next one.\<close>

definition settled_outputs :: "'p sweep_transaction \<Rightarrow> sweep_output list" where
  "settled_outputs t = filter (\<lambda>x. is_customer x \<or> is_fee_final t) (sweep_outputs t)"

definition settled :: "'p migration_plan \<Rightarrow> nat" where
  "settled p = sum_list (map (\<lambda>t. paid (settled_outputs t)) (sweep_transactions p))"

definition plan_sources :: "'p migration_plan \<Rightarrow> outpoint list" where
  "plan_sources p = concat (map source_utxos (sweep_transactions p))"

text \<open>Placeholders for change not yet on chain have a zero transaction id; no UTXO has.\<close>

definition real :: "outpoint \<Rightarrow> bool" where
  "real out \<longleftrightarrow> op_txid out \<noteq> 0"

lemma synthetic_not_real [simp]: "\<not> real (synthetic_change_outpoint i)"
  by (simp add: real_def synthetic_change_outpoint_def)

locale sweep_algorithm =
  fixes plan :: "'u list \<Rightarrow> network_type \<Rightarrow> network_type \<Rightarrow> fee_rate \<Rightarrow> ('p migration_plan, migration_error) result"
    and worth :: "'u \<Rightarrow> nat"
    and points :: "'u \<Rightarrow> outpoint list"
    and acceptable :: "'u list \<Rightarrow> fee_rate \<Rightarrow> bool"
  assumes mismatch: "old \<noteq> new \<Longrightarrow> plan us old new rate = Err (Me_NetworkMismatch old new)"
    and empty: "(\<And>u. u \<in> set us \<Longrightarrow> points u = []) \<Longrightarrow> plan us net net rate = Err NoUtxos"
    and conserves: "acceptable us rate \<Longrightarrow> plan us old new rate = Ok p \<Longrightarrow>
          settled p + unat (total_fees p) = sum_list (map worth us)"
    and spends: "acceptable us rate \<Longrightarrow> plan us old new rate = Ok p \<Longrightarrow>
          mset (filter real (plan_sources p)) = mset (concat (map points us))"
begin

lemma same_network: "plan us old new rate = Ok p \<Longrightarrow> old = new"
  using mismatch[of old new us rate] by auto

lemma nonempty: "plan us old new rate = Ok p \<Longrightarrow> \<exists>u \<in> set us. points u \<noteq> []"
  using empty[of us old rate] same_network[of us old new rate p] by fastforce

text \<open>Nothing outside the given UTXOs is spent, and none of them twice.\<close>

lemma no_double_spend:
  assumes "acceptable us rate" "plan us old new rate = Ok p" "distinct (concat (map points us))"
  shows "distinct (filter real (plan_sources p))"
    and "set (filter real (plan_sources p)) = set (concat (map points us))"
  using spends[OF assms(1,2)] assms(3) mset_eq_imp_distinct_iff mset_eq_setD by metis+

lemma fees_bounded: "acceptable us rate \<Longrightarrow> plan us old new rate = Ok p \<Longrightarrow>
    unat (total_fees p) \<le> sum_list (map worth us)"
  using conserves[of us rate old new p] by simp

end

section \<open>Acceptable inputs\<close>

definition accounts_ok :: "account_utxo_set list \<Rightarrow> bool" where
  "accounts_ok accts \<longleftrightarrow> distinct (map account_idx accts) \<and> funds accts \<le> max_money
     \<and> (\<forall>out \<in> set (all_outpoints accts). real out)"

definition points_of :: "account_utxo_set \<Rightarrow> outpoint list" where
  "points_of a = map lo_outpoint (utxos a)"

lemma all_outpoints_points: "all_outpoints accts = concat (map points_of accts)"
  by (simp add: all_outpoints_def points_of_def cong: map_cong)

lemma no_points: "(\<And>u. u \<in> set us \<Longrightarrow> points_of u = []) \<Longrightarrow> funded us = []"
  by (auto simp: points_of_def filter_empty_conv)

lemma accounts_value: "accounts_ok accts \<Longrightarrow> a \<in> set accts \<Longrightarrow> account_value a \<le> max_money"
  using account_value_le[of a accts] by (auto simp: accounts_ok_def)

section \<open>One transaction\<close>

lemma afa_plan_Ok:
  assumes "amount_lib_ok A" "accounts_ok accts" "afa_plan A fee_idx accts old new rate = Ok p"
  obtains fa where "fee_account fee_idx accts = Some fa" and "old = new"
    and "unat (total_fees p) \<le> account_value fa"
    and "total_fees p = estimate_fee A (input_count accts) (length (funded accts)) rate"
    and "utxo_count p = input_count accts"
    and "sweep_transactions p =
        [\<lparr>source_utxos = all_outpoints accts,
          sweep_outputs = map (afa_due fee_idx (total_fees p)) (funded accts),
          is_fee_final = True, sweep_psbt = None\<rparr>]"
proof -
  from assms(2) have d: "distinct (map account_idx accts)" "funds accts \<le> max_money"
    by (auto simp: accounts_ok_def)
  from assms(3) that show ?thesis
    unfolding afa_plan_eq[OF assms(1) d] fee_account_def
    by (auto simp: Let_def not_less split: if_splits option.splits)
qed

lemma paid_settled_final: "is_fee_final t \<Longrightarrow> settled_outputs t = sweep_outputs t"
  by (simp add: settled_outputs_def)

lemma afa_conserves_lemma:
  assumes "amount_lib_ok A" "accounts_ok accts" "afa_plan A fee_idx accts old new rate = Ok p"
  shows "settled p + unat (total_fees p) = funds accts"
proof (rule afa_plan_Ok[OF assms])
  fix fa
  assume fa: "fee_account fee_idx accts = Some fa" "unat (total_fees p) \<le> account_value fa"
    and tx: "sweep_transactions p =
        [\<lparr>source_utxos = all_outpoints accts,
          sweep_outputs = map (afa_due fee_idx (total_fees p)) (funded accts),
          is_fee_final = True, sweep_psbt = None\<rparr>]"
  from fee_account_Some[OF fa(1)] have "fa \<in> set (funded accts)" "account_idx fa = fee_idx" by auto
  moreover have "distinct (map account_idx (funded accts))" "funds (funded accts) \<le> max_money"
    using assms(2) by (auto simp: accounts_ok_def distinct_map_filter)
  ultimately show ?thesis
    using paid_afa[of fa "funded accts" "total_fees p" fee_idx] fa(2)
    by (simp add: settled_def tx paid_settled_final)
qed

lemma afa_spends_lemma:
  assumes "amount_lib_ok A" "accounts_ok accts" "afa_plan A fee_idx accts old new rate = Ok p"
  shows "filter real (plan_sources p) = all_outpoints accts"
proof (rule afa_plan_Ok[OF assms])
  assume "sweep_transactions p =
        [\<lparr>source_utxos = all_outpoints accts,
          sweep_outputs = map (afa_due fee_idx (total_fees p)) (funded accts),
          is_fee_final = True, sweep_psbt = None\<rparr>]"
  with assms(2) show ?thesis
    by (simp add: plan_sources_def accounts_ok_def filter_id_conv)
qed

lemma afa_pays_customers:
  assumes "amount_lib_ok A" "accounts_ok accts" "afa_plan A fee_idx accts old new rate = Ok p"
  shows "filter is_customer (concat (map sweep_outputs (sweep_transactions p))) = map due (other_accounts fee_idx accts)"
proof (rule afa_plan_Ok[OF assms])
  have "filter is_customer (map (afa_due fee_idx f) xs) = map due (filter (\<lambda>a. account_idx a \<noteq> fee_idx) xs)"
    for f xs by (induction xs) (auto simp: afa_due_def due_def)
  moreover assume "sweep_transactions p = [\<lparr>source_utxos = all_outpoints accts,
      sweep_outputs = map (afa_due fee_idx (total_fees p)) (funded accts),
      is_fee_final = True, sweep_psbt = None\<rparr>]"
  ultimately show ?thesis by (simp add: other_accounts_def del: filter_filter)
qed

lemma afa_empty: "funded accts = [] \<Longrightarrow> afa_plan A fee_idx accts net net rate = Err NoUtxos"
  by (simp add: afa_plan_def ensure_same_network_def)

interpretation afa: sweep_algorithm "afa_plan A fee_idx" account_value points_of
    "\<lambda>accts rate. amount_lib_ok A \<and> accounts_ok accts" for A fee_idx
proof
  fix old new :: network_type and us rate p
  show "old \<noteq> new \<Longrightarrow> afa_plan A fee_idx us old new rate = Err (Me_NetworkMismatch old new)"
    by (simp add: afa_plan_def ensure_same_network_def)
  show "(\<And>u. u \<in> set us \<Longrightarrow> points_of u = []) \<Longrightarrow> afa_plan A fee_idx us new new rate = Err NoUtxos"
    by (rule afa_empty) (rule no_points)
  show "amount_lib_ok A \<and> accounts_ok us \<Longrightarrow> afa_plan A fee_idx us old new rate = Ok p \<Longrightarrow>
      settled p + unat (total_fees p) = sum_list (map account_value us)"
    using afa_conserves_lemma[of A us fee_idx old new rate p] by (simp add: funds_def)
  show "amount_lib_ok A \<and> accounts_ok us \<Longrightarrow> afa_plan A fee_idx us old new rate = Ok p \<Longrightarrow>
      mset (filter real (plan_sources p)) = mset (concat (map points_of us))"
    using afa_spends_lemma[of A us fee_idx old new rate p] by (simp add: all_outpoints_points)
qed

section \<open>The chain\<close>

lemma settled_group_tx: "settled_outputs (group_tx fee_idx link change g) = map due g"
  by (auto simp: settled_outputs_def group_tx_def due_def filter_id_conv)

lemma settled_chain:
  "(\<And>a. a \<in> set (concat gs) \<Longrightarrow> account_value a \<le> max_money) \<Longrightarrow>
   sum_list (map (\<lambda>t. paid (settled_outputs t)) (chain_txs A fee_idx rate link i budget gs)) = funds (concat gs)"
proof (induction gs arbitrary: link i budget)
  case (Cons g gs)
  then have "paid (map due g) = funds g" by (intro paid_due) simp
  with Cons show ?case by (simp add: settled_group_tx) (simp add: funds_def)
qed (simp add: funds_def)

lemma all_outpoints_append [simp]: "all_outpoints (xs @ ys) = all_outpoints xs @ all_outpoints ys"
  by (simp add: all_outpoints_def)

lemma filter_mset_all: "\<forall>x \<in> set xs. P x \<Longrightarrow> filter_mset P (mset xs) = mset xs"
  by (metis filter_True mset_filter)

lemma mset_split: "mset xs = mset (filter P xs) + mset (filter (\<lambda>x. \<not> P x) xs)"
  by (induction xs) auto

lemma filter_distinct_single: "distinct xs \<Longrightarrow> x \<in> set xs \<Longrightarrow> filter (\<lambda>y. y = x) xs = [x]"
  by (induction xs) (auto simp: filter_empty_conv)

lemma sources_chain:
  assumes "\<forall>out \<in> set (all_outpoints (concat gs)). real out"
  shows "mset (filter real (concat (map source_utxos (chain_txs A fee_idx rate link i budget gs)))) =
    mset (all_outpoints (concat gs)) + (if gs \<noteq> [] \<and> real link then {#link#} else {#})"
  using assms
proof (induction gs arbitrary: link i budget)
  case (Cons g gs)
  then have "filter_mset real (mset (all_outpoints g)) = mset (all_outpoints g)"
    by (intro filter_mset_all) auto
  with Cons show ?case by (simp add: group_tx_def)
qed (simp add: all_outpoints_def)

lemma concat_groups: "concat (groups large small) = large @ small"
  by (induction large) (auto simp: groups_def)

lemma chain_plan_simps:
  "total_fees (chain_plan A fee_idx rate fa gs) = of_nat (chain_fees A rate gs + unat (final_fee A rate fa))"
  "utxo_count (chain_plan A fee_idx rate fa gs) = input_count (concat gs) + length gs + length (utxos fa)"
  "sweep_transactions (chain_plan A fee_idx rate fa gs) =
     chain_txs A fee_idx rate (lo_outpoint (hd (utxos fa))) 0 (txo_value (lo_txout (hd (utxos fa)))) gs @
     [\<lparr>source_utxos = (if gs = [] then map lo_outpoint (utxos fa)
                       else tl (map lo_outpoint (utxos fa)) @ [synthetic_change_outpoint (length gs - 1)]),
       sweep_outputs = [FeeChange fee_idx (of_nat (account_value fa - (chain_fees A rate gs + unat (final_fee A rate fa))))],
       is_fee_final = True, sweep_psbt = None\<rparr>]" if "utxos fa \<noteq> []"
  using that by (simp_all add: chain_plan_def Let_def hd_map)

lemma chain_plan_settles:
  assumes "utxos fa \<noteq> []" "account_value fa \<le> max_money"
    and "\<And>a. a \<in> set (concat gs) \<Longrightarrow> account_value a \<le> max_money"
    and "chain_fees A rate gs + unat (final_fee A rate fa) \<le> account_value fa"
  shows "settled (chain_plan A fee_idx rate fa gs) + unat (total_fees (chain_plan A fee_idx rate fa gs)) =
    funds (concat gs) + account_value fa"
proof -
  have "sum_list (map (\<lambda>t. paid (settled_outputs t)) (chain_txs A fee_idx rate link i budget gs)) = funds (concat gs)"
    for link i budget
    by (rule settled_chain) (rule assms(3))
  with assms(2,4) show ?thesis
    by (simp add: settled_def chain_plan_simps[OF assms(1)] paid_settled_final del: of_nat_add of_nat_diff)
qed

lemma chain_plan_sources:
  assumes "utxos fa \<noteq> []"
    and "\<forall>out \<in> set (all_outpoints (concat gs)). real out" "\<forall>out \<in> set (points_of fa). real out"
  shows "mset (filter real (plan_sources (chain_plan A fee_idx rate fa gs))) =
    mset (all_outpoints (concat gs)) + mset (points_of fa)"
proof -
  from assms(1) obtain u us where u: "utxos fa = u # us" by (cases "utxos fa") auto
  with assms(3) have r: "filter_mset real (mset (map lo_outpoint us)) = mset (map lo_outpoint us)"
      "real (lo_outpoint u)"
    by (auto simp: points_of_def intro!: filter_mset_all simp del: mset_map)
  show ?thesis
    using sources_chain[OF assms(2)] r
    by (cases "gs = []") (simp_all add: plan_sources_def chain_plan_simps[OF assms(1)] points_of_def u)
qed

section \<open>The batched plan\<close>

text \<open>The condition on fees: their sum is at most 21 million bitcoin as well (each estimate is a
  \<open>u64\<close>, so the pre-flight sum of an absurd fee rate could overflow).\<close>

definition fees_ok :: "amount_lib \<Rightarrow> u32 \<Rightarrow> amount \<Rightarrow> fee_rate \<Rightarrow> account_utxo_set list \<Rightarrow> bool" where
  "fees_ok A fee_idx limit rate accts \<longleftrightarrow>
     (case fee_account fee_idx accts of None \<Rightarrow> True
      | Some fa \<Rightarrow> batch_fees A rate fee_idx limit accts fa \<le> max_money)"

lemma batched_cases:
  assumes "amount_lib_ok A" "accounts_ok accts" "fees_ok A fee_idx limit rate accts"
  shows "batched_plan A fee_idx limit accts old new rate =
     (if old \<noteq> new then Err (Me_NetworkMismatch old new)
      else if funded accts = [] then Err NoUtxos
      else case fee_account fee_idx accts of
        None \<Rightarrow> Err (missing_fee_account fee_idx)
      | Some fa \<Rightarrow>
          if account_value fa < batch_fees A rate fee_idx limit accts fa
          then Err (InsufficientFeeBalance fee_idx (of_nat (account_value fa))
                     (of_nat (batch_fees A rate fee_idx limit accts fa)))
          else if first_utxo_value fa < chain_fees A rate (batch_groups fee_idx limit accts) then Panic
          else Ok (chain_plan A fee_idx rate fa (batch_groups fee_idx limit accts)))"
  using assms(2,3) by (intro batched_plan_eq[OF assms(1)]) (auto simp: accounts_ok_def fees_ok_def)

lemma batched_Ok:
  assumes "amount_lib_ok A" "accounts_ok accts" "fees_ok A fee_idx limit rate accts"
    and "batched_plan A fee_idx limit accts old new rate = Ok p"
  obtains fa where "fee_account fee_idx accts = Some fa" "old = new"
    and "batch_fees A rate fee_idx limit accts fa \<le> account_value fa"
    and "chain_fees A rate (batch_groups fee_idx limit accts) \<le> first_utxo_value fa"
    and "p = chain_plan A fee_idx rate fa (batch_groups fee_idx limit accts)"
  using assms(4) that unfolding batched_cases[OF assms(1-3)]
  by (auto simp: not_less split: if_splits option.splits)

lemma concat_batch_groups:
  "mset (concat (batch_groups fee_idx limit accts)) = mset (other_accounts fee_idx accts)"
  unfolding batch_groups_def concat_groups by (induction "other_accounts fee_idx accts") auto

lemma funds_mset: "mset xs = mset ys \<Longrightarrow> funds xs = funds ys"
  unfolding funds_def by (metis mset_map sum_mset_sum_list)

lemma all_outpoints_mset: "mset (all_outpoints xs) = (\<Sum>a \<in># mset xs. mset (points_of a))"
  by (induction xs) (auto simp: all_outpoints_def points_of_def)

lemma input_count_mset: "mset xs = mset ys \<Longrightarrow> input_count xs = input_count ys"
  unfolding input_count_def by (metis mset_map sum_mset_sum_list)

text \<open>With one entry per account, the funded accounts are the fee account and the others.\<close>

lemma funded_split:
  assumes "accounts_ok accts" "fee_account fee_idx accts = Some fa"
  shows "mset (funded accts) = add_mset fa (mset (other_accounts fee_idx accts))"
proof -
  have d: "distinct (map account_idx (funded accts))"
    using assms(1) by (auto simp: accounts_ok_def distinct_map_filter)
  note fa = find_account[OF assms(2)[unfolded fee_account_def] d]
  have "filter (\<lambda>a. account_idx a = fee_idx) (funded accts) = [fa]"
  proof -
    have "filter (\<lambda>a. account_idx a = fee_idx) (funded accts) = filter (\<lambda>a. a = fa) (funded accts)"
      using fa by (intro filter_cong) auto
    moreover have "distinct (funded accts)" using d by (simp add: distinct_map)
    ultimately show ?thesis using fa by (simp add: filter_distinct_single del: filter_filter)
  qed
  moreover have "mset (funded accts) = mset (filter (\<lambda>a. account_idx a = fee_idx) (funded accts))
      + mset (filter (\<lambda>a. account_idx a \<noteq> fee_idx) (funded accts))"
    by (rule mset_split)
  ultimately show ?thesis by (simp add: other_accounts_def)
qed

lemma batch_accounts:
  assumes "accounts_ok accts" "fee_account fee_idx accts = Some fa"
  shows "mset (concat (batch_groups fee_idx limit accts) @ [fa]) = mset (funded accts)"
  by (simp only: mset_append concat_batch_groups funded_split[OF assms]) simp

lemma batch_value:
  assumes "accounts_ok accts" "fee_account fee_idx accts = Some fa"
  shows "a \<in> set (concat (batch_groups fee_idx limit accts) @ [fa]) \<Longrightarrow> account_value a \<le> max_money"
  using mset_eq_setD[OF batch_accounts[OF assms]] accounts_value[OF assms(1)] by auto

lemma batched_conserves_lemma:
  assumes "amount_lib_ok A" "accounts_ok accts" "fees_ok A fee_idx limit rate accts"
    and "batched_plan A fee_idx limit accts old new rate = Ok p"
  shows "settled p + unat (total_fees p) = funds accts"
proof (rule batched_Ok[OF assms])
  let ?gs = "batch_groups fee_idx limit accts"
  fix fa
  assume fa: "fee_account fee_idx accts = Some fa" "batch_fees A rate fee_idx limit accts fa \<le> account_value fa"
    and p: "p = chain_plan A fee_idx rate fa ?gs"
  have "funds (concat ?gs) + account_value fa = funds (concat ?gs @ [fa])" by (simp add: funds_def)
  also have "\<dots> = funds accts"
    using funds_mset[OF batch_accounts[OF assms(2) fa(1)]] by simp
  finally have "funds (concat ?gs) + account_value fa = funds accts" .
  moreover have "settled p + unat (total_fees p) = funds (concat ?gs) + account_value fa"
    unfolding p
  proof (rule chain_plan_settles)
    show "utxos fa \<noteq> []" using fee_account_Some[OF fa(1)] by simp
    show "account_value fa \<le> max_money" using batch_value[OF assms(2) fa(1), of fa] by simp
    show "account_value a \<le> max_money" if "a \<in> set (concat ?gs)" for a
      using batch_value[OF assms(2) fa(1), of a limit] that by simp
  qed (use fa(2) in \<open>simp add: batch_fees_def\<close>)
  ultimately show ?thesis by simp
qed

lemma batched_spends_lemma:
  assumes "amount_lib_ok A" "accounts_ok accts" "fees_ok A fee_idx limit rate accts"
    and "batched_plan A fee_idx limit accts old new rate = Ok p"
  shows "mset (filter real (plan_sources p)) = mset (all_outpoints accts)"
proof (rule batched_Ok[OF assms])
  let ?gs = "batch_groups fee_idx limit accts"
  fix fa
  assume fa: "fee_account fee_idx accts = Some fa" and p: "p = chain_plan A fee_idx rate fa ?gs"
  have points: "points_of fa = all_outpoints [fa]" by (simp add: points_of_def all_outpoints_def)
  have perm: "mset (all_outpoints (concat ?gs @ [fa])) = mset (all_outpoints accts)"
    using batch_accounts[OF assms(2) fa] all_outpoints_filter[of accts]
    by (metis all_outpoints_mset)
  then have "\<forall>out \<in> set (all_outpoints (concat ?gs @ [fa])). real out"
    using assms(2) mset_eq_setD[OF perm] by (simp add: accounts_ok_def)
  then show ?thesis
    using chain_plan_sources[of fa ?gs A fee_idx rate] fee_account_Some[OF fa] perm by (simp add: p points)
qed

lemma batched_empty: "funded accts = [] \<Longrightarrow> batched_plan A fee_idx limit accts net net rate = Err NoUtxos"
  by (simp add: batched_plan_def ensure_same_network_def)

interpretation batched: sweep_algorithm "batched_plan A fee_idx limit" account_value points_of
    "\<lambda>accts rate. amount_lib_ok A \<and> accounts_ok accts \<and> fees_ok A fee_idx limit rate accts" for A fee_idx limit
proof
  fix old new :: network_type and us rate p
  show "old \<noteq> new \<Longrightarrow> batched_plan A fee_idx limit us old new rate = Err (Me_NetworkMismatch old new)"
    by (simp add: batched_plan_def ensure_same_network_def)
  show "(\<And>u. u \<in> set us \<Longrightarrow> points_of u = []) \<Longrightarrow> batched_plan A fee_idx limit us new new rate = Err NoUtxos"
    by (rule batched_empty) (rule no_points)
  show "amount_lib_ok A \<and> accounts_ok us \<and> fees_ok A fee_idx limit rate us \<Longrightarrow>
      batched_plan A fee_idx limit us old new rate = Ok p \<Longrightarrow>
      settled p + unat (total_fees p) = sum_list (map account_value us)"
    using batched_conserves_lemma[of A us fee_idx limit rate old new p] by (simp add: funds_def)
  show "amount_lib_ok A \<and> accounts_ok us \<and> fees_ok A fee_idx limit rate us \<Longrightarrow>
      batched_plan A fee_idx limit us old new rate = Ok p \<Longrightarrow>
      mset (filter real (plan_sources p)) = mset (concat (map points_of us))"
    using batched_spends_lemma[of A us fee_idx limit rate old new p] by (simp add: all_outpoints_points)
qed

section \<open>Structure of a batched plan\<close>

lemma chain_final_flags: "map is_fee_final (chain_txs A fee_idx rate link i budget gs) = replicate (length gs) False"
  by (induction gs arbitrary: link i budget) (auto simp: group_tx_def)

lemma chain_nth:
  "j < length gs \<Longrightarrow> chain_txs A fee_idx rate link i budget gs ! j =
     group_tx fee_idx (if j = 0 then link else synthetic_change_outpoint (i + j - 1))
       (budget - of_nat (chain_fees A rate (take (Suc j) gs))) (gs ! j)"
proof (induction gs arbitrary: link i budget j)
  case (Cons g gs)
  then show ?case by (cases j) (auto simp: algebra_simps)
qed simp

lemma chain_synthetics:
  assumes "\<forall>out \<in> set (all_outpoints (concat gs)). real out"
  shows "filter (\<lambda>out. \<not> real out) (concat (map source_utxos (chain_txs A fee_idx rate link i budget gs))) =
    (if gs = [] then [] else (if real link then [] else [link]) @ map synthetic_change_outpoint [i..<i + length gs - 1])"
  using assms
proof (induction gs arbitrary: link i budget)
  case (Cons g gs)
  then have "filter (\<lambda>out. \<not> real out) (all_outpoints g) = []" by (auto simp: filter_empty_conv)
  moreover have "[i..<i + length gs] = i # [Suc i..<Suc i + length gs - 1]" if "gs \<noteq> []"
    using that by (cases gs) (auto simp: upt_conv_Cons simp del: upt_Suc)
  ultimately show ?case using Cons by (cases "gs = []") (auto simp: group_tx_def)
qed simp

lemma chain_customers:
  "filter is_customer (concat (map sweep_outputs (chain_txs A fee_idx rate link i budget gs))) = map due (concat gs)"
  by (induction gs arbitrary: link i budget) (auto simp: group_tx_def due_def filter_id_conv)

lemma real_accounts:
  assumes "accounts_ok accts" "fee_account fee_idx accts = Some fa"
  shows "\<forall>out \<in> set (all_outpoints (concat (batch_groups fee_idx limit accts))). real out"
    and "\<forall>out \<in> set (points_of fa). real out"
proof -
  have "mset (all_outpoints (concat (batch_groups fee_idx limit accts) @ [fa])) = mset (all_outpoints accts)"
    using batch_accounts[OF assms, of limit] all_outpoints_filter[of accts] by (metis all_outpoints_mset)
  from mset_eq_setD[OF this] assms(1)
  have "\<forall>out \<in> set (all_outpoints (concat (batch_groups fee_idx limit accts) @ [fa])). real out"
    unfolding accounts_ok_def by blast
  then show "\<forall>out \<in> set (all_outpoints (concat (batch_groups fee_idx limit accts))). real out"
    and "\<forall>out \<in> set (points_of fa). real out"
    by (auto simp: points_of_def all_outpoints_def)
qed

lemma chain_fees_take_le: "chain_fees A rate (take k gs) \<le> chain_fees A rate gs"
  by (metis append_take_drop_id chain_fees_simps(3) le_add1)

lemma change_left:
  assumes "chain_fees A rate gs \<le> unat (budget :: amount)" "unat budget \<le> max_money"
  shows "unat (budget - of_nat (chain_fees A rate (take k gs))) = unat budget - chain_fees A rate (take k gs)"
proof -
  have le: "chain_fees A rate (take k gs) \<le> unat budget"
    using chain_fees_take_le[of A rate k gs] assms(1) by simp
  then have u: "unat (of_nat (chain_fees A rate (take k gs)) :: amount) = chain_fees A rate (take k gs)"
    using assms(2) by simp
  with le have "(of_nat (chain_fees A rate (take k gs)) :: amount) \<le> budget"
    by (simp add: word_le_nat_alt)
  with u show ?thesis by (simp add: unat_sub)
qed

lemma length_chain_plan:
  "utxos fa \<noteq> [] \<Longrightarrow> length (sweep_transactions (chain_plan A fee_idx rate fa gs)) = Suc (length gs)"
  by (simp add: chain_plan_simps)

lemma batched_pays_customers:
  assumes "amount_lib_ok A" "accounts_ok accts" "fees_ok A fee_idx limit rate accts"
    and "batched_plan A fee_idx limit accts old new rate = Ok p"
  shows "mset (filter is_customer (concat (map sweep_outputs (sweep_transactions p)))) =
      mset (map due (other_accounts fee_idx accts))"
proof (rule batched_Ok[OF assms])
  fix fa
  assume fa: "fee_account fee_idx accts = Some fa" and p: "p = chain_plan A fee_idx rate fa (batch_groups fee_idx limit accts)"
  have "filter is_customer (concat (map sweep_outputs (sweep_transactions p))) =
      map due (concat (batch_groups fee_idx limit accts))"
    using fee_account_Some[OF fa] by (simp add: p chain_plan_simps chain_customers)
  then show ?thesis using concat_batch_groups by simp
qed

section \<open>Properties\<close>

text \<open>Satoshi arithmetic as the bitcoin crate does it; fees are rounded up to a satoshi from
  a rate per 1000 weight units.\<close>

definition sat_amounts :: amount_lib where
  "sat_amounts =
     \<lparr>amt_add = (\<lambda>a b. if unat a + unat b < 2 ^ 64 then Some (a + b) else None),
      amt_sub = (\<lambda>a b. if b \<le> a then Some (a - b) else None),
      weight_from_vb = (\<lambda>vb. Some (vb * 4)),
      fee_wu = (\<lambda>rate wu. Some ((rate * wu + 999) div 1000))\<rparr>"

lemma sat_amounts_ok: "amount_lib_ok sat_amounts"
  by (simp add: amount_lib_ok_def sat_amounts_def max_money_def)

definition demo_utxo :: "word256 \<Rightarrow> amount \<Rightarrow> local_output" where
  "demo_utxo i v = \<lparr>lo_outpoint = \<lparr>op_txid = i, op_vout = 0\<rparr>, lo_txout = \<lparr>txo_value = v, txo_script = []\<rparr>\<rparr>"

text \<open>A customer account with 5000 satoshi and a fee account with two UTXOs.\<close>

definition demo_accounts :: "amount \<Rightarrow> amount \<Rightarrow> account_utxo_set list" where
  "demo_accounts v w =
     [\<lparr>account_idx = 1, utxos = [demo_utxo 7 5000], destination_address = ''a''\<rparr>,
      \<lparr>account_idx = 0, utxos = [demo_utxo 8 v, demo_utxo 9 w], destination_address = ''b''\<rparr>]"

lemmas sweep_eval = demo_accounts_def demo_utxo_def sat_amounts_def estimate_fee_def total_value_def
  ensure_same_network_def

lemmas demo_simps = demo_accounts_def demo_utxo_def accounts_ok_def funds_def account_value_def
  max_money_def all_outpoints_def real_def

text \<open>
C15: A single-transaction sweep, whenever it succeeds, spends every UTXO of every account, in order
and nothing else; pays each other account exactly its full balance at its own address, in order; and
loses nothing but the stated fee.\<close>

theorem afa_conserves:
  assumes "amount_lib_ok A" "accounts_ok accts" "afa_plan A fee_idx accts old new rate = Ok p"
  shows "\<exists>t. sweep_transactions p = [t] \<and> is_fee_final t \<and> source_utxos t = all_outpoints accts
    \<and> filter is_customer (sweep_outputs t) = map due (other_accounts fee_idx accts)
    \<and> paid (sweep_outputs t) + unat (total_fees p) = funds accts"
proof (rule afa_plan_Ok[OF assms])
  fix fa
  let ?t = "\<lparr>source_utxos = all_outpoints accts,
      sweep_outputs = map (afa_due fee_idx (total_fees p)) (funded accts),
      is_fee_final = True, sweep_psbt = None\<rparr>"
  assume tx: "sweep_transactions p = [?t]"
  then show ?thesis
    using afa_conserves_lemma[OF assms] afa_pays_customers[OF assms]
    by (simp add: settled_def paid_settled_final)
qed

theorem afa_conserves_witness:
  "\<exists>p. afa_plan sat_amounts 0 (demo_accounts 100000 5) (Bitcoin Regtest) (Bitcoin Regtest) 250 = Ok p
     \<and> unat (total_fees p) = 389 \<and> paid (sweep_outputs (hd (sweep_transactions p))) + 389 = 105005"
proof -
  have "afa_plan sat_amounts 0 (demo_accounts 100000 5) (Bitcoin Regtest) (Bitcoin Regtest) 250 =
    Ok \<lparr>sweep_transactions = [\<lparr>source_utxos = [\<lparr>op_txid = 7, op_vout = 0\<rparr>, \<lparr>op_txid = 8, op_vout = 0\<rparr>, \<lparr>op_txid = 9, op_vout = 0\<rparr>],
          sweep_outputs = [Customer 1 ''a'' 5000, FeeChange 0 99616], is_fee_final = True, sweep_psbt = None\<rparr>],
        total_fees = 389, utxo_count = 3\<rparr>" (is "_ = Ok ?p")
    by (simp add: afa_plan_def afa_output_def sweep_eval)
  moreover have "accounts_ok (demo_accounts 100000 5)" by (simp add: demo_simps)
  ultimately show ?thesis
    using afa_conserves[OF sat_amounts_ok, of "demo_accounts 100000 5" 0 "Bitcoin Regtest" "Bitcoin Regtest" 250 ?p]
    by (auto simp: demo_simps)
qed

text \<open>
C16: A single-transaction sweep never panics, and succeeds exactly when the networks agree and the
fee account is funded and covers the estimated fee.\<close>

theorem afa_outcomes:
  assumes "amount_lib_ok A" "accounts_ok accts"
  shows "afa_plan A fee_idx accts old new rate \<noteq> Panic \<and>
    (is_ok (afa_plan A fee_idx accts old new rate) \<longleftrightarrow>
      old = new \<and> (\<exists>fa. fee_account fee_idx accts = Some fa \<and>
        unat (estimate_fee A (input_count accts) (length (funded accts)) rate) \<le> account_value fa))"
proof -
  have d: "distinct (map account_idx accts)" "funds accts \<le> max_money"
    using assms(2) by (auto simp: accounts_ok_def)
  show ?thesis
    unfolding afa_plan_eq[OF assms(1) d] fee_account_def[symmetric]
    by (cases "fee_account fee_idx accts") (auto simp: Let_def is_ok_def fee_account_def)
qed

theorem afa_outcomes_witness:
  "is_ok (afa_plan sat_amounts 0 (demo_accounts 384 5) (Bitcoin Regtest) (Bitcoin Regtest) 250)
   \<and> \<not> is_ok (afa_plan sat_amounts 0 (demo_accounts 383 5) (Bitcoin Regtest) (Bitcoin Regtest) 250)"
proof -
  have e: "estimate_fee sat_amounts (Suc (Suc (Suc 0))) (Suc (Suc 0)) 250 = 389" by (simp add: sweep_eval)
  have "accounts_ok (demo_accounts v 5)" if "v = 384 \<or> v = 383" for v
    using that by (auto simp: demo_simps)
  then show ?thesis
    by (simp add: afa_outcomes[OF sat_amounts_ok] fee_account_def)
      (simp add: demo_simps input_count_def e)
qed

text \<open>
C4: A batched sweep, whenever it succeeds, loses nothing but its stated fees: what reaches the new
federation plus the total fees is all the accounts held; and every other account is paid exactly
once, in full, at its own address.\<close>

theorem batched_conserves:
  assumes "amount_lib_ok A" "accounts_ok accts" "fees_ok A fee_idx limit rate accts"
    and "batched_plan A fee_idx limit accts old new rate = Ok p"
  shows "settled p + unat (total_fees p) = funds accts \<and>
    mset (filter is_customer (concat (map sweep_outputs (sweep_transactions p)))) =
      mset (map due (other_accounts fee_idx accts))"
  using batched.conserves[of A accts fee_idx limit rate old new p] batched_pays_customers[OF assms] assms
  by (simp add: funds_def[symmetric])

definition demo_fee :: "amount \<Rightarrow> amount \<Rightarrow> account_utxo_set" where
  "demo_fee v w = \<lparr>account_idx = 0, utxos = [demo_utxo 8 v, demo_utxo 9 w], destination_address = ''b''\<rparr>"

lemma demo_fee_account: "fee_account 0 (demo_accounts v w) = Some (demo_fee v w)"
  by (simp add: fee_account_def demo_accounts_def demo_fee_def)

lemma demo_values: "first_utxo_value (demo_fee v w) = unat v" "account_value (demo_fee v w) = unat v + unat w"
  by (simp_all add: demo_fee_def first_utxo_value_def account_value_def demo_utxo_def)

lemma demo_groups: "batch_groups 0 1000 (demo_accounts v w) =
    [[\<lparr>account_idx = 1, utxos = [demo_utxo 7 5000], destination_address = ''a''\<rparr>]]"
  by (simp add: batch_groups_def groups_def other_accounts_def demo_accounts_def account_value_def demo_utxo_def)

lemma demo_fees:
  "chain_fees sat_amounts 250 (batch_groups 0 1000 (demo_accounts v w)) = 284"
  "batch_fees sat_amounts 250 0 1000 (demo_accounts v w) (demo_fee v w) = 536"
  unfolding batch_fees_def demo_groups
  by (simp_all add: chain_fees_def group_fee_def final_fee_def demo_fee_def input_count_def sweep_eval)

lemma demo_fees_ok: "fees_ok sat_amounts 0 1000 250 (demo_accounts v w)"
  by (simp add: fees_ok_def demo_fee_account demo_fees max_money_def)

definition demo_plan :: "unsigned_psbt migration_plan" where
  "demo_plan =
     \<lparr>sweep_transactions =
        [\<lparr>source_utxos = [\<lparr>op_txid = 7, op_vout = 0\<rparr>, \<lparr>op_txid = 8, op_vout = 0\<rparr>],
          sweep_outputs = [Customer 1 ''a'' 5000, FeeChange 0 716], is_fee_final = False, sweep_psbt = None\<rparr>,
         \<lparr>source_utxos = [\<lparr>op_txid = 9, op_vout = 0\<rparr>, \<lparr>op_txid = 0, op_vout = 0\<rparr>],
          sweep_outputs = [FeeChange 0 469], is_fee_final = True, sweep_psbt = None\<rparr>],
      total_fees = 536, utxo_count = 4\<rparr>"

lemma demo_batched:
  "batched_plan sat_amounts 0 1000 (demo_accounts 1000 5) (Bitcoin Regtest) (Bitcoin Regtest) 250 = Ok demo_plan"
  by (simp add: batched_plan_def demo_plan_def sweep_eval index_slice_def batched_estimate_total_fees_def
      plan_chain_def plan_large_step_def synthetic_change_outpoint_def)

lemma demo_ok: "accounts_ok (demo_accounts 1000 5)"
  by (simp add: demo_simps)

theorem batched_conserves_witness: "settled demo_plan + 536 = funds (demo_accounts 1000 5)"
  using batched_conserves[OF sat_amounts_ok demo_ok demo_fees_ok demo_batched]
  by (simp add: demo_plan_def)

lemma synthetics_lemma:
  assumes "amount_lib_ok A" "accounts_ok accts" "fees_ok A fee_idx limit rate accts"
    and "batched_plan A fee_idx limit accts old new rate = Ok p"
  shows "filter (\<lambda>out. \<not> real out) (plan_sources p) =
        map synthetic_change_outpoint [0..<length (sweep_transactions p) - 1]"
proof (rule batched_Ok[OF assms])
  let ?gs = "batch_groups fee_idx limit accts"
  fix fa
  assume fa: "fee_account fee_idx accts = Some fa" and p: "p = chain_plan A fee_idx rate fa ?gs"
  note u = fee_account_Some[OF fa]
  obtain x xs where x: "utxos fa = x # xs" using u by (cases "utxos fa") auto
  have r: "real (lo_outpoint x)" "filter (\<lambda>out. \<not> real out) (map lo_outpoint xs) = []"
    using real_accounts(2)[OF assms(2) fa] x by (auto simp: points_of_def filter_empty_conv)
  have tx: "sweep_transactions p = chain_txs A fee_idx rate (lo_outpoint x) 0 (txo_value (lo_txout x)) ?gs @
      [\<lparr>source_utxos = (if ?gs = [] then map lo_outpoint (utxos fa)
                        else map lo_outpoint xs @ [synthetic_change_outpoint (length ?gs - 1)]),
        sweep_outputs = [FeeChange fee_idx (of_nat (account_value fa - (chain_fees A rate ?gs + unat (final_fee A rate fa))))],
        is_fee_final = True, sweep_psbt = None\<rparr>]"
    using u x by (simp add: p chain_plan_simps)
  note chain = chain_synthetics[OF real_accounts(1)[OF assms(2) fa], of A fee_idx rate "lo_outpoint x" 0]
  show ?thesis
  proof (cases "?gs = []")
    case True
    with r x show ?thesis by (simp add: plan_sources_def tx)
  next
    case False
    then obtain k where k: "length ?gs = Suc k" by (cases ?gs) auto
    with False r chain show ?thesis by (simp add: plan_sources_def tx)
  qed
qed

text \<open>
C5: A batched sweep spends every UTXO of every account exactly once and no other; the change of each
transaction but the last is spent exactly once, in order; and only the last transaction is the final
one.\<close>

theorem batched_spends_once:
  assumes "amount_lib_ok A" "accounts_ok accts" "fees_ok A fee_idx limit rate accts"
    and "batched_plan A fee_idx limit accts old new rate = Ok p"
  shows "mset (filter real (plan_sources p)) = mset (all_outpoints accts)
    \<and> filter (\<lambda>out. \<not> real out) (plan_sources p) =
        map synthetic_change_outpoint [0..<length (sweep_transactions p) - 1]
    \<and> map is_fee_final (sweep_transactions p) =
        replicate (length (sweep_transactions p) - 1) False @ [True]"
proof (rule batched_Ok[OF assms])
  let ?gs = "batch_groups fee_idx limit accts"
  fix fa
  assume fa: "fee_account fee_idx accts = Some fa" and p: "p = chain_plan A fee_idx rate fa ?gs"
  have "map is_fee_final (sweep_transactions p) =
        replicate (length (sweep_transactions p) - 1) False @ [True]"
    using fee_account_Some[OF fa] by (simp add: p chain_plan_simps chain_final_flags)
  then show ?thesis
    using batched.spends[of A accts fee_idx limit rate old new p] synthetics_lemma[OF assms] assms
    by (simp add: all_outpoints_points)
qed

theorem batched_spends_once_witness: "mset (filter real (plan_sources demo_plan)) = mset (all_outpoints (demo_accounts 1000 5))"
  using batched_spends_once[OF sat_amounts_ok demo_ok demo_fees_ok demo_batched] by simp

text \<open>
C6: Every chained transaction of a batched sweep balances: it spends its accounts' UTXOs and one fee
input, the first fee UTXO or the change of the transaction before, and its outputs plus its fee are
exactly those inputs.\<close>

theorem batched_balance:
  assumes "amount_lib_ok A" "accounts_ok accts" "fees_ok A fee_idx limit rate accts"
    and "batched_plan A fee_idx limit accts old new rate = Ok p"
    and "fee_account fee_idx accts = Some fa" and "j < length (batch_groups fee_idx limit accts)"
  shows "source_utxos (sweep_transactions p ! j) = all_outpoints (batch_groups fee_idx limit accts ! j) @
      [if j = 0 then lo_outpoint (hd (utxos fa)) else synthetic_change_outpoint (j - 1)]
    \<and> paid (sweep_outputs (sweep_transactions p ! j)) + unat (group_fee A rate (batch_groups fee_idx limit accts ! j)) =
        funds (batch_groups fee_idx limit accts ! j) +
        (if j = 0 then first_utxo_value fa
         else unat (so_amount (last (sweep_outputs (sweep_transactions p ! (j - 1))))))"
proof (rule batched_Ok[OF assms(1-4)])
  let ?gs = "batch_groups fee_idx limit accts" and ?v = "txo_value (lo_txout (hd (utxos fa)))"
  fix fa'
  assume fa': "fee_account fee_idx accts = Some fa'" "chain_fees A rate ?gs \<le> first_utxo_value fa'"
    and p: "p = chain_plan A fee_idx rate fa' ?gs"
  have fa: "fa' = fa" using fa' assms(5) by simp
  note u = fee_account_Some[OF assms(5)]
  have fits: "chain_fees A rate ?gs \<le> unat ?v" "unat ?v \<le> max_money"
    using fa' fa first_utxo_le[of fa] u accounts_value[OF assms(2), of fa]
    by (auto simp: first_utxo_value_def)
  note left = change_left[OF fits]
  have tx: "sweep_transactions p ! i = group_tx fee_idx
        (if i = 0 then lo_outpoint (hd (utxos fa)) else synthetic_change_outpoint (i - 1))
        (?v - of_nat (chain_fees A rate (take (Suc i) ?gs))) (?gs ! i)" if "i < length ?gs" for i
    using that u by (simp add: p fa chain_plan_simps nth_append chain_nth)
  have bound: "account_value a \<le> max_money" if "a \<in> set (?gs ! j)" for a
    using batch_value[OF assms(2,5), of a limit] that assms(6) by (auto dest: nth_mem)
  have step: "chain_fees A rate (take (Suc j) ?gs) = chain_fees A rate (take j ?gs) + unat (group_fee A rate (?gs ! j))"
    using assms(6) by (simp add: take_Suc_conv_app_nth)
  have le: "chain_fees A rate (take (Suc j) ?gs) \<le> unat ?v"
    using chain_fees_take_le[of A rate "Suc j" ?gs] fits(1) by simp
  have "paid (map due (?gs ! j)) = funds (?gs ! j)" using bound by (intro paid_due) simp
  moreover have "paid (sweep_outputs (sweep_transactions p ! j)) =
      paid (map due (?gs ! j)) + (unat ?v - chain_fees A rate (take (Suc j) ?gs))"
    using left[of "Suc j"] by (simp add: tx[OF assms(6)] group_tx_def)
  moreover have "(if j = 0 then first_utxo_value fa
         else unat (so_amount (last (sweep_outputs (sweep_transactions p ! (j - 1))))))
      = unat ?v - chain_fees A rate (take j ?gs)"
    using left[of j] assms(6) by (cases j) (simp_all add: tx group_tx_def first_utxo_value_def)
  ultimately show ?thesis
    using step le by (simp add: tx[OF assms(6)] group_tx_def)
qed

theorem batched_balance_witness:
  "paid (sweep_outputs (sweep_transactions demo_plan ! 0)) + 284 = 5000 + 1000"
proof -
  have "0 < length (batch_groups 0 1000 (demo_accounts 1000 5))" by (simp add: demo_groups)
  from batched_balance[OF sat_amounts_ok demo_ok demo_fees_ok demo_batched demo_fee_account this] show ?thesis
    using demo_fees(1)[of 1000 5]
    by (simp add: demo_groups demo_values chain_fees_def funds_def account_value_def demo_utxo_def)
qed

text \<open>
C7: The batched sweep panics exactly when the pre-flight check passes on the fee account's total
while its first UTXO alone, which funds the whole chain, is worth less than the chain's fees. Short
of that it returns a plan or one of the documented errors.\<close>

theorem batched_panics_iff:
  assumes "amount_lib_ok A" "accounts_ok accts" "fees_ok A fee_idx limit rate accts"
  shows "batched_plan A fee_idx limit accts old new rate = Panic \<longleftrightarrow>
    old = new \<and> (\<exists>fa. fee_account fee_idx accts = Some fa
      \<and> batch_fees A rate fee_idx limit accts fa \<le> account_value fa
      \<and> first_utxo_value fa < chain_fees A rate (batch_groups fee_idx limit accts))"
  unfolding batched_cases[OF assms]
  by (auto simp: not_less fee_account_def split: if_splits option.splits)

theorem batched_panics_iff_witness:
  "batched_plan sat_amounts 0 1000 (demo_accounts 283 5000) (Bitcoin Regtest) (Bitcoin Regtest) 250 = Panic
   \<and> batched_plan sat_amounts 0 1000 (demo_accounts 5000 283) (Bitcoin Regtest) (Bitcoin Regtest) 250 \<noteq> Panic"
proof -
  have "accounts_ok (demo_accounts 283 5000)" "accounts_ok (demo_accounts 5000 283)"
    by (simp_all add: demo_simps)
  then show ?thesis
    using batched_panics_iff[OF sat_amounts_ok _ demo_fees_ok, of 283 5000]
      batched_panics_iff[OF sat_amounts_ok _ demo_fees_ok, of 5000 283]
    by (simp add: demo_fee_account demo_fees demo_values)
qed

text \<open>
C40: The UTXO count of a batched plan counts every UTXO of every account once, and one placeholder for
each transaction after the first: it exceeds the number of UTXOs migrated by the length of the
chain.\<close>

theorem batched_utxo_count:
  assumes "amount_lib_ok A" "accounts_ok accts" "fees_ok A fee_idx limit rate accts"
    and "batched_plan A fee_idx limit accts old new rate = Ok p"
  shows "utxo_count p = input_count accts + (length (sweep_transactions p) - 1)
    \<and> utxo_count p = length (plan_sources p)"
proof (rule batched_Ok[OF assms])
  let ?gs = "batch_groups fee_idx limit accts"
  fix fa
  assume fa: "fee_account fee_idx accts = Some fa" and p: "p = chain_plan A fee_idx rate fa ?gs"
  note u = fee_account_Some[OF fa]
  have "input_count (concat ?gs) + length (utxos fa) = input_count (concat ?gs @ [fa])"
    by (simp add: input_count_single)
  also have "\<dots> = input_count accts"
    using input_count_mset[OF batch_accounts[OF assms(2) fa]] by simp
  finally have count: "utxo_count p = input_count accts + (length (sweep_transactions p) - 1)"
    using u by (simp add: p chain_plan_simps)
  have "length (plan_sources p) = length (filter real (plan_sources p)) + length (filter (\<lambda>out. \<not> real out) (plan_sources p))"
    by (simp add: sum_length_filter_compl)
  moreover have "length (filter real (plan_sources p)) = input_count accts"
    using batched_spends_lemma[OF assms] length_all_outpoints by (metis size_mset)
  moreover have "filter (\<lambda>out. \<not> real out) (plan_sources p) = map synthetic_change_outpoint [0..<length (sweep_transactions p) - 1]"
    using synthetics_lemma[OF assms] .
  ultimately show ?thesis using count by simp
qed

theorem batched_utxo_count_witness: "utxo_count demo_plan = 4 \<and> input_count (demo_accounts 1000 5) = 3"
  using batched_utxo_count[OF sat_amounts_ok demo_ok demo_fees_ok demo_batched] by (simp add: demo_plan_def)

end
