(* ===== verification/Planners.thy ===== *)
theory Planners
  imports Sweep
begin

text \<open>
  What the two sweep planners of \<open>src/migration.rs\<close> have in common: the shape of the plans
  they make, and that they pay the same. A caller may choose either one; only the number of
  transactions and the fees depend on the choice.
\<close>

section \<open>The algorithms as values\<close>

text \<open>The two implementors of \<open>SweepAlgorithm\<close> with their configuration.\<close>

record account_for_account_sweep =
  as_fee_account_idx :: u32

definition account_for_account_sweep_new :: "u32 \<Rightarrow> account_for_account_sweep" where
  "account_for_account_sweep_new fee_account_idx = \<lparr>as_fee_account_idx = fee_account_idx\<rparr>"

record account_for_account_batched_sweep =
  ab_fee_account_idx :: u32
  ab_small_account_threshold :: amount

definition account_for_account_batched_sweep_new :: "u32 \<Rightarrow> amount \<Rightarrow> account_for_account_batched_sweep" where
  "account_for_account_batched_sweep_new fee_account_idx small_account_threshold =
     \<lparr>ab_fee_account_idx = fee_account_idx, ab_small_account_threshold = small_account_threshold\<rparr>"

definition sweep_plan_of :: "amount_lib \<Rightarrow> account_for_account_sweep \<Rightarrow> account_utxo_set list \<Rightarrow> network_type \<Rightarrow>
    network_type \<Rightarrow> fee_rate \<Rightarrow> (unsigned_psbt migration_plan, migration_error) result" where
  "sweep_plan_of A alg = afa_plan A (as_fee_account_idx alg)"

definition batched_sweep_plan_of :: "amount_lib \<Rightarrow> account_for_account_batched_sweep \<Rightarrow> account_utxo_set list \<Rightarrow>
    network_type \<Rightarrow> network_type \<Rightarrow> fee_rate \<Rightarrow> (unsigned_psbt migration_plan, migration_error) result" where
  "batched_sweep_plan_of A alg = batched_plan A (ab_fee_account_idx alg) (ab_small_account_threshold alg)"

section \<open>The shape of a plan\<close>

fun output_account_ok :: "u32 \<Rightarrow> sweep_output \<Rightarrow> bool" where
  "output_account_ok fee_idx (Customer i _ _) \<longleftrightarrow> i \<noteq> fee_idx"
| "output_account_ok fee_idx (FeeChange i _) \<longleftrightarrow> i = fee_idx"

text \<open>A transaction spends something, has no PSBT yet, and pays each account at most once: the fee
  account by exactly one change output, every other account by a customer output.\<close>

definition tx_shape :: "u32 \<Rightarrow> 'p sweep_transaction \<Rightarrow> bool" where
  "tx_shape fee_idx t \<longleftrightarrow> source_utxos t \<noteq> [] \<and> sweep_psbt t = None
     \<and> distinct (map so_account (sweep_outputs t)) \<and> fee_idx \<in> so_account ` set (sweep_outputs t)
     \<and> list_all (output_account_ok fee_idx) (sweep_outputs t)"

definition plan_shape :: "u32 \<Rightarrow> 'p migration_plan \<Rightarrow> bool" where
  "plan_shape fee_idx p \<longleftrightarrow> list_all (tx_shape fee_idx) (sweep_transactions p)
     \<and> map is_fee_final (sweep_transactions p) = replicate (length (sweep_transactions p) - 1) False @ [True]"

lemma afa_due_account: "so_account (afa_due fee_idx fee a) = account_idx a"
  by (simp add: afa_due_def due_def)

lemma afa_due_ok: "output_account_ok fee_idx (afa_due fee_idx fee a)"
  by (simp add: afa_due_def due_def)

lemma afa_shape:
  assumes "amount_lib_ok A" "accounts_ok accts" "afa_plan A fee_idx accts old new rate = Ok p"
  shows "plan_shape fee_idx p"
proof (rule afa_plan_Ok[OF assms])
  let ?t = "\<lparr>source_utxos = all_outpoints accts,
      sweep_outputs = map (afa_due fee_idx (total_fees p)) (funded accts),
      is_fee_final = True, sweep_psbt = None\<rparr>"
  fix fa
  assume fa: "fee_account fee_idx accts = Some fa" and tx: "sweep_transactions p = [?t]"
  note u = fee_account_Some[OF fa]
  have "all_outpoints accts \<noteq> []" using u by (auto simp: all_outpoints_def)
  moreover have "map so_account (sweep_outputs ?t) = map account_idx (funded accts)"
    by (simp add: afa_due_account comp_def)
  moreover have "distinct (map account_idx (funded accts))"
    using assms(2) by (auto simp: accounts_ok_def distinct_map_filter)
  moreover have "fee_idx \<in> so_account ` set (sweep_outputs ?t)"
    using u by (auto simp: image_image afa_due_account)
  ultimately show ?thesis
    by (simp add: plan_shape_def tx tx_shape_def list_all_iff afa_due_ok del: map_map)
qed

lemma group_tx_shape:
  assumes "distinct (map account_idx g)" "fee_idx \<notin> account_idx ` set g"
  shows "tx_shape fee_idx (group_tx fee_idx link change g)"
  using assms by (auto simp: tx_shape_def group_tx_def due_def comp_def list_all_iff)

lemma chain_shape:
  assumes "\<And>g. g \<in> set gs \<Longrightarrow> distinct (map account_idx g) \<and> fee_idx \<notin> account_idx ` set g"
  shows "list_all (tx_shape fee_idx) (chain_txs A fee_idx rate link i budget gs)"
  using assms by (induction gs arbitrary: link i budget) (auto simp: group_tx_shape)

lemma batch_group_accounts:
  assumes "accounts_ok accts" "g \<in> set (batch_groups fee_idx limit accts)"
  shows "distinct (map account_idx g) \<and> fee_idx \<notin> account_idx ` set g"
proof -
  have "distinct (map account_idx accts)" using assms(1) by (simp add: accounts_ok_def)
  then show ?thesis
    using assms(2) by (auto simp: batch_groups_def groups_def distinct_map_filter other_accounts_def split: if_splits)
qed

lemma batched_shape:
  assumes "amount_lib_ok A" "accounts_ok accts" "fees_ok A fee_idx limit rate accts"
    and "batched_plan A fee_idx limit accts old new rate = Ok p"
  shows "plan_shape fee_idx p"
proof (rule batched_Ok[OF assms])
  let ?gs = "batch_groups fee_idx limit accts"
  fix fa
  assume fa: "fee_account fee_idx accts = Some fa" and p: "p = chain_plan A fee_idx rate fa ?gs"
  note u = fee_account_Some[OF fa]
  have "list_all (tx_shape fee_idx) (chain_txs A fee_idx rate link i budget ?gs)" for link i budget
    by (rule chain_shape) (rule batch_group_accounts[OF assms(2)])
  then show ?thesis
    using u by (simp add: plan_shape_def p chain_plan_simps chain_final_flags tx_shape_def)
qed

section \<open>The customers' outputs\<close>

definition customer_outputs :: "'p migration_plan \<Rightarrow> sweep_output multiset" where
  "customer_outputs p = mset (filter is_customer (concat (map sweep_outputs (sweep_transactions p))))"

lemma afa_customers:
  assumes "amount_lib_ok A" "accounts_ok accts" "afa_plan A fee_idx accts old new rate = Ok p"
  shows "customer_outputs p = mset (map due (other_accounts fee_idx accts))"
  by (simp only: customer_outputs_def afa_pays_customers[OF assms])

lemma batched_customers:
  assumes "amount_lib_ok A" "accounts_ok accts" "fees_ok A fee_idx limit rate accts"
    and "batched_plan A fee_idx limit accts old new rate = Ok p"
  shows "customer_outputs p = mset (map due (other_accounts fee_idx accts))"
  by (simp only: customer_outputs_def batched_pays_customers[OF assms])

section \<open>Properties\<close>

text \<open>
C17: Every plan that either planner returns is well formed: each transaction spends something, carries no PSBT yet
and pays each account at most once, the fee account by one change output and the others by customer
outputs; and exactly the last transaction is the final one.\<close>

theorem plans_well_formed:
  assumes "amount_lib_ok A" "accounts_ok accts"
    and "afa_plan A fee_idx accts old new rate = Ok p \<or>
      fees_ok A fee_idx limit rate accts \<and> batched_plan A fee_idx limit accts old new rate = Ok p"
  shows "plan_shape fee_idx p"
  using assms afa_shape batched_shape by blast

theorem plans_well_formed_witness: "plan_shape 0 demo_plan"
  using plans_well_formed[OF sat_amounts_ok demo_ok, of 0 "Bitcoin Regtest" "Bitcoin Regtest" 250 demo_plan 1000]
    demo_batched demo_fees_ok by blast

text \<open>The choice of the planner does not matter to anyone but the fee account: when both succeed on the same
accounts, they pay the same customer outputs and spend the same UTXOs, and what they settle differs
exactly by their fees.\<close>

theorem planners_agree:
  assumes "amount_lib_ok A" "accounts_ok accts" "fees_ok A fee_idx limit rate accts"
    and "afa_plan A fee_idx accts old new rate = Ok p" "batched_plan A fee_idx limit accts old new rate = Ok q"
  shows "customer_outputs p = customer_outputs q
    \<and> mset (filter real (plan_sources p)) = mset (filter real (plan_sources q))
    \<and> settled p + unat (total_fees p) = settled q + unat (total_fees q)"
  using afa_customers[OF assms(1,2,4)] batched_customers[OF assms(1-3,5)]
    afa.spends[of A accts fee_idx old new rate p] batched.spends[of A accts fee_idx limit rate old new q]
    afa.conserves[of A accts fee_idx old new rate p] batched.conserves[of A accts fee_idx limit rate old new q] assms
  by simp

theorem planners_agree_witness:
  "\<exists>p. afa_plan sat_amounts 0 (demo_accounts 1000 5) (Bitcoin Regtest) (Bitcoin Regtest) 250 = Ok p
     \<and> customer_outputs p = customer_outputs demo_plan \<and> settled p + 389 = settled demo_plan + 536"
proof -
  have "afa_plan sat_amounts 0 (demo_accounts 1000 5) (Bitcoin Regtest) (Bitcoin Regtest) 250 =
    Ok \<lparr>sweep_transactions = [\<lparr>source_utxos = [\<lparr>op_txid = 7, op_vout = 0\<rparr>, \<lparr>op_txid = 8, op_vout = 0\<rparr>, \<lparr>op_txid = 9, op_vout = 0\<rparr>],
          sweep_outputs = [Customer 1 ''a'' 5000, FeeChange 0 616], is_fee_final = True, sweep_psbt = None\<rparr>],
        total_fees = 389, utxo_count = 3\<rparr>" (is "_ = Ok ?p")
    by (simp add: afa_plan_def afa_output_def sweep_eval)
  from planners_agree[OF sat_amounts_ok demo_ok demo_fees_ok this demo_batched] this show ?thesis
    by (auto simp: demo_plan_def)
qed

end
