(* ===== verification/Federated_Wallet.thy ===== *)
theory Federated_Wallet
  imports Federation Sweep
begin

text \<open>
  \<open>src/federated_wallet.rs\<close>: the stack of all federation versions, oldest first, each with its
  own watch-only wallet. The wallet type \<open>'w\<close> is BDK's; what the code reads of it is the
  argument \<open>wallet_lib\<close>. The \<open>FederatedWallet\<close> trait is the locale
  \<open>federated_wallet\<close>; \<open>BtcFederatedWallet\<close> is its interpretation.
\<close>

section \<open>The stack\<close>

record 'w federation_wallet =
  fw_federation :: federation
  fw_wallet :: 'w
  fw_index :: nat

record 'w btc_federated_wallet =
  bw_wallets :: "'w federation_wallet list"
  bw_network :: network_type

record 'w wallet_lib =
  balance_total :: "'w \<Rightarrow> amount"
  list_unspent :: "'w \<Rightarrow> local_output list"

definition wallet_new :: "federation \<Rightarrow> 'w \<Rightarrow> ('w btc_federated_wallet, federated_wallet_error) result" where
  "wallet_new f w =
     (if \<not> is_bitcoin (fd_network f) then Err NonBitcoinNetwork
      else Ok \<lparr>bw_wallets = [\<lparr>fw_federation = f, fw_wallet = w, fw_index = 0\<rparr>], bw_network = fd_network f\<rparr>)"

definition with_federation :: "'w btc_federated_wallet \<Rightarrow> federation \<Rightarrow> 'w \<Rightarrow>
    ('w btc_federated_wallet, federated_wallet_error) result" where
  "with_federation bw f w =
     (if \<not> is_bitcoin (fd_network f) then Err NonBitcoinNetwork
      else if fd_network f \<noteq> bw_network bw then Err (We_NetworkMismatch (bw_network bw) (fd_network f))
      else let new_index = length (bw_wallets bw);
               copies = map (\<lambda>fw. \<lparr>fw_federation = fw_federation fw, fw_wallet = fw_wallet fw,
                                    fw_index = fw_index fw\<rparr>) (bw_wallets bw)
           in Ok \<lparr>bw_wallets = copies @ [\<lparr>fw_federation = f, fw_wallet = w, fw_index = new_index\<rparr>],
                  bw_network = bw_network bw\<rparr>)"

text \<open>\<open>Vec::get\<close> and \<open>last\<close>.\<close>

definition get :: "'a list \<Rightarrow> nat \<Rightarrow> 'a option" where
  "get xs i = (if i < length xs then Some (xs ! i) else None)"

definition last_opt :: "'a list \<Rightarrow> 'a option" where
  "last_opt xs = (if xs = [] then None else Some (last xs))"

definition total_balance :: "'w wallet_lib \<Rightarrow> amount_lib \<Rightarrow> 'w btc_federated_wallet \<Rightarrow> (amount, migration_error) result" where
  "total_balance B A bw = fold_amounts A 0 (map (\<lambda>fw. balance_total B (fw_wallet fw)) (bw_wallets bw))"

definition balance_at :: "'w wallet_lib \<Rightarrow> 'w btc_federated_wallet \<Rightarrow> nat \<Rightarrow> amount option" where
  "balance_at B bw i = map_option (\<lambda>fw. balance_total B (fw_wallet fw)) (get (bw_wallets bw) i)"

definition all_utxos :: "'w wallet_lib \<Rightarrow> 'w btc_federated_wallet \<Rightarrow> (nat \<times> local_output) list" where
  "all_utxos B bw = concat (map (\<lambda>fw. map (Pair (fw_index fw)) (list_unspent B (fw_wallet fw))) (bw_wallets bw))"

definition utxos_at :: "'w wallet_lib \<Rightarrow> 'w btc_federated_wallet \<Rightarrow> nat \<Rightarrow> local_output list option" where
  "utxos_at B bw i = map_option (\<lambda>fw. list_unspent B (fw_wallet fw)) (get (bw_wallets bw) i)"

definition wallet_at :: "'w btc_federated_wallet \<Rightarrow> nat \<Rightarrow> 'w option" where
  "wallet_at bw i = map_option fw_wallet (get (bw_wallets bw) i)"

definition wallets :: "'w btc_federated_wallet \<Rightarrow> 'w list" where
  "wallets bw = map fw_wallet (bw_wallets bw)"

text \<open>The algorithm is any \<open>plan\<close> function over single UTXOs.\<close>

fun plan_each ::
    "'w wallet_lib \<Rightarrow> (local_output list \<Rightarrow> network_type \<Rightarrow> network_type \<Rightarrow> fee_rate \<Rightarrow> ('p migration_plan, migration_error) result) \<Rightarrow>
     fee_rate \<Rightarrow> 'w federation_wallet \<Rightarrow> 'w federation_wallet list \<Rightarrow> ((nat \<times> 'p migration_plan) list, migration_error) result" where
  "plan_each B sweep rate cur [] = Ok []"
| "plan_each B sweep rate cur (fw # fws) =
     (if fw_index fw = fw_index cur then plan_each B sweep rate cur fws
      else let us = list_unspent B (fw_wallet fw) in
      if us = [] then plan_each B sweep rate cur fws
      else and_then (sweep us (fd_network (fw_federation fw)) (fd_network (fw_federation cur)) rate) (\<lambda>p.
           and_then (plan_each B sweep rate cur fws) (\<lambda>ps. Ok ((fw_index fw, p) # ps))))"

definition plan_migrations ::
    "'w wallet_lib \<Rightarrow> (local_output list \<Rightarrow> network_type \<Rightarrow> network_type \<Rightarrow> fee_rate \<Rightarrow> ('p migration_plan, migration_error) result) \<Rightarrow>
     fee_rate \<Rightarrow> 'w btc_federated_wallet \<Rightarrow> ((nat \<times> 'p migration_plan) list, migration_error) result" where
  "plan_migrations B sweep rate bw =
     and_then (expect (last_opt (bw_wallets bw))) (\<lambda>cur. plan_each B sweep rate cur (bw_wallets bw))"

text \<open>\<open>FederationMigration\<close> of \<open>src/migration.rs\<close>: two federations and an algorithm.\<close>

record ('u, 'p) federation_migration =
  old_federation :: federation
  new_federation :: federation
  sweep_plan :: "'u list \<Rightarrow> network_type \<Rightarrow> network_type \<Rightarrow> fee_rate \<Rightarrow> ('p migration_plan, migration_error) result"

section \<open>The trait\<close>

text \<open>The operations of \<open>BtcFederatedWallet\<close> that implement the trait. \<open>None\<close> from
  \<open>bw_current\<close> or what is computed from it is the panic on an empty stack.\<close>

definition bw_current :: "'w btc_federated_wallet \<Rightarrow> 'w federation_wallet option" where
  "bw_current bw = last_opt (bw_wallets bw)"

definition bw_at :: "'w btc_federated_wallet \<Rightarrow> nat \<Rightarrow> 'w federation_wallet option" where
  "bw_at bw i = get (bw_wallets bw) i"

definition bw_federation_count :: "'w btc_federated_wallet \<Rightarrow> nat" where
  "bw_federation_count bw = length (bw_wallets bw)"

definition bw_threshold :: "'w btc_federated_wallet \<Rightarrow> u32 option" where
  "bw_threshold bw = map_option (\<lambda>fw. fd_threshold (fw_federation fw)) (bw_current bw)"

definition bw_find_by_signer :: "'w btc_federated_wallet \<Rightarrow> signer_id \<Rightarrow> 'w federation_wallet list" where
  "bw_find_by_signer bw i = filter (\<lambda>fw. contains (fw_federation fw) i) (bw_wallets bw)"

definition bw_signer_is_current :: "'w btc_federated_wallet \<Rightarrow> signer_id \<Rightarrow> bool option" where
  "bw_signer_is_current bw i = map_option (\<lambda>fw. contains (fw_federation fw) i) (bw_current bw)"

definition bw_all_signer_ids :: "'w btc_federated_wallet \<Rightarrow> signer_id set" where
  "bw_all_signer_ids bw = set (concat (map (\<lambda>fw. map sg_id (fd_signers (fw_federation fw))) (bw_wallets bw)))"

definition bw_current_signer_ids :: "'w btc_federated_wallet \<Rightarrow> signer_id set option" where
  "bw_current_signer_ids bw = map_option (\<lambda>fw. set (map sg_id (fd_signers (fw_federation fw)))) (bw_current bw)"

text \<open>What the trait promises of a wallet in order: the stack is oldest first and indexed from 0, the
  current pair is the newest, one network holds for all, and the membership queries agree with the
  stack.\<close>

locale federated_wallet =
  fixes federation_wallets :: "'f \<Rightarrow> 'w federation_wallet list"
    and current :: "'f \<Rightarrow> 'w federation_wallet option"
    and at :: "'f \<Rightarrow> nat \<Rightarrow> 'w federation_wallet option"
    and federation_count :: "'f \<Rightarrow> nat"
    and network :: "'f \<Rightarrow> network_type"
    and find_by_signer :: "'f \<Rightarrow> signer_id \<Rightarrow> 'w federation_wallet list"
    and all_signer_ids :: "'f \<Rightarrow> signer_id set"
    and sound :: "'f \<Rightarrow> bool"
  assumes indexed: "sound x \<Longrightarrow> map fw_index (federation_wallets x) = [0..<federation_count x]"
    and some_current: "sound x \<Longrightarrow> current x = at x (federation_count x - 1) \<and> current x \<noteq> None"
    and at_iff: "at x i = Some fw \<longleftrightarrow> i < federation_count x \<and> federation_wallets x ! i = fw"
    and one_network: "sound x \<Longrightarrow> fw \<in> set (federation_wallets x) \<Longrightarrow> fd_network (fw_federation fw) = network x"
    and found_iff: "fw \<in> set (find_by_signer x sid) \<longleftrightarrow>
          fw \<in> set (federation_wallets x) \<and> sid \<in> sg_id ` set (fd_signers (fw_federation fw))"
    and ids_iff: "sid \<in> all_signer_ids x \<longleftrightarrow> find_by_signer x sid \<noteq> []"
begin

lemma count_length: "sound x \<Longrightarrow> length (federation_wallets x) = federation_count x"
  using indexed[of x] by (metis diff_zero length_map length_upt)

lemma index_at: "sound x \<Longrightarrow> at x i = Some fw \<Longrightarrow> fw_index fw = i"
  unfolding at_iff using indexed[of x] count_length[of x]
  by (metis add_0 nth_map nth_upt)

lemma current_newest: "sound x \<Longrightarrow> current x = Some fw \<Longrightarrow>
    fw \<in> set (federation_wallets x) \<and> (\<forall>fw' \<in> set (federation_wallets x). fw_index fw' \<le> fw_index fw)"
proof -
  assume s: "sound x" "current x = Some fw"
  then have "at x (federation_count x - 1) = Some fw" using some_current by metis
  then have fw: "federation_count x - 1 < federation_count x" "federation_wallets x ! (federation_count x - 1) = fw"
      "fw_index fw = federation_count x - 1"
    using at_iff index_at[OF s(1)] by auto
  have "fw_index fw' < federation_count x" if "fw' \<in> set (federation_wallets x)" for fw'
    using that indexed[OF s(1)] by (metis atLeastLessThan_iff imageI list.set_map set_upt)
  with fw count_length[OF s(1)] show ?thesis by (metis Suc_pred' less_Suc_eq_le nth_mem zero_less_iff_neq_zero not_less_zero)
qed

text \<open>Old members stay known: who is found anywhere is in the union of all ids.\<close>

lemma known_members:
  "fw \<in> set (federation_wallets x) \<Longrightarrow> sg_id ` set (fd_signers (fw_federation fw)) \<subseteq> all_signer_ids x"
  using found_iff[of fw x] ids_iff[of _ x] by (metis empty_iff empty_set subsetI)

end

section \<open>The invariant\<close>

definition wallet_ok :: "'w btc_federated_wallet \<Rightarrow> bool" where
  "wallet_ok bw \<longleftrightarrow> bw_wallets bw \<noteq> [] \<and> map fw_index (bw_wallets bw) = [0..<length (bw_wallets bw)]
     \<and> is_bitcoin (bw_network bw)
     \<and> list_all (\<lambda>fw. fd_network (fw_federation fw) = bw_network bw) (bw_wallets bw)"

lemma wallet_new_ok: "wallet_new f w = Ok bw \<Longrightarrow> wallet_ok bw"
  by (auto simp: wallet_new_def wallet_ok_def split: if_splits)

lemma copy_pair: "\<lparr>fw_federation = fw_federation fw, fw_wallet = fw_wallet fw, fw_index = fw_index fw\<rparr> = fw"
  by simp

lemma with_federation_Ok:
  "with_federation bw f w = Ok bw' \<longleftrightarrow> is_bitcoin (fd_network f) \<and> fd_network f = bw_network bw
     \<and> bw' = \<lparr>bw_wallets = bw_wallets bw @ [\<lparr>fw_federation = f, fw_wallet = w, fw_index = length (bw_wallets bw)\<rparr>],
              bw_network = bw_network bw\<rparr>"
  unfolding with_federation_def Let_def copy_pair by auto

lemma with_federation_ok: "wallet_ok bw \<Longrightarrow> with_federation bw f w = Ok bw' \<Longrightarrow> wallet_ok bw'"
  by (auto simp: with_federation_Ok wallet_ok_def)

interpretation btc: federated_wallet bw_wallets bw_current bw_at bw_federation_count bw_network
    bw_find_by_signer bw_all_signer_ids wallet_ok
proof
  fix x :: "'a btc_federated_wallet" and i fw
  show "wallet_ok x \<Longrightarrow> map fw_index (bw_wallets x) = [0..<bw_federation_count x]"
    by (simp add: wallet_ok_def bw_federation_count_def)
  show "wallet_ok x \<Longrightarrow> bw_current x = bw_at x (bw_federation_count x - 1) \<and> bw_current x \<noteq> None"
    by (simp add: wallet_ok_def bw_federation_count_def bw_current_def bw_at_def last_opt_def get_def last_conv_nth)
  show "bw_at x n = Some fw \<longleftrightarrow> n < bw_federation_count x \<and> bw_wallets x ! n = fw" for n
    by (simp add: bw_federation_count_def bw_at_def get_def)
  show "wallet_ok x \<Longrightarrow> fw \<in> set (bw_wallets x) \<Longrightarrow> fd_network (fw_federation fw) = bw_network x"
    by (simp add: wallet_ok_def list_all_iff)
  show "fw \<in> set (bw_find_by_signer x i) \<longleftrightarrow>
      fw \<in> set (bw_wallets x) \<and> i \<in> sg_id ` set (fd_signers (fw_federation fw))"
    by (simp add: bw_find_by_signer_def contains_iff)
  show "i \<in> bw_all_signer_ids x \<longleftrightarrow> bw_find_by_signer x i \<noteq> []"
    by (auto simp: bw_find_by_signer_def bw_all_signer_ids_def contains_iff filter_empty_conv)
qed

definition wallet_step :: "'w btc_federated_wallet \<Rightarrow> 'w btc_federated_wallet \<Rightarrow> bool" where
  "wallet_step bw bw' \<longleftrightarrow> (\<exists>f w. with_federation bw f w = Ok bw')"

interpretation wallet_history: growing_system wallet_step wallet_ok bw_network
    "\<lambda>bw bw'. extends (bw_wallets bw) (bw_wallets bw')"
  by unfold_locales (auto simp: wallet_step_def with_federation_ok intro: extends_trans, auto simp: with_federation_Ok)

section \<open>Migrations\<close>

text \<open>The federations that have something to migrate.\<close>

definition to_migrate :: "'w wallet_lib \<Rightarrow> 'w federation_wallet \<Rightarrow> 'w federation_wallet list \<Rightarrow> 'w federation_wallet list" where
  "to_migrate B cur fws = filter (\<lambda>fw. fw_index fw \<noteq> fw_index cur \<and> list_unspent B (fw_wallet fw) \<noteq> []) fws"

lemma plan_each_map:
  "plan_each B sweep rate cur fws = result_map (\<lambda>fw. and_then
      (sweep (list_unspent B (fw_wallet fw)) (fd_network (fw_federation fw)) (fd_network (fw_federation cur)) rate)
      (\<lambda>p. Ok (fw_index fw, p))) (to_migrate B cur fws)"
proof (induction fws)
  case (Cons fw fws)
  show ?case
    by (cases "sweep (list_unspent B (fw_wallet fw)) (fd_network (fw_federation fw)) (fd_network (fw_federation cur)) rate")
      (simp_all add: to_migrate_def Let_def Cons.IH[unfolded to_migrate_def])
qed (simp add: to_migrate_def)

lemma indices_old:
  assumes "wallet_ok bw" "last_opt (bw_wallets bw) = Some cur"
  shows "filter (\<lambda>fw. fw_index fw \<noteq> fw_index cur \<and> P fw) (bw_wallets bw) = filter P (butlast (bw_wallets bw))"
proof -
  from assms have ne: "bw_wallets bw = butlast (bw_wallets bw) @ [cur]"
    by (auto simp: last_opt_def split: if_splits)
  have "distinct (map fw_index (bw_wallets bw))" using assms(1) by (simp add: wallet_ok_def)
  then have "distinct (map fw_index (butlast (bw_wallets bw) @ [cur]))" using ne by simp
  then have "filter (\<lambda>fw. fw_index fw \<noteq> fw_index cur \<and> P fw) (butlast (bw_wallets bw) @ [cur]) =
      filter P (butlast (bw_wallets bw))"
    by (auto simp: image_iff intro!: filter_cong)
  then show ?thesis using ne by simp
qed

text \<open>The versions a wallet in order has to migrate: all but the newest that have unspent outputs; and what
  the algorithm answers for one of them, asked with all of its unspent outputs.\<close>

definition old_funded :: "'w wallet_lib \<Rightarrow> 'w btc_federated_wallet \<Rightarrow> 'w federation_wallet list" where
  "old_funded B bw = filter (\<lambda>fw. list_unspent B (fw_wallet fw) \<noteq> []) (butlast (bw_wallets bw))"

definition version_plan ::
    "'w wallet_lib \<Rightarrow> (local_output list \<Rightarrow> network_type \<Rightarrow> network_type \<Rightarrow> fee_rate \<Rightarrow> ('p migration_plan, migration_error) result) \<Rightarrow>
     fee_rate \<Rightarrow> network_type \<Rightarrow> 'w federation_wallet \<Rightarrow> ('p migration_plan, migration_error) result" where
  "version_plan B sweep rate net fw = sweep (list_unspent B (fw_wallet fw)) net net rate"

lemma plan_migrations_map:
  assumes "wallet_ok bw"
  shows "plan_migrations B sweep rate bw = result_map (\<lambda>fw. and_then (version_plan B sweep rate (bw_network bw) fw)
      (\<lambda>p. Ok (fw_index fw, p))) (old_funded B bw)"
proof -
  obtain cur where cur: "last_opt (bw_wallets bw) = Some cur" "cur \<in> set (bw_wallets bw)"
    using assms by (auto simp: wallet_ok_def last_opt_def)
  have net: "fd_network (fw_federation fw) = bw_network bw" if "fw \<in> set (bw_wallets bw)" for fw
    using btc.one_network[OF assms that] .
  have "to_migrate B cur (bw_wallets bw) = old_funded B bw"
    unfolding to_migrate_def old_funded_def by (rule indices_old[OF assms cur(1)])
  then show ?thesis
    by (simp add: plan_migrations_def cur plan_each_map)
      (rule result_map_cong, auto simp: version_plan_def net cur(2) old_funded_def dest: in_set_butlastD)
qed

lemma concat_nonempty: "concat (map g (filter (\<lambda>x. g x \<noteq> []) xs)) = concat (map g xs)"
  by (induction xs) auto

lemma old_utxos:
  assumes "wallet_ok bw"
  shows "map snd (filter (\<lambda>(i, u). Suc i < bw_federation_count bw) (all_utxos B bw)) =
    concat (map (\<lambda>fw. list_unspent B (fw_wallet fw)) (butlast (bw_wallets bw)))"
proof -
  obtain fws fw where ws: "bw_wallets bw = fws @ [fw]"
    using assms by (cases "bw_wallets bw" rule: rev_cases) (auto simp: wallet_ok_def)
  with assms have idx: "map fw_index fws = [0..<length fws]" "fw_index fw = length fws"
    by (auto simp: wallet_ok_def)
  have "filter (\<lambda>(i, u). Suc i < bw_federation_count bw) (map (Pair (fw_index x)) us) = map (Pair (fw_index x)) us"
    if "x \<in> set fws" for x and us :: "local_output list"
  proof -
    have "fw_index x < length fws" using that idx(1) by (metis atLeastLessThan_iff imageI list.set_map set_upt)
    then show ?thesis by (auto simp: filter_id_conv bw_federation_count_def ws)
  qed
  then have "filter (\<lambda>(i, u). Suc i < bw_federation_count bw) (concat (map (\<lambda>fw. map (Pair (fw_index fw)) (list_unspent B (fw_wallet fw))) fws)) =
      concat (map (\<lambda>fw. map (Pair (fw_index fw)) (list_unspent B (fw_wallet fw))) fws)"
    by (auto simp: filter_concat comp_def intro!: arg_cong[of _ _ concat])
  moreover have "filter (\<lambda>(i, u). Suc i < bw_federation_count bw) (map (Pair (fw_index fw)) us) = []" for us :: "local_output list"
    by (auto simp: filter_empty_conv bw_federation_count_def ws idx(2))
  ultimately show ?thesis
    by (simp add: all_utxos_def ws map_concat comp_def)
qed

section \<open>Properties\<close>

definition demo_wallet :: "local_output list btc_federated_wallet" where
  "demo_wallet =
     \<lparr>bw_wallets =
        [\<lparr>fw_federation = demo_federation, fw_wallet = [demo_utxo 7 5000, demo_utxo 8 1], fw_index = 0\<rparr>,
         \<lparr>fw_federation = demo_federation\<lparr>fd_created_at := 9\<rparr>, fw_wallet = [demo_utxo 9 40], fw_index = 1\<rparr>],
      bw_network = Bitcoin Regtest\<rparr>"

definition demo_wallet_lib :: "local_output list wallet_lib" where
  "demo_wallet_lib = \<lparr>balance_total = (\<lambda>us. sum_list (map (\<lambda>u. txo_value (lo_txout u)) us)), list_unspent = (\<lambda>us. us)\<rparr>"

lemma demo_wallet_ok: "wallet_ok demo_wallet"
  by (simp add: wallet_ok_def demo_wallet_def demo_federation_def is_bitcoin_def)

text \<open>However a wallet is grown from its first federation, it stays in order: never empty, indexed from 0 in
the order of addition, on one Bitcoin network; and no earlier federation or its wallet is ever
changed or lost.\<close>

theorem wallet_grows:
  assumes "wallet_new f w = Ok bw" "wallet_step\<^sup>*\<^sup>* bw bw'"
  shows "wallet_ok bw' \<and> bw_network bw' = fd_network f \<and>
    (\<exists>fws. bw_wallets bw' = \<lparr>fw_federation = f, fw_wallet = w, fw_index = 0\<rparr> # fws)"
proof -
  note ok = wallet_new_ok[OF assms(1)]
  have "bw_network bw = fd_network f \<and> bw_wallets bw = [\<lparr>fw_federation = f, fw_wallet = w, fw_index = 0\<rparr>]"
    using assms(1) by (auto simp: wallet_new_def split: if_splits)
  then show ?thesis
    using wallet_history.history_good[OF assms(2) ok] wallet_history.history_fixed[OF assms(2) ok]
      wallet_history.history_grows[OF assms(2) ok] by (simp add: extends_def)
qed

theorem wallet_grows_witness:
  "\<exists>bw'. with_federation \<lparr>bw_wallets = [\<lparr>fw_federation = demo_federation, fw_wallet = (), fw_index = 0\<rparr>],
       bw_network = Bitcoin Regtest\<rparr> demo_federation () = Ok bw' \<and> wallet_ok bw' \<and> length (bw_wallets bw') = 2"
proof -
  let ?bw = "\<lparr>bw_wallets = [\<lparr>fw_federation = demo_federation, fw_wallet = (), fw_index = 0\<rparr>], bw_network = Bitcoin Regtest\<rparr>"
  have new: "wallet_new demo_federation () = Ok ?bw"
    by (simp add: wallet_new_def demo_federation_def is_bitcoin_def)
  obtain bw' where bw': "with_federation ?bw demo_federation () = Ok bw'" "length (bw_wallets bw') = 2"
    by (simp add: with_federation_def demo_federation_def is_bitcoin_def)
  then have "wallet_step ?bw bw'" unfolding wallet_step_def by blast
  then have "wallet_step\<^sup>*\<^sup>* ?bw bw'" by (rule r_into_rtranclp)
  from wallet_grows[OF new this] bw' show ?thesis by blast
qed

text \<open>
C18: Planning the migrations of a wallet in order, with any sweep algorithm and whatever it answers: the algorithm
is asked version by version, oldest first, with all unspent outputs of the version and from the wallet's
network to itself, for every version but the newest that has any. The plans come back in that order,
each tagged with its version, if all of them succeed; otherwise the call gives the first error, and it
panics only with the algorithm. The outputs handed over are together exactly those the wallet lists
for its older versions, none left out, none twice, and none of the newest.\<close>

theorem plan_migrations_outcome:
  assumes "wallet_ok bw"
  shows "(plan_migrations B sweep rate bw = outcome \<longleftrightarrow>
     (case outcome of
        Ok ps \<Rightarrow> list_all2 (\<lambda>fw (i, p). i = fw_index fw \<and> version_plan B sweep rate (bw_network bw) fw = Ok p)
          (old_funded B bw) ps
      | Err e \<Rightarrow> (\<exists>pre fw post. old_funded B bw = pre @ fw # post
          \<and> (\<forall>v \<in> set pre. is_ok (version_plan B sweep rate (bw_network bw) v))
          \<and> version_plan B sweep rate (bw_network bw) fw = Err e)
      | Panic \<Rightarrow> (\<exists>pre fw post. old_funded B bw = pre @ fw # post
          \<and> (\<forall>v \<in> set pre. is_ok (version_plan B sweep rate (bw_network bw) v))
          \<and> version_plan B sweep rate (bw_network bw) fw = Panic)))
    \<and> concat (map (\<lambda>fw. list_unspent B (fw_wallet fw)) (old_funded B bw)) =
        map snd (filter (\<lambda>(i, u). Suc i < bw_federation_count bw) (all_utxos B bw))"
proof
  show "plan_migrations B sweep rate bw = outcome \<longleftrightarrow>
     (case outcome of
        Ok ps \<Rightarrow> list_all2 (\<lambda>fw (i, p). i = fw_index fw \<and> version_plan B sweep rate (bw_network bw) fw = Ok p)
          (old_funded B bw) ps
      | Err e \<Rightarrow> (\<exists>pre fw post. old_funded B bw = pre @ fw # post
          \<and> (\<forall>v \<in> set pre. is_ok (version_plan B sweep rate (bw_network bw) v))
          \<and> version_plan B sweep rate (bw_network bw) fw = Err e)
      | Panic \<Rightarrow> (\<exists>pre fw post. old_funded B bw = pre @ fw # post
          \<and> (\<forall>v \<in> set pre. is_ok (version_plan B sweep rate (bw_network bw) v))
          \<and> version_plan B sweep rate (bw_network bw) fw = Panic))"
    unfolding plan_migrations_map[OF assms]
    by (cases outcome) (auto simp: result_map_Ok_iff result_map_Err_iff result_map_Panic_iff result_simps
        elim!: list_all2_mono)
qed (simp add: old_utxos[OF assms] old_funded_def concat_nonempty)

text \<open>The wallet of the witness asks for its first version only: with both of its outputs if the
  algorithm accepts them, and with its error if it refuses.\<close>

theorem plan_migrations_outcome_witness:
  "plan_migrations demo_wallet_lib (\<lambda>us old new rate. Ok \<lparr>sweep_transactions = [], total_fees = 0, utxo_count = length us\<rparr>)
     1 demo_wallet = Ok [(0, \<lparr>sweep_transactions = ([] :: unit sweep_transaction list), total_fees = 0, utxo_count = 2\<rparr>)]
   \<and> plan_migrations demo_wallet_lib (\<lambda>us old new rate. Err NoUtxos) 1 demo_wallet =
     (Err NoUtxos :: ((nat \<times> unit migration_plan) list, migration_error) result)"
proof
  show "plan_migrations demo_wallet_lib (\<lambda>us old new rate. Ok \<lparr>sweep_transactions = [], total_fees = 0, utxo_count = length us\<rparr>)
     1 demo_wallet = Ok [(0, \<lparr>sweep_transactions = ([] :: unit sweep_transaction list), total_fees = 0, utxo_count = 2\<rparr>)]"
    unfolding plan_migrations_outcome[OF demo_wallet_ok, THEN conjunct1] result.case
    by (simp add: version_plan_def old_funded_def demo_wallet_def demo_wallet_lib_def)
  have "old_funded demo_wallet_lib demo_wallet = [] @ hd (bw_wallets demo_wallet) # []"
    by (simp add: old_funded_def demo_wallet_def demo_wallet_lib_def)
  then show "plan_migrations demo_wallet_lib (\<lambda>us old new rate. Err NoUtxos) 1 demo_wallet =
     (Err NoUtxos :: ((nat \<times> unit migration_plan) list, migration_error) result)"
    unfolding plan_migrations_outcome[OF demo_wallet_ok, THEN conjunct1] result.case
    by (intro exI conjI) (auto simp: version_plan_def)
qed

text \<open>The membership queries agree: a signer is in the union of all ids exactly when some version lists it; it is
current exactly when it is among the current ids; and those are among all.\<close>

theorem membership_queries:
  assumes "wallet_ok bw"
  shows "(sid \<in> bw_all_signer_ids bw \<longleftrightarrow> bw_find_by_signer bw sid \<noteq> [])
    \<and> (bw_signer_is_current bw sid = Some True \<longleftrightarrow> (\<exists>ids. bw_current_signer_ids bw = Some ids \<and> sid \<in> ids))
    \<and> (\<exists>ids. bw_current_signer_ids bw = Some ids \<and> ids \<subseteq> bw_all_signer_ids bw)"
proof -
  obtain cur where cur: "bw_current bw = Some cur" using btc.some_current[OF assms] by blast
  then have "cur \<in> set (bw_wallets bw)" using btc.current_newest[OF assms] by blast
  from btc.known_members[OF this] cur show ?thesis
    by (auto simp: btc.ids_iff bw_signer_is_current_def bw_current_signer_ids_def contains_iff)
qed

theorem membership_queries_witness:
  "\<exists>ids. bw_current_signer_ids demo_wallet = Some ids \<and> ids \<subseteq> bw_all_signer_ids demo_wallet"
  using membership_queries[OF demo_wallet_ok] by blast

end
