(* ===== verification/Federation_Spec.thy ===== *)
theory Federation_Spec
  imports Federation
begin

text \<open>
  What a federation promises, without signer lists, descriptors or clocks: a threshold and a finite
  map from signer ids to signers, changed by four operations that are defined exactly when the ids
  fit and the quorum rules hold. The mutations of \<open>src/federation.rs\<close> refine it: what they
  do to the view of a federation is what the specification says, and they refuse everything it
  refuses.
\<close>

section \<open>The specification\<close>

record quorum =
  qu_threshold :: nat
  qu_members :: "signer_id \<rightharpoonup> signer"

datatype mutation = Rotate signer_id signer | Join signer | Leave signer_id | Requorum u32

definition quorate :: "quorum \<Rightarrow> bool" where
  "quorate q \<longleftrightarrow> 0 < qu_threshold q \<and> qu_threshold q \<le> card (dom (qu_members q))
     \<and> 2 \<le> card (dom (qu_members q)) \<and> card (dom (qu_members q)) < 2 ^ 32"

fun intended :: "quorum \<Rightarrow> mutation \<Rightarrow> quorum option" where
  "intended q (Rotate old new) =
     (let m = (qu_members q)(old := None) in
      if qu_members q old = None \<or> m (sg_id new) \<noteq> None then None
      else Some (q\<lparr>qu_members := m(sg_id new \<mapsto> new)\<rparr>))"
| "intended q (Join new) =
     (if qu_members q (sg_id new) \<noteq> None then None
      else Some (q\<lparr>qu_members := (qu_members q)(sg_id new \<mapsto> new)\<rparr>))"
| "intended q (Leave sid) =
     (if qu_members q sid = None then None else Some (q\<lparr>qu_members := (qu_members q)(sid := None)\<rparr>))"
| "intended q (Requorum k) = Some (q\<lparr>qu_threshold := unat k\<rparr>)"

definition quorum_step :: "quorum \<Rightarrow> mutation \<Rightarrow> quorum option" where
  "quorum_step q m = Option.bind (intended q m) (\<lambda>q'. if quorate q' then Some q' else None)"

section \<open>The implementation\<close>

fun mutate :: "ms_lib \<Rightarrow> system_time \<Rightarrow> federation \<Rightarrow> mutation \<Rightarrow> (federation, federation_error) result" where
  "mutate L now f (Rotate old new) = rotate_signer L now f old new"
| "mutate L now f (Join new) = add_signer L now f new"
| "mutate L now f (Leave sid) = remove_signer L now f sid"
| "mutate L now f (Requorum k) = change_threshold L now f k"

primrec members_of :: "signer list \<Rightarrow> signer_id \<rightharpoonup> signer" where
  "members_of [] = Map.empty"
| "members_of (s # ss) = (members_of ss)(sg_id s \<mapsto> s)"

definition quorum_of :: "federation \<Rightarrow> quorum" where
  "quorum_of f = \<lparr>qu_threshold = unat (fd_threshold f), qu_members = members_of (fd_signers f)\<rparr>"

lemma members_of_None: "members_of ss i = None \<longleftrightarrow> i \<notin> sg_id ` set ss"
  by (induction ss) auto

lemma dom_members_of: "dom (members_of ss) = sg_id ` set ss"
  by (rule set_eqI) (simp add: domIff members_of_None)

lemma members_of_Some: "distinct (map sg_id ss) \<Longrightarrow> members_of ss i = Some s \<longleftrightarrow> s \<in> set ss \<and> sg_id s = i"
  by (induction ss) (auto simp: image_iff)

lemma card_members_of: "distinct (map sg_id ss) \<Longrightarrow> card (dom (members_of ss)) = length ss"
  by (metis dom_members_of distinct_card length_map list.set_map)

lemma map_eqI: "(\<And>i s. m i = Some s \<longleftrightarrow> m' i = Some s) \<Longrightarrow> m = m'"
  by (rule ext) (metis not_Some_eq)

lemma members_of_append: "sg_id s \<notin> sg_id ` set ss \<Longrightarrow> members_of (ss @ [s]) = (members_of ss)(sg_id s \<mapsto> s)"
  by (induction ss) (auto simp: fun_upd_twist)

lemma members_of_filter: "members_of (filter (\<lambda>s. sg_id s \<noteq> i) ss) = (members_of ss)(i := None)"
  by (induction ss) (auto simp: fun_upd_twist)

lemma members_of_swap:
  assumes "distinct (map sg_id ss)" "old \<in> sg_id ` set ss" "sg_id new \<in> sg_id ` set ss \<longrightarrow> sg_id new = old"
  shows "distinct (map sg_id (map (\<lambda>s. if sg_id s = old then new else s) ss))"
    and "members_of (map (\<lambda>s. if sg_id s = old then new else s) ss) = (members_of ss)(old := None, sg_id new \<mapsto> new)"
proof -
  let ?swap = "\<lambda>s. if sg_id s = old then new else s"
  show d: "distinct (map sg_id (map ?swap ss))"
  proof -
    have "inj_on (\<lambda>i. if i = old then sg_id new else i) (set (map sg_id ss))"
      using assms(3) by (auto simp: inj_on_def) (metis imageI)+
    then have "distinct (map (\<lambda>i. if i = old then sg_id new else i) (map sg_id ss))"
      using assms(1) by (simp only: distinct_map)
    then show ?thesis by (simp add: comp_def if_distrib)
  qed
  show "members_of (map ?swap ss) = (members_of ss)(old := None, sg_id new \<mapsto> new)"
  proof (rule map_eqI)
    fix i s
    have "members_of (map ?swap ss) i = Some s \<longleftrightarrow> s \<in> ?swap ` set ss \<and> sg_id s = i"
      using members_of_Some[OF d] by simp
    also have "\<dots> \<longleftrightarrow> ((members_of ss)(old := None, sg_id new \<mapsto> new)) i = Some s"
      using assms(2,3) members_of_Some[OF assms(1)] by (auto intro: imageI) (metis imageI)+
    finally show "members_of (map ?swap ss) i = Some s \<longleftrightarrow> \<dots>" .
  qed
qed

text \<open>The signer list each mutation builds, and the specification in its terms.\<close>

fun new_signers :: "federation \<Rightarrow> mutation \<Rightarrow> signer list" where
  "new_signers f (Rotate old new) = map (\<lambda>s. if sg_id s = old then new else s) (fd_signers f)"
| "new_signers f (Join new) = fd_signers f @ [new]"
| "new_signers f (Leave sid) = filter (\<lambda>s. sg_id s \<noteq> sid) (fd_signers f)"
| "new_signers f (Requorum k) = fd_signers f"

fun new_threshold :: "federation \<Rightarrow> mutation \<Rightarrow> u32" where
  "new_threshold f (Requorum k) = k"
| "new_threshold f m = fd_threshold f"

fun ids_fit :: "federation \<Rightarrow> mutation \<Rightarrow> bool" where
  "ids_fit f (Rotate old new) \<longleftrightarrow> old \<in> sg_id ` set (fd_signers f)
     \<and> (sg_id new \<in> sg_id ` set (fd_signers f) \<longrightarrow> sg_id new = old)"
| "ids_fit f (Join new) \<longleftrightarrow> sg_id new \<notin> sg_id ` set (fd_signers f)"
| "ids_fit f (Leave sid) \<longleftrightarrow> sid \<in> sg_id ` set (fd_signers f)"
| "ids_fit f (Requorum k) \<longleftrightarrow> True"

lemma mutate_Ok:
  "mutate L now f m = Ok f' \<longleftrightarrow> ids_fit f m
     \<and> with_config L now (new_threshold f m) (new_signers f m) (fd_network f) (fd_key_mode f) (fd_script_type f) = Ok f'"
  by (cases m) (auto simp: rotate_Ok add_Ok remove_Ok change_threshold_def)

lemma intended_eq:
  assumes "distinct (map sg_id (fd_signers f))"
  shows "intended (quorum_of f) m =
    (if ids_fit f m then Some \<lparr>qu_threshold = unat (new_threshold f m), qu_members = members_of (new_signers f m)\<rparr> else None)"
proof (cases m)
  case (Rotate old new)
  then show ?thesis
    using assms by (auto simp: quorum_of_def Let_def members_of_swap(2) members_of_None) (metis members_of_None option.distinct(1))
qed (auto simp: quorum_of_def members_of_append members_of_filter members_of_None)

lemma new_signers_distinct:
  "distinct (map sg_id (fd_signers f)) \<Longrightarrow> ids_fit f m \<Longrightarrow> distinct (map sg_id (new_signers f m))"
  by (cases m) (auto simp: members_of_swap(1) distinct_map_filter simp del: map_map)

lemma quorate_iff:
  "distinct (map sg_id ss) \<Longrightarrow>
    quorate \<lparr>qu_threshold = unat k, qu_members = members_of ss\<rparr> \<longleftrightarrow>
      0 < k \<and> unat k \<le> length ss \<and> 2 \<le> length ss \<and> length ss < 2 ^ 32"
  by (simp add: quorate_def card_members_of word_gt_0 unat_gt_0)

lemma quorum_step_Some:
  assumes "distinct (map sg_id (fd_signers f))"
  shows "quorum_step (quorum_of f) m = Some q \<longleftrightarrow> ids_fit f m
     \<and> 0 < new_threshold f m \<and> unat (new_threshold f m) \<le> length (new_signers f m)
     \<and> 2 \<le> length (new_signers f m) \<and> length (new_signers f m) < 2 ^ 32
     \<and> q = \<lparr>qu_threshold = unat (new_threshold f m), qu_members = members_of (new_signers f m)\<rparr>"
proof (cases "ids_fit f m")
  case True
  from quorate_iff[OF new_signers_distinct[OF assms True]] True show ?thesis
    by (auto simp: quorum_step_def intended_eq[OF assms])
qed (simp add: quorum_step_def intended_eq[OF assms])

section \<open>The refinement\<close>

text \<open>
C23: A mutation of a federation succeeds exactly when the abstract quorum admits it, every member of the result
supports the network and, on Bitcoin, the builder accepts the new signer list; the abstract quorum
of the result is then the one the specification computes.\<close>

theorem mutations_refine:
  assumes "federation_ok L f"
  shows "(\<exists>f'. mutate L now f m = Ok f' \<and> quorum_of f' = q) \<longleftrightarrow>
    quorum_step (quorum_of f) m = Some q
    \<and> (\<forall>s \<in> set (new_signers f m). fd_network f \<in> set (sg_supported_networks s))
    \<and> (is_bitcoin (fd_network f) \<longrightarrow> (\<exists>d. build_federation_descriptor L (new_threshold f m) (new_signers f m)
          (fd_network f) (fd_key_mode f) (fd_script_type f) = Ok d))"
proof -
  let ?k = "new_threshold f m" and ?ss = "new_signers f m"
  have q: "quorum_of f' = \<lparr>qu_threshold = unat ?k, qu_members = members_of ?ss\<rparr>"
    if "mutate L now f m = Ok f'" for f'
    using that by (auto simp: mutate_Ok with_config_Ok quorum_of_def)
  have "(\<exists>f'. mutate L now f m = Ok f') \<longleftrightarrow> ids_fit f m \<and> roster_ok ?k ?ss (fd_network f)
    \<and> (is_bitcoin (fd_network f) \<longrightarrow> (\<exists>d. build_federation_descriptor L ?k ?ss
          (fd_network f) (fd_key_mode f) (fd_script_type f) = Ok d))"
    unfolding mutate_Ok with_config_def
    by (auto simp: result_simps Let_def split: prod.splits)
  moreover note quorum_step_Some[OF federation_ok_ids[OF assms], of m q]
    new_signers_distinct[OF federation_ok_ids[OF assms], of m]
  ultimately show ?thesis using q unfolding roster_ok_def list_all_iff by metis
qed

theorem mutations_refine_witness:
  "(\<exists>f'. mutate demo_lib 5 demo_federation (Join (demo_signer ''c'' 4)) = Ok f'
      \<and> dom (qu_members (quorum_of f')) = {SignerId ''a'', SignerId ''b'', SignerId ''c''})
    \<and> \<not> (\<exists>f'. mutate demo_lib 5 demo_federation (Leave (SignerId ''a'')) = Ok f')"
proof -
  let ?join = "Join (demo_signer ''c'' 4)" and ?leave = "Leave (SignerId ''a'')"
  let ?q = "\<lparr>qu_threshold = 2, qu_members = members_of [demo_signer ''a'' 9, demo_signer ''b'' 1, demo_signer ''c'' 4]\<rparr>"
  have "quorum_step (quorum_of demo_federation) ?join = Some ?q"
    unfolding quorum_step_Some[OF federation_ok_ids[OF demo_federation_ok]]
    by (simp add: demo_federation_def demo_signer_def)
  moreover have "\<exists>d. build_federation_descriptor demo_lib 2 (new_signers demo_federation ?join) (Bitcoin Regtest) Fixed Script_Wsh = Ok d"
    by (simp add: federation_eval)
  moreover have "quorum_step (quorum_of demo_federation) ?leave = None"
    using quorum_step_Some[OF federation_ok_ids[OF demo_federation_ok], of ?leave]
    by (cases "quorum_step (quorum_of demo_federation) ?leave") (auto simp: demo_federation_def demo_signer_def)
  ultimately show ?thesis
    using mutations_refine[OF demo_federation_ok, of 5 ?join ?q] mutations_refine[OF demo_federation_ok, of 5 ?leave]
    by (auto simp: demo_federation_def demo_signer_def dom_def) 
qed

end
