(* ===== verification/Vault.thy ===== *)
theory Vault
  imports Federated_Wallet Federation_Spec
begin

text \<open>
  The life of a vault: \<open>src/federation.rs\<close> and \<open>src/federated_wallet.rs\<close>
  together. The owner mutates the newest federation of the wallet and pushes the result on the
  stack.
\<close>

section \<open>Histories\<close>

inductive vault_step :: "ms_lib \<Rightarrow> 'w btc_federated_wallet \<Rightarrow> 'w btc_federated_wallet \<Rightarrow> bool" for L where
  evolve: "bw_current bw = Some fw \<Longrightarrow> mutate L now (fw_federation fw) m = Ok f \<Longrightarrow>
    with_federation bw f w = Ok bw' \<Longrightarrow> vault_step L bw bw'"

inductive_cases vault_stepE: "vault_step L bw bw'"

lemma mutate_step: "mutate L now f m = Ok f' \<Longrightarrow> federation_step L f f'"
  by (cases m) (auto intro: federation_step.intros)

definition config :: "federation \<Rightarrow> network_type \<times> key_mode \<times> script_type" where
  "config f = (fd_network f, fd_key_mode f, fd_script_type f)"

text \<open>Every version is in order, and each is one mutation away from the one before.\<close>

definition vault_ok :: "ms_lib \<Rightarrow> 'w btc_federated_wallet \<Rightarrow> bool" where
  "vault_ok L bw \<longleftrightarrow> wallet_ok bw
     \<and> list_all (\<lambda>f. federation_ok L f \<and> config f = config (fw_federation (hd (bw_wallets bw)))) (map fw_federation (bw_wallets bw))
     \<and> successively (federation_step L) (map fw_federation (bw_wallets bw))"

lemma vault_ok_current:
  assumes "vault_ok L bw"
  obtains fw where "bw_current bw = Some fw" "fw = last (bw_wallets bw)" "bw_wallets bw \<noteq> []"
    and "federation_ok L (fw_federation fw)" "config (fw_federation fw) = config (fw_federation (hd (bw_wallets bw)))"
    and "fd_network (fw_federation fw) = bw_network bw" "is_bitcoin (bw_network bw)"
proof (rule that)
  from assms have w: "wallet_ok bw" by (simp add: vault_ok_def)
  then show ne: "bw_wallets bw \<noteq> []" and "is_bitcoin (bw_network bw)" by (simp_all add: wallet_ok_def)
  from ne show "bw_current bw = Some (last (bw_wallets bw))" by (simp add: bw_current_def last_opt_def)
  from ne have l: "last (bw_wallets bw) \<in> set (bw_wallets bw)" by simp
  from btc.one_network[OF w l] show "fd_network (fw_federation (last (bw_wallets bw))) = bw_network bw" .
  from assms l show "federation_ok L (fw_federation (last (bw_wallets bw)))"
    and "config (fw_federation (last (bw_wallets bw))) = config (fw_federation (hd (bw_wallets bw)))"
    by (simp_all add: vault_ok_def list_all_iff)
qed simp

lemma mutate_config: "mutate L now f m = Ok f' \<Longrightarrow> federation_ok L f' \<and> config f' = config f"
  by (auto simp: mutate_Ok with_config_Ok config_def)

lemma vault_accepts:
  assumes "vault_ok L bw" "bw_current bw = Some fw" "mutate L now (fw_federation fw) m = Ok f"
  shows "with_federation bw f w = Ok \<lparr>bw_wallets = bw_wallets bw @ [\<lparr>fw_federation = f, fw_wallet = w, fw_index = length (bw_wallets bw)\<rparr>],
      bw_network = bw_network bw\<rparr>"
  using vault_ok_current[OF assms(1)] assms(2) mutate_config[OF assms(3)]
  unfolding with_federation_Ok config_def by (metis option.inject prod.inject)

lemma vault_step_ok:
  assumes "vault_ok L bw" "vault_step L bw bw'"
  shows "vault_ok L bw' \<and> extends (bw_wallets bw) (bw_wallets bw') \<and> bw_network bw' = bw_network bw"
proof -
  from assms(2) obtain fw now m f w where fw: "bw_current bw = Some fw"
      and f: "mutate L now (fw_federation fw) m = Ok f" and bw': "with_federation bw f w = Ok bw'"
    by (auto elim: vault_stepE)
  have "fw = last (bw_wallets bw)" "bw_wallets bw \<noteq> []"
      and c: "config (fw_federation fw) = config (fw_federation (hd (bw_wallets bw)))"
    using vault_ok_current[OF assms(1)] fw by auto
  moreover have "wallet_ok bw'" using with_federation_ok[OF _ bw'] assms(1) by (simp add: vault_ok_def)
  moreover have "bw_wallets bw' = bw_wallets bw @ [\<lparr>fw_federation = f, fw_wallet = w, fw_index = length (bw_wallets bw)\<rparr>]"
      "bw_network bw' = bw_network bw"
    using bw' by (auto simp: with_federation_Ok)
  ultimately show ?thesis
    using assms(1) mutate_step[OF f] mutate_config[OF f]
    by (auto simp: vault_ok_def successively_append_iff last_map)
qed

interpretation vault_history: growing_system "vault_step L" "vault_ok L" bw_network
    "\<lambda>bw bw'. extends (bw_wallets bw) (bw_wallets bw')" for L
  by unfold_locales (auto dest: vault_step_ok intro: extends_trans)

section \<open>Properties\<close>

text \<open>
C24: A vault grown from one federation by mutating the newest and pushing the result stays consistent: its first
version is the one it was made of, every version is a federation in order with the network, key mode
and script type of the first, each is one mutation away from the one before, the wallet never refuses
the result of a mutation of its newest federation, and no version is changed or lost later on.\<close>

theorem vault_history_consistent:
  assumes "wallet_new f w = Ok bw0" "federation_ok L f" "(vault_step L)\<^sup>*\<^sup>* bw0 bw"
  shows "wallet_ok bw \<and> hd (bw_wallets bw) = \<lparr>fw_federation = f, fw_wallet = w, fw_index = 0\<rparr>
    \<and> list_all (\<lambda>g. federation_ok L g \<and> config g = config f) (map fw_federation (bw_wallets bw))
    \<and> successively (federation_step L) (map fw_federation (bw_wallets bw))
    \<and> (\<forall>now m g w'. mutate L now (fw_federation (last (bw_wallets bw))) m = Ok g \<longrightarrow>
          (\<exists>bw'. with_federation bw g w' = Ok bw'))
    \<and> (\<forall>bw'. (vault_step L)\<^sup>*\<^sup>* bw bw' \<longrightarrow> (\<exists>later. bw_wallets bw' = bw_wallets bw @ later))"
proof -
  from assms(1) have new: "bw_wallets bw0 = [\<lparr>fw_federation = f, fw_wallet = w, fw_index = 0\<rparr>]"
    by (auto simp: wallet_new_def split: if_splits)
  have ok0: "vault_ok L bw0"
    using wallet_new_ok[OF assms(1)] assms(2) by (simp add: vault_ok_def new)
  note ok = vault_history.history_good[OF assms(3) ok0]
  have hd: "hd (bw_wallets bw) = \<lparr>fw_federation = f, fw_wallet = w, fw_index = 0\<rparr>"
    using extends_hd[OF vault_history.history_grows[OF assms(3) ok0]] by (simp add: new)
  have kept: "(vault_step L)\<^sup>*\<^sup>* bw bw' \<Longrightarrow> \<exists>later. bw_wallets bw' = bw_wallets bw @ later" for bw'
    using vault_history.history_grows[OF _ ok] by (simp add: extends_def)
  have "bw_current bw = Some (last (bw_wallets bw))" using vault_ok_current[OF ok] by metis
  from vault_accepts[OF ok this] hd ok kept show ?thesis by (auto simp: vault_ok_def)
qed

text \<open>Witness: a third signer joins.\<close>

theorem vault_history_consistent_witness:
  "\<exists>bw :: unit btc_federated_wallet. length (bw_wallets bw) = 2 \<and> wallet_ok bw
     \<and> list_all (\<lambda>g. federation_ok demo_lib g \<and> config g = config demo_federation) (map fw_federation (bw_wallets bw))"
proof -
  let ?fw = "\<lparr>fw_federation = demo_federation, fw_wallet = (), fw_index = 0\<rparr>"
  let ?bw0 = "\<lparr>bw_wallets = [?fw], bw_network = Bitcoin Regtest\<rparr>"
  have new: "wallet_new demo_federation () = Ok ?bw0"
    by (simp add: wallet_new_def demo_federation_def is_bitcoin_def)
  obtain f' where "add_signer demo_lib 5 demo_federation (demo_signer ''c'' 4) = Ok f'"
    using demo_add by blast
  then have f': "mutate demo_lib 5 (fw_federation ?fw) (Join (demo_signer ''c'' 4)) = Ok f'" by simp
  have ok: "vault_ok demo_lib ?bw0"
    using wallet_new_ok[OF new] demo_federation_ok by (simp add: vault_ok_def)
  have cur: "bw_current ?bw0 = Some ?fw" by (simp add: bw_current_def last_opt_def)
  from vault_accepts[OF ok cur f', of "()"] obtain bw' where bw': "with_federation ?bw0 f' () = Ok bw'"
      "length (bw_wallets bw') = 2" by auto
  have "vault_step demo_lib ?bw0 bw'" by (rule vault_step.evolve[OF cur f' bw'(1)])
  then have "(vault_step demo_lib)\<^sup>*\<^sup>* ?bw0 bw'" by (rule r_into_rtranclp)
  from vault_history_consistent[OF new demo_federation_ok this] bw'(2) show ?thesis by blast
qed

end
