(* ===== verification/Chain_Sync.thy ===== *)
theory Chain_Sync
  imports Chain_Types
begin

text \<open>
  \<open>src/chain_sync.rs\<close>: loading a BDK wallet and synchronising it with a bitcoind node. The
  node (with bdk_bitcoind_rpc's emitter) and the BDK wallet are the arguments \<open>N\<close> and
  \<open>B\<close>: the state of the node is passed through every call, since its chain and mempool may
  change between two calls, and a method that takes \<open>&mut self\<close> returns the wallet it leaves
  behind. The drive loop may run for ever against a node that never stops emitting blocks, so it is
  an \<open>option\<close>-valued partial function. A small node and wallet after the lemmas serve the witnesses
  and show what a failed rebuild leaves behind.
\<close>

section \<open>Loading a wallet\<close>

datatype init_wallet_error = Decode string | Load string | EmptyChangeSet | Create string

record ('w, 'c) loaded_wallet =
  lw_wallet :: 'w
  lw_changeset :: 'c
  lw_fresh :: bool

record ('w, 'c, 'j) load_lib =
  decode_changeset :: "'j \<Rightarrow> ('c, string) result"
  load_wallet_no_persist :: "network \<Rightarrow> 'c \<Rightarrow> ('w option, string) result"
  create_from_two_path_descriptor :: "string \<Rightarrow> network \<Rightarrow> ('w, string) result"
  default_changeset :: 'c

definition init_or_load_wallet :: "('w, 'c, 'j) load_lib \<Rightarrow> network \<Rightarrow> string \<Rightarrow> 'j option \<Rightarrow>
    (('w, 'c) loaded_wallet, init_wallet_error) result" where
  "init_or_load_wallet I n d persisted =
     (case persisted of
        Some json \<Rightarrow>
          and_then (map_err Decode (decode_changeset I json)) (\<lambda>aggregate.
          and_then (map_err Load (load_wallet_no_persist I n aggregate)) (\<lambda>loaded.
          and_then (ok_or EmptyChangeSet loaded) (\<lambda>w.
          Ok \<lparr>lw_wallet = w, lw_changeset = aggregate, lw_fresh = False\<rparr>)))
      | None \<Rightarrow>
          and_then (map_err Create (create_from_two_path_descriptor I d n)) (\<lambda>w.
          Ok \<lparr>lw_wallet = w, lw_changeset = default_changeset I, lw_fresh = True\<rparr>))"

section \<open>The node and the wallet\<close>

record block_id =
  bi_height :: u32
  bi_hash :: word256

datatype keychain_kind = External_Keychain | Internal_Keychain

datatype chain_position = Confirmed | Unconfirmed

record wallet_tx =
  wt_txid :: word256
  wt_position :: chain_position

datatype apply_header_error = InconsistentBlocks | CannotConnect u32

record 'b block_event =
  be_block :: 'b
  be_height :: u32
  be_connected_to :: block_id

record ('r, 'e, 'b, 'p) node_lib =
  emitter_new :: "'r \<Rightarrow> 'p \<Rightarrow> u32 \<Rightarrow> 'e"
  next_block :: "'r \<Rightarrow> 'e \<Rightarrow> ('r \<times> 'e) \<times> ('b block_event option, string) result"
  get_mempool :: "'r \<Rightarrow> 'e \<Rightarrow> ('r \<times> 'e) \<times> ((transaction \<times> u64) list, string) result"
  tx_txid :: "transaction \<Rightarrow> word256"

record ('w, 'b, 'p, 'c) bdk_lib =
  latest_checkpoint :: "'w \<Rightarrow> 'p"
  cp_height :: "'p \<Rightarrow> u32"
  wallet_txs :: "'w \<Rightarrow> wallet_tx list"
  all_anchors :: "'w \<Rightarrow> (word256 \<times> block_id list) list"
  chain_hash_at :: "'w \<Rightarrow> u32 \<Rightarrow> word256 option"
  apply_block_connected_to :: "'w \<Rightarrow> 'b \<Rightarrow> u32 \<Rightarrow> block_id \<Rightarrow> 'w \<times> (unit, apply_header_error) result"
  apply_unconfirmed_txs :: "'w \<Rightarrow> (transaction \<times> u64) list \<Rightarrow> 'w"
  take_staged :: "'w \<Rightarrow> 'w \<times> 'c option"
  public_descriptor :: "'w \<Rightarrow> keychain_kind \<Rightarrow> descriptor"
  derivation_index :: "'w \<Rightarrow> keychain_kind \<Rightarrow> u32 option"
  wallet_network :: "'w \<Rightarrow> network"
  create_wallet :: "descriptor \<Rightarrow> descriptor \<Rightarrow> network \<Rightarrow> ('w, string) result"
  reveal_addresses_to :: "'w \<Rightarrow> keychain_kind \<Rightarrow> u32 \<Rightarrow> 'w"

section \<open>Synchronising\<close>

record 'c sync_result =
  sr_changeset :: "'c option"
  blocks_synced :: u32
  new_mempool_txs :: u32
  tip_height :: u32
  evicted_txids :: "word256 list"
  reorg_rebuilt :: bool

text \<open>The Esplora and Electrum backends report the same fields in a type of their own; each has an
  adapter (built with the feature of its name).\<close>

record 'c backend_sync_result =
  bs_changeset :: "'c option"
  bs_blocks_synced :: u32
  bs_new_mempool_txs :: u32
  bs_tip_height :: u32
  bs_evicted_txids :: "word256 list"
  bs_reorg_rebuilt :: bool

definition from_esplora :: "'c backend_sync_result \<Rightarrow> 'c sync_result" where
  "from_esplora r =
     \<lparr>sr_changeset = bs_changeset r, blocks_synced = bs_blocks_synced r, new_mempool_txs = bs_new_mempool_txs r,
      tip_height = bs_tip_height r, evicted_txids = bs_evicted_txids r, reorg_rebuilt = bs_reorg_rebuilt r\<rparr>"

definition from_electrum :: "'c backend_sync_result \<Rightarrow> 'c sync_result" where
  "from_electrum r =
     \<lparr>sr_changeset = bs_changeset r, blocks_synced = bs_blocks_synced r, new_mempool_txs = bs_new_mempool_txs r,
      tip_height = bs_tip_height r, evicted_txids = bs_evicted_txids r, reorg_rebuilt = bs_reorg_rebuilt r\<rparr>"

datatype chain_sync_error = Rpc string | ApplyBlock u32 apply_header_error | Rebuild string

definition saturating_succ :: "u32 \<Rightarrow> u32" where
  "saturating_succ n = (if n = - 1 then - 1 else n + 1)"

text \<open>\<open>u32::try_from(n).unwrap_or(u32::MAX)\<close>\<close>

definition clamp_u32 :: "nat \<Rightarrow> u32" where
  "clamp_u32 n = (if n < 2 ^ 32 then of_nat n else - 1)"

text \<open>The set of confirmed transactions, in the iteration order \<open>h\<close> of its hash set.\<close>

definition confirmed_txids :: "('w, 'b, 'p, 'c) bdk_lib \<Rightarrow> (word256 list \<Rightarrow> word256 list) \<Rightarrow> 'w \<Rightarrow> word256 list" where
  "confirmed_txids B h w = hash_collect h (map wt_txid (filter (\<lambda>t. wt_position t = Confirmed) (wallet_txs B w)))"

definition has_orphaned_anchor :: "('w, 'b, 'p, 'c) bdk_lib \<Rightarrow> 'w \<Rightarrow> bool" where
  "has_orphaned_anchor B w \<longleftrightarrow>
     list_ex (\<lambda>b. chain_hash_at B w (bi_height b) \<noteq> Some (bi_hash b)) (concat (map snd (all_anchors B w)))"

definition has_stale_unconfirmed :: "('w, 'b, 'p, 'c) bdk_lib \<Rightarrow> 'w \<Rightarrow> word256 set \<Rightarrow> bool" where
  "has_stale_unconfirmed B w mempool_txids \<longleftrightarrow>
     list_ex (\<lambda>t. wt_position t = Unconfirmed \<and> wt_txid t \<notin> mempool_txids) (wallet_txs B w)"

text \<open>The drive loop: blocks are pulled and connected until the node has no more. A block that does
  not connect ends it with the error of the wallet.\<close>

partial_function (option) drive :: "('r, 'e, 'b, 'p) node_lib \<Rightarrow> ('w, 'b, 'p, 'c) bdk_lib \<Rightarrow> 'r \<Rightarrow> 'e \<Rightarrow> 'w \<Rightarrow> u32 \<Rightarrow>
    ('r \<times> 'e \<times> 'w \<times> (u32, chain_sync_error) result) option" where
  "drive N B r e w n =
     (case next_block N r e of ((r', e'), ev) \<Rightarrow>
        (case ev of
           Err m \<Rightarrow> Some (r', e', w, Err (Rpc m))
         | Panic \<Rightarrow> Some (r', e', w, Panic)
         | Ok ob \<Rightarrow>
             (case ob of
                None \<Rightarrow> Some (r', e', w, Ok n)
              | Some b \<Rightarrow>
                  (case apply_block_connected_to B w (be_block b) (be_height b) (be_connected_to b) of (w', a) \<Rightarrow>
                     (case a of
                        Ok _ \<Rightarrow> drive N B r' e' w' (saturating_succ n)
                      | Err source \<Rightarrow> Some (r', e', w', Err (ApplyBlock (be_height b) source))
                      | Panic \<Rightarrow> Some (r', e', w', Panic))))))"

text \<open>An emitter started at the wallet's checkpoint and driven until it has no more blocks.\<close>

definition drive_from_tip :: "('r, 'e, 'b, 'p) node_lib \<Rightarrow> ('w, 'b, 'p, 'c) bdk_lib \<Rightarrow> 'r \<Rightarrow> 'w \<Rightarrow>
    ('r \<times> 'e \<times> 'w \<times> (u32, chain_sync_error) result) option" where
  "drive_from_tip N B r w =
     (let cp = latest_checkpoint B w;
          start_height = cp_height B cp
      in drive N B r (emitter_new N r cp start_height) w 0)"

definition reveal_to :: "('w, 'b, 'p, 'c) bdk_lib \<Rightarrow> keychain_kind \<Rightarrow> u32 option \<Rightarrow> 'w \<Rightarrow> 'w" where
  "reveal_to B k oi w = (case oi of None \<Rightarrow> w | Some i \<Rightarrow> reveal_addresses_to B w k i)"

text \<open>The tail of a rebuild, once the fresh wallet has been driven to the tip.\<close>

definition finish_rebuild :: "('w, 'b, 'p, 'c) bdk_lib \<Rightarrow> 'w \<Rightarrow> (transaction \<times> u64) list \<Rightarrow> u32 \<Rightarrow> word256 list \<Rightarrow>
    'w \<times> 'c sync_result" where
  "finish_rebuild B fresh update n before_confirmed =
     (let fresh' = apply_unconfirmed_txs B fresh update;
          after_all = set (map wt_txid (wallet_txs B fresh'));
          evicted = sort (filter (\<lambda>t. t \<notin> after_all) before_confirmed);
          tip = cp_height B (latest_checkpoint B fresh')
      in case take_staged B fresh' of (w', cs) \<Rightarrow>
        (w', \<lparr>sr_changeset = cs, blocks_synced = n, new_mempool_txs = clamp_u32 (length update), tip_height = tip,
              evicted_txids = evicted, reorg_rebuilt = True\<rparr>))"

text \<open>A wallet created from the public descriptors of the old one, with the same addresses
  revealed.\<close>

definition fresh_wallet :: "('w, 'b, 'p, 'c) bdk_lib \<Rightarrow> 'w \<Rightarrow> ('w, chain_sync_error) result" where
  "fresh_wallet B w =
     (let ext = public_descriptor B w External_Keychain;
          int = public_descriptor B w Internal_Keychain;
          reveal_ext = derivation_index B w External_Keychain;
          reveal_int = derivation_index B w Internal_Keychain
      in and_then (map_err Rebuild (create_wallet B ext int (wallet_network B w))) (\<lambda>fresh.
         Ok (reveal_to B Internal_Keychain reveal_int (reveal_to B External_Keychain reveal_ext fresh))))"

text \<open>On an error the caller's wallet is left as it is; on success it is replaced.\<close>

definition rebuild_on_reorg :: "('r, 'e, 'b, 'p) node_lib \<Rightarrow> ('w, 'b, 'p, 'c) bdk_lib \<Rightarrow> 'r \<Rightarrow> 'w \<Rightarrow> word256 list \<Rightarrow>
    ('r \<times> 'w \<times> ('c sync_result, chain_sync_error) result) option" where
  "rebuild_on_reorg N B r w before_confirmed =
     (case fresh_wallet B w of
        Err err \<Rightarrow> Some (r, w, Err err)
      | Panic \<Rightarrow> Some (r, w, Panic)
      | Ok fresh \<Rightarrow>
          (case drive_from_tip N B r fresh of
             None \<Rightarrow> None
           | Some (r1, e1, fresh1, res) \<Rightarrow>
               (case res of
                  Err err \<Rightarrow> Some (r1, w, Err err)
                | Panic \<Rightarrow> Some (r1, w, Panic)
                | Ok n \<Rightarrow>
                    (case get_mempool N r1 e1 of ((r2, _), m) \<Rightarrow>
                       (case m of
                          Err x \<Rightarrow> Some (r2, w, Err (Rpc x))
                        | Panic \<Rightarrow> Some (r2, w, Panic)
                        | Ok update \<Rightarrow>
                            (case finish_rebuild B fresh1 update n before_confirmed of (w', sr) \<Rightarrow>
                               Some (r2, w', Ok sr)))))))"

text \<open>The second half of \<open>emitter_sync\<close>: what follows once all blocks are connected.\<close>

definition sync_mempool :: "('r, 'e, 'b, 'p) node_lib \<Rightarrow> ('w, 'b, 'p, 'c) bdk_lib \<Rightarrow> 'r \<Rightarrow> 'e \<Rightarrow> 'w \<Rightarrow> u32 \<Rightarrow> word256 list \<Rightarrow>
    ('r \<times> 'w \<times> ('c sync_result, chain_sync_error) result) option" where
  "sync_mempool N B r e w n before_confirmed =
     (case get_mempool N r e of ((r', _), m) \<Rightarrow>
        (case m of
           Err x \<Rightarrow> Some (r', w, Err (Rpc x))
         | Panic \<Rightarrow> Some (r', w, Panic)
         | Ok update \<Rightarrow>
             let mempool_txids = set (map (\<lambda>(tx, _). tx_txid N tx) update);
                 w' = apply_unconfirmed_txs B w update
             in if has_stale_unconfirmed B w' mempool_txids then rebuild_on_reorg N B r' w' before_confirmed
                else let tip = cp_height B (latest_checkpoint B w') in
                  case take_staged B w' of (w'', cs) \<Rightarrow>
                    Some (r', w'', Ok \<lparr>sr_changeset = cs, blocks_synced = n, new_mempool_txs = clamp_u32 (length update),
                      tip_height = tip, evicted_txids = [], reorg_rebuilt = False\<rparr>)))"

definition emitter_sync :: "('r, 'e, 'b, 'p) node_lib \<Rightarrow> ('w, 'b, 'p, 'c) bdk_lib \<Rightarrow> (word256 list \<Rightarrow> word256 list) \<Rightarrow> 'r \<Rightarrow> 'w \<Rightarrow>
    ('r \<times> 'w \<times> ('c sync_result, chain_sync_error) result) option" where
  "emitter_sync N B h r w =
     (let before_confirmed = confirmed_txids B h w
      in case drive_from_tip N B r w of
           None \<Rightarrow> None
         | Some (r1, e1, w1, res) \<Rightarrow>
             (case res of
                Panic \<Rightarrow> Some (r1, w1, Panic)
              | Err err \<Rightarrow>
                  (case err of
                     ApplyBlock _ (CannotConnect _) \<Rightarrow> rebuild_on_reorg N B r1 w1 before_confirmed
                   | _ \<Rightarrow> Some (r1, w1, Err err))
              | Ok n \<Rightarrow>
                  let after_confirmed = confirmed_txids B h w1;
                      demoted = list_ex (\<lambda>t. t \<notin> set after_confirmed) before_confirmed
                  in if demoted \<or> has_orphaned_anchor B w1 then rebuild_on_reorg N B r1 w1 before_confirmed
                     else sync_mempool N B r1 e1 w1 n before_confirmed))"

section \<open>The drive loop\<close>

text \<open>A node that runs dry: asked again and again, its emitter at some point gives no block.\<close>

inductive runs_dry :: "('r, 'e, 'b, 'p) node_lib \<Rightarrow> 'r \<Rightarrow> 'e \<Rightarrow> bool" for N where
  stop: "\<nexists>b. snd (next_block N r e) = Ok (Some b) \<Longrightarrow> runs_dry N r e"
| step: "next_block N r e = ((r', e'), Ok (Some b)) \<Longrightarrow> runs_dry N r' e' \<Longrightarrow> runs_dry N r e"

text \<open>A run of the loop that connects the blocks \<open>bs\<close>.\<close>

inductive connects :: "('r, 'e, 'b, 'p) node_lib \<Rightarrow> ('w, 'b, 'p, 'c) bdk_lib \<Rightarrow> 'r \<Rightarrow> 'e \<Rightarrow> 'w \<Rightarrow> 'b block_event list \<Rightarrow>
    'r \<Rightarrow> 'e \<Rightarrow> 'w \<Rightarrow> bool" for N B where
  none: "connects N B r e w [] r e w"
| block: "next_block N r e = ((r1, e1), Ok (Some b)) \<Longrightarrow>
    apply_block_connected_to B w (be_block b) (be_height b) (be_connected_to b) = (w1, Ok ()) \<Longrightarrow>
    connects N B r1 e1 w1 bs r2 e2 w2 \<Longrightarrow> connects N B r e w (b # bs) r2 e2 w2"

inductive_simps connects_Nil: "connects N B r e w [] r' e' w'"
inductive_cases connects_ConsE: "connects N B r e w (b # bs) r' e' w'"

lemma drive_step:
  "next_block N r e = ((r', e'), Ok (Some b)) \<Longrightarrow>
   apply_block_connected_to B w (be_block b) (be_height b) (be_connected_to b) = (w', Ok ()) \<Longrightarrow>
   drive N B r e w n = drive N B r' e' w' (saturating_succ n)"
  by (subst drive.simps) simp

lemma drive_returns: "runs_dry N r e \<Longrightarrow> \<exists>x. drive N B r e w n = Some x"
proof (induction arbitrary: w n rule: runs_dry.induct)
  case (stop r e)
  obtain s ev where ev: "next_block N r e = (s, ev)" by fastforce
  then show ?case using stop
    by (subst drive.simps, cases s; cases ev; cases "case ev of Ok ob \<Rightarrow> ob | _ \<Rightarrow> None") auto
next
  case (step r e r' e' b)
  obtain w1 a where a: "apply_block_connected_to B w (be_block b) (be_height b) (be_connected_to b) = (w1, a)"
    by fastforce
  show ?case
  proof (cases a)
    case (Ok u)
    then show ?thesis using step a drive_step[of N r e r' e' b B w w1 n] by simp
  qed (use step a in \<open>subst drive.simps, simp\<close>)+
qed

lemma unat_max_u32: "unat (- 1 :: u32) = 2 ^ 32 - 1"
  by (simp add: unsigned_minus_1_eq_mask mask_eq_exp_minus_1)

lemma unat_u32_bound: "unat (n :: u32) \<le> 2 ^ 32 - 1"
  using unsigned_less[of n, where 'a = nat] by simp

lemma unat_saturating_succ: "unat (saturating_succ n) = min (unat n + 1) (2 ^ 32 - 1)"
proof (cases "n = - 1")
  case True
  then show ?thesis by (simp add: saturating_succ_def unat_max_u32)
next
  case False
  then have "unat n \<noteq> 2 ^ 32 - 1"
    using word_unat_eq_iff[of n "- 1"] by (simp add: unat_max_u32)
  moreover have "unat n < 2 ^ 32" using unat_u32_bound[of n] by simp
  ultimately have "unat n + 1 < 2 ^ 32" by linarith
  then show ?thesis
    using False by (simp add: saturating_succ_def unat_word_ariths)
qed

text \<open>When the loop ends without an error it has connected every block it was given, in order, and
  counted them, saturating.\<close>

definition drive_post :: "('r, 'e, 'b, 'p) node_lib \<Rightarrow> ('w, 'b, 'p, 'c) bdk_lib \<Rightarrow> 'r \<Rightarrow> 'e \<Rightarrow> 'w \<Rightarrow> u32 \<Rightarrow>
    'r \<times> 'e \<times> 'w \<times> (u32, chain_sync_error) result \<Rightarrow> bool" where
  "drive_post N B r e w n x \<longleftrightarrow> (case x of (r', e', w', res) \<Rightarrow> \<forall>n'. res = Ok n' \<longrightarrow>
     (\<exists>bs r1 e1. connects N B r e w bs r1 e1 w' \<and> next_block N r1 e1 = ((r', e'), Ok None)
       \<and> unat n' = min (unat n + length bs) (2 ^ 32 - 1)))"

lemma drive_post_step:
  assumes "next_block N r e = ((r', e'), Ok (Some b))"
    and "apply_block_connected_to B w (be_block b) (be_height b) (be_connected_to b) = (w', Ok ())"
    and "drive_post N B r' e' w' (saturating_succ n) x"
  shows "drive_post N B r e w n x"
proof -
  obtain r2 e2 w2 res where x: "x = (r2, e2, w2, res)" by (metis prod.exhaust)
  have "\<exists>bs r1 e1. connects N B r e w bs r1 e1 w2 \<and> next_block N r1 e1 = ((r2, e2), Ok None)
      \<and> unat m = min (unat n + length bs) (2 ^ 32 - 1)" if res: "res = Ok m" for m
  proof -
    obtain bs r1 e1 where bs: "connects N B r' e' w' bs r1 e1 w2" "next_block N r1 e1 = ((r2, e2), Ok None)"
      "unat m = min (unat (saturating_succ n) + length bs) (2 ^ 32 - 1)"
      using assms(3) res unfolding drive_post_def x by auto
    have "unat m = min (unat n + length (b # bs)) (2 ^ 32 - 1)"
      using bs(3) unfolding unat_saturating_succ by simp
    with connects.block[OF assms(1,2) bs(1)] bs(2) show ?thesis by blast
  qed
  then show ?thesis by (simp add: drive_post_def x)
qed

lemma drive_Ok:
  assumes "drive N B r e w n = Some (r', e', w', Ok n')"
  shows "\<exists>bs r1 e1. connects N B r e w bs r1 e1 w' \<and> next_block N r1 e1 = ((r', e'), Ok None)
    \<and> unat n' = min (unat n + length bs) (2 ^ 32 - 1)"
proof -
  have "drive_post N B r e w n (r', e', w', Ok n')"
  proof (rule drive.raw_induct[where P = drive_post, OF _ assms], goal_cases)
    case (1 f N B r e w n x)
    obtain r1 e1 ev where ev: "next_block N r e = ((r1, e1), ev)" by (metis prod.exhaust)
    consider (stop) "\<nexists>b. ev = Ok (Some b)" | (block) b where "ev = Ok (Some b)" by blast
    then show ?case
    proof cases
      case stop
      then show ?thesis
        using 1(2) ev unat_u32_bound[of n] by (auto simp: drive_post_def min_absorb1 connects_Nil
            split: result.splits option.splits intro!: exI[of _ "[]"])
    next
      case (block b)
      obtain w1 a where a: "apply_block_connected_to B w (be_block b) (be_height b) (be_connected_to b) = (w1, a)"
        by fastforce
      show ?thesis
      proof (cases a)
        case (Ok u)
        have "f N B r1 e1 w1 (saturating_succ n) = Some x" using 1(2) ev block a Ok by simp
        then have post: "drive_post N B r1 e1 w1 (saturating_succ n) x" by (rule 1(1))
        have a': "apply_block_connected_to B w (be_block b) (be_height b) (be_connected_to b) = (w1, Ok ())"
          using a Ok by simp
        show ?thesis by (rule drive_post_step[OF ev[unfolded block] a' post])
      qed (use 1(2) ev block a in \<open>auto simp: drive_post_def\<close>)
    qed
  qed
  then show ?thesis by (simp add: drive_post_def)
qed

section \<open>Synchronisation\<close>

text \<open>What the sync relies on of BDK's views of a wallet: adding mempool transactions leaves the
  anchors and the local chain, and keeps what was confirmed; taking the staged changes changes none of
  the views.\<close>

definition bdk_views_ok :: "('w, 'b, 'p, 'c) bdk_lib \<Rightarrow> bool" where
  "bdk_views_ok B \<longleftrightarrow>
     (\<forall>w u. all_anchors B (apply_unconfirmed_txs B w u) = all_anchors B w
       \<and> chain_hash_at B (apply_unconfirmed_txs B w u) = chain_hash_at B w
       \<and> (\<forall>t \<in> set (wallet_txs B w). wt_position t = Confirmed \<longrightarrow>
            t \<in> set (wallet_txs B (apply_unconfirmed_txs B w u)))) \<and>
     (\<forall>w. wallet_txs B (fst (take_staged B w)) = wallet_txs B w
       \<and> all_anchors B (fst (take_staged B w)) = all_anchors B w
       \<and> chain_hash_at B (fst (take_staged B w)) = chain_hash_at B w
       \<and> latest_checkpoint B (fst (take_staged B w)) = latest_checkpoint B w)"

definition is_confirmed :: "('w, 'b, 'p, 'c) bdk_lib \<Rightarrow> 'w \<Rightarrow> word256 \<Rightarrow> bool" where
  "is_confirmed B w txid \<longleftrightarrow> (\<exists>t \<in> set (wallet_txs B w). wt_txid t = txid \<and> wt_position t = Confirmed)"

definition knows_tx :: "('w, 'b, 'p, 'c) bdk_lib \<Rightarrow> 'w \<Rightarrow> word256 \<Rightarrow> bool" where
  "knows_tx B w txid \<longleftrightarrow> txid \<in> wt_txid ` set (wallet_txs B w)"

lemma set_confirmed_txids: "hash_order h \<Longrightarrow> txid \<in> set (confirmed_txids B h w) \<longleftrightarrow> is_confirmed B w txid"
  by (auto simp: confirmed_txids_def is_confirmed_def)

lemma distinct_confirmed_txids: "hash_order h \<Longrightarrow> distinct (confirmed_txids B h w)"
  by (simp add: confirmed_txids_def distinct_hash_collect)

lemma has_orphaned_anchor_iff: "has_orphaned_anchor B w \<longleftrightarrow>
    (\<exists>(_, bs) \<in> set (all_anchors B w). \<exists>b \<in> set bs. chain_hash_at B w (bi_height b) \<noteq> Some (bi_hash b))"
  by (force simp: has_orphaned_anchor_def list_ex_iff)

lemma has_stale_unconfirmed_iff: "has_stale_unconfirmed B w pool \<longleftrightarrow>
    (\<exists>t \<in> set (wallet_txs B w). wt_position t = Unconfirmed \<and> wt_txid t \<notin> pool)"
  by (auto simp: has_stale_unconfirmed_def list_ex_iff)

text \<open>Inversion of a successful rebuild, and of a sync that succeeds without one.\<close>

lemma rebuild_Ok:
  assumes "rebuild_on_reorg N B r w before = Some (r', w', Ok sr)"
  obtains fresh r1 e1 f1 n e2 update where "fresh_wallet B w = Ok fresh"
    "drive_from_tip N B r fresh = Some (r1, e1, f1, Ok n)" "get_mempool N r1 e1 = ((r', e2), Ok update)"
    "finish_rebuild B f1 update n before = (w', sr)"
proof -
  obtain fresh where fresh: "fresh_wallet B w = Ok fresh"
    using assms by (cases "fresh_wallet B w") (simp_all add: rebuild_on_reorg_def)
  obtain r1 e1 f1 res where d: "drive_from_tip N B r fresh = Some (r1, e1, f1, res)"
    using assms fresh by (cases "drive_from_tip N B r fresh") (auto simp: rebuild_on_reorg_def)
  obtain n where res: "res = Ok n"
    using assms by (cases res) (simp_all add: rebuild_on_reorg_def fresh d)
  obtain r2 e2 m where m: "get_mempool N r1 e1 = ((r2, e2), m)" by (metis prod.exhaust)
  obtain update where up: "m = Ok update"
    using assms by (cases m) (simp_all add: rebuild_on_reorg_def fresh d res m)
  show thesis
    using assms fresh d m unfolding res up
    by (intro that) (simp_all add: rebuild_on_reorg_def split: prod.splits)
qed

lemma rebuild_marks: "rebuild_on_reorg N B r w before = Some (r', w', Ok sr) \<Longrightarrow> reorg_rebuilt sr"
  by (erule rebuild_Ok) (auto simp: finish_rebuild_def Let_def split: prod.splits)

lemma sync_mempool_Ok:
  assumes "sync_mempool N B r e w n before = Some (r', w', Ok sr)"
  obtains (rebuilt) r1 w1 where "reorg_rebuilt sr" "rebuild_on_reorg N B r1 w1 before = Some (r', w', Ok sr)"
  | (plain) e2 update where "\<not> reorg_rebuilt sr" "get_mempool N r e = ((r', e2), Ok update)"
     "\<not> has_stale_unconfirmed B (apply_unconfirmed_txs B w update) (set (map (\<lambda>(tx, _). tx_txid N tx) update))"
     "take_staged B (apply_unconfirmed_txs B w update) = (w', sr_changeset sr)"
     "sr = \<lparr>sr_changeset = sr_changeset sr, blocks_synced = n, new_mempool_txs = clamp_u32 (length update),
        tip_height = cp_height B (latest_checkpoint B (apply_unconfirmed_txs B w update)), evicted_txids = [],
        reorg_rebuilt = False\<rparr>"
proof -
  obtain r2 e2 m where m: "get_mempool N r e = ((r2, e2), m)" by (metis prod.exhaust)
  obtain update where up: "m = Ok update"
    using assms by (cases m) (simp_all add: sync_mempool_def m)
  let ?w = "apply_unconfirmed_txs B w update"
  show thesis
  proof (cases "has_stale_unconfirmed B ?w (set (map (\<lambda>(tx, _). tx_txid N tx) update))")
    case True
    then have r: "rebuild_on_reorg N B r2 ?w before = Some (r', w', Ok sr)"
      using assms by (simp add: sync_mempool_def m up)
    show thesis by (rule rebuilt[OF rebuild_marks[OF r] r])
  next
    case False
    obtain w2 cs where "take_staged B ?w = (w2, cs)" by fastforce
    with False assms m show thesis
      by (intro plain[of e2 update]) (auto simp: sync_mempool_def up)
  qed
qed

lemma sync_Ok:
  assumes "emitter_sync N B h r w = Some (r', w', Ok sr)"
  obtains (rebuilt) r1 w1 where "reorg_rebuilt sr"
     "rebuild_on_reorg N B r1 w1 (confirmed_txids B h w) = Some (r', w', Ok sr)"
  | (plain) r1 e1 w1 n where "\<not> reorg_rebuilt sr" "drive_from_tip N B r w = Some (r1, e1, w1, Ok n)"
     "\<forall>t \<in> set (confirmed_txids B h w). t \<in> set (confirmed_txids B h w1)" "\<not> has_orphaned_anchor B w1"
     "sync_mempool N B r1 e1 w1 n (confirmed_txids B h w) = Some (r', w', Ok sr)"
proof -
  let ?before = "confirmed_txids B h w"
  obtain r1 e1 w1 res where d: "drive_from_tip N B r w = Some (r1, e1, w1, res)"
    using assms by (cases "drive_from_tip N B r w") (auto simp: emitter_sync_def)
  have again: thesis if "rebuild_on_reorg N B r1 w1 ?before = Some (r', w', Ok sr)"
    by (rule rebuilt[OF rebuild_marks[OF that] that])
  show thesis
  proof (cases res)
    case (Err err)
    then show thesis
      using assms again by (simp add: emitter_sync_def d split: chain_sync_error.splits apply_header_error.splits)
  next
    case Panic
    then show thesis using assms by (simp add: emitter_sync_def d)
  next
    case (Ok n)
    let ?demoted = "list_ex (\<lambda>t. t \<notin> set (confirmed_txids B h w1)) ?before"
    show thesis
    proof (cases "?demoted \<or> has_orphaned_anchor B w1")
      case True
      with assms again Ok show thesis by (simp add: emitter_sync_def d Let_def)
    next
      case False
      with assms Ok have "sync_mempool N B r1 e1 w1 n ?before = Some (r', w', Ok sr)"
        by (simp add: emitter_sync_def d Let_def)
      with False d Ok plain again show thesis
        by (cases "reorg_rebuilt sr") (use rebuilt in \<open>auto simp: list_ex_iff elim: sync_mempool_Ok\<close>)
    qed
  qed
qed

text \<open>Why a sync gives a wallet up, and what the rebuild then starts from: the node and the wallet as
  the drive loop left them, when a block could not be connected, a confirmed transaction is confirmed
  no longer, or an anchor lies off the chain; and as the mempool left them, when none of this is so but
  an unconfirmed transaction is not in it.\<close>

inductive gives_up :: "('r, 'e, 'b, 'p) node_lib \<Rightarrow> ('w, 'b, 'p, 'c) bdk_lib \<Rightarrow> 'r \<Rightarrow> 'w \<Rightarrow> 'r \<Rightarrow> 'w \<Rightarrow> bool" for N B r w where
  refused: "drive_from_tip N B r w = Some (s, e, v, Err (ApplyBlock k (CannotConnect x))) \<Longrightarrow> gives_up N B r w s v"
| demoted: "drive_from_tip N B r w = Some (s, e, v, Ok n) \<Longrightarrow>
    is_confirmed B w txid \<Longrightarrow> \<not> is_confirmed B v txid \<Longrightarrow> gives_up N B r w s v"
| orphaned: "drive_from_tip N B r w = Some (s, e, v, Ok n) \<Longrightarrow> has_orphaned_anchor B v \<Longrightarrow> gives_up N B r w s v"
| stale: "drive_from_tip N B r w = Some (s, e, v, Ok n) \<Longrightarrow>
    \<forall>txid. is_confirmed B w txid \<longrightarrow> is_confirmed B v txid \<Longrightarrow> \<not> has_orphaned_anchor B v \<Longrightarrow>
    get_mempool N s e = ((s', e'), Ok pool) \<Longrightarrow>
    has_stale_unconfirmed B (apply_unconfirmed_txs B v pool) (tx_txid N ` fst ` set pool) \<Longrightarrow>
    gives_up N B r w s' (apply_unconfirmed_txs B v pool)"

lemma pool_txids: "(\<lambda>(tx, _). f tx) ` pool = f ` fst ` pool"
  by force

lemma not_demoted_iff: "hash_order h \<Longrightarrow> list_ex (\<lambda>t. t \<notin> set (confirmed_txids B h v)) (confirmed_txids B h w)
    \<longleftrightarrow> \<not> (\<forall>txid. is_confirmed B w txid \<longrightarrow> is_confirmed B v txid)"
  by (auto simp: list_ex_iff set_confirmed_txids)

text \<open>Exactly then the sync is the rebuild.\<close>

lemma sync_gives_up:
  "hash_order h \<Longrightarrow> gives_up N B r w s old \<Longrightarrow>
   emitter_sync N B h r w = rebuild_on_reorg N B s old (confirmed_txids B h w)"
  by (erule gives_up.cases)
    (auto simp: emitter_sync_def sync_mempool_def Let_def not_demoted_iff pool_txids)

lemma sync_rebuild_start:
  assumes "hash_order h" "emitter_sync N B h r w = Some (r', w', Ok sr)" "reorg_rebuilt sr"
  obtains s old where "gives_up N B r w s old"
    "rebuild_on_reorg N B s old (confirmed_txids B h w) = Some (r', w', Ok sr)"
proof -
  obtain s e v res where d: "drive_from_tip N B r w = Some (s, e, v, res)"
    using assms(2) by (cases "drive_from_tip N B r w") (auto simp: emitter_sync_def)
  have "\<exists>s old. gives_up N B r w s old"
  proof (cases res)
    case (Err err)
    then obtain k x where "res = Err (ApplyBlock k (CannotConnect x))"
      using assms(2) by (auto simp: emitter_sync_def d split: chain_sync_error.splits apply_header_error.splits)
    with d show ?thesis by (blast intro: gives_up.refused)
  next
    case Panic
    then show ?thesis using assms(2) by (simp add: emitter_sync_def d)
  next
    case (Ok n)
    note d = d[unfolded Ok]
    show ?thesis
    proof (cases "(\<forall>txid. is_confirmed B w txid \<longrightarrow> is_confirmed B v txid) \<and> \<not> has_orphaned_anchor B v")
      case True
      then have "sync_mempool N B s e v n (confirmed_txids B h w) = Some (r', w', Ok sr)"
        using assms(2) by (simp add: emitter_sync_def d Let_def not_demoted_iff[OF assms(1)])
      then obtain s' e' pool where "get_mempool N s e = ((s', e'), Ok pool)"
          "has_stale_unconfirmed B (apply_unconfirmed_txs B v pool) (tx_txid N ` fst ` set pool)"
        using assms(3)
        by (auto simp: sync_mempool_def Let_def pool_txids split: prod.splits result.splits if_splits)
      with True show ?thesis by (blast intro: gives_up.stale[OF d])
    qed (use d in \<open>blast intro: gives_up.demoted gives_up.orphaned\<close>)
  qed
  then show thesis using that assms(2) sync_gives_up[OF assms(1)] by metis
qed

text \<open>The steps a wallet takes during a sync, other than being replaced: a block applied or refused,
  and a batch of mempool transactions.\<close>

inductive chain_step :: "('w, 'b, 'p, 'c) bdk_lib \<Rightarrow> 'w \<Rightarrow> 'w \<Rightarrow> bool" for B where
  block: "apply_block_connected_to B w b k parent = (w', a) \<Longrightarrow> chain_step B w w'"
| unconfirmed: "chain_step B w (apply_unconfirmed_txs B w u)"
| staged: "chain_step B w (fst (take_staged B w))"

inductive_cases chain_stepE: "chain_step B w w'"

lemma drive_steps:
  assumes "drive N B r e w n = Some (r', e', w', res)"
  shows "(chain_step B)\<^sup>*\<^sup>* w w'"
proof -
  let ?P = "\<lambda>N B r e w n x. (chain_step B)\<^sup>*\<^sup>* w (fst (snd (snd x)))"
  have "?P N B r e w n (r', e', w', res)"
  proof (rule drive.raw_induct[where P = ?P, OF _ assms], goal_cases)
    case (1 f N B r e w n x)
    obtain r1 e1 ev where ev: "next_block N r e = ((r1, e1), ev)" by (metis prod.exhaust)
    consider (stop) "\<nexists>b. ev = Ok (Some b)" | (block) b where "ev = Ok (Some b)" by blast
    then show ?case
    proof cases
      case stop
      then show ?thesis using 1(2) ev by (auto split: result.splits option.splits)
    next
      case (block b)
      obtain w1 a where a: "apply_block_connected_to B w (be_block b) (be_height b) (be_connected_to b) = (w1, a)"
        by fastforce
      have step: "chain_step B w w1" by (rule chain_step.block[OF a])
      show ?thesis
      proof (cases a)
        case (Ok u)
        then have "f N B r1 e1 w1 (saturating_succ n) = Some x" using 1(2) ev block a by simp
        then have "?P N B r1 e1 w1 (saturating_succ n) x" by (rule 1(1))
        with step show ?thesis by (rule converse_rtranclp_into_rtranclp)
      qed (use 1(2) ev block a step in auto)
    qed
  qed
  then show ?thesis by simp
qed

text \<open>What identifies a wallet: its two descriptors and its network. The library's operations keep
  them, and a wallet is created with the descriptors and the network it is given.\<close>

definition wallet_identity :: "('w, 'b, 'p, 'c) bdk_lib \<Rightarrow> 'w \<Rightarrow> descriptor \<times> descriptor \<times> network" where
  "wallet_identity B w = (public_descriptor B w External_Keychain, public_descriptor B w Internal_Keychain, wallet_network B w)"

definition bdk_identity_ok :: "('w, 'b, 'p, 'c) bdk_lib \<Rightarrow> bool" where
  "bdk_identity_ok B \<longleftrightarrow>
     (\<forall>w b k parent. wallet_identity B (fst (apply_block_connected_to B w b k parent)) = wallet_identity B w)
   \<and> (\<forall>w u. wallet_identity B (apply_unconfirmed_txs B w u) = wallet_identity B w)
   \<and> (\<forall>w. wallet_identity B (fst (take_staged B w)) = wallet_identity B w)
   \<and> (\<forall>w k i. wallet_identity B (reveal_addresses_to B w k i) = wallet_identity B w)
   \<and> (\<forall>ext int n w. create_wallet B ext int n = Ok w \<longrightarrow> wallet_identity B w = (ext, int, n))"

interpretation synced_wallet: transition_system "chain_step B" "\<lambda>_. bdk_identity_ok B" "wallet_identity B"
proof
  show "wallet_identity B t = wallet_identity B s" if "bdk_identity_ok B" "chain_step B s t" for s t
    using that by (auto simp: bdk_identity_ok_def elim!: chain_stepE) (metis fst_conv)
qed

lemma fresh_wallet_identity:
  "bdk_identity_ok B \<Longrightarrow> fresh_wallet B w = Ok f \<Longrightarrow> wallet_identity B f = wallet_identity B w"
  by (auto simp: fresh_wallet_def Let_def result_simps bdk_identity_ok_def reveal_to_def wallet_identity_def
      split: option.splits)

lemma finish_rebuild_steps: "finish_rebuild B f u n before = (w', sr) \<Longrightarrow> (chain_step B)\<^sup>*\<^sup>* f w'"
  by (auto simp: finish_rebuild_def Let_def split: prod.splits)
    (metis fst_conv chain_step.staged chain_step.unconfirmed rtranclp.rtrancl_into_rtrancl r_into_rtranclp)

text \<open>Every outcome of a rebuild: either the wallet is untouched, or a fresh one took its place.\<close>

lemma rebuild_outcome:
  assumes "rebuild_on_reorg N B r w before = Some (r', w', res)"
  shows "(w' = w \<and> (\<forall>sr. res \<noteq> Ok sr)) \<or> (\<exists>f sr. fresh_wallet B w = Ok f \<and> (chain_step B)\<^sup>*\<^sup>* f w' \<and> res = Ok sr)"
proof (cases "\<exists>sr. res = Ok sr")
  case True
  then obtain sr where "res = Ok sr" by blast
  with assms show ?thesis
    by (auto elim!: rebuild_Ok simp: drive_from_tip_def Let_def dest!: drive_steps finish_rebuild_steps)
next
  case False
  then show ?thesis
    using assms by (auto simp: rebuild_on_reorg_def split: result.splits option.splits prod.splits)
qed

text \<open>How a sync changes a wallet: by steps of its own, or by being replaced, at some point, with a
  fresh wallet made from what it had become.\<close>

definition evolves :: "('w, 'b, 'p, 'c) bdk_lib \<Rightarrow> 'w \<Rightarrow> 'w \<Rightarrow> bool" where
  "evolves B w w' \<longleftrightarrow> (chain_step B)\<^sup>*\<^sup>* w w' \<or>
     (\<exists>v f. (chain_step B)\<^sup>*\<^sup>* w v \<and> fresh_wallet B v = Ok f \<and> (chain_step B)\<^sup>*\<^sup>* f w')"

lemma evolves_steps: "(chain_step B)\<^sup>*\<^sup>* w w' \<Longrightarrow> evolves B w w'"
  by (simp add: evolves_def)

lemma evolves_trans: "(chain_step B)\<^sup>*\<^sup>* w v \<Longrightarrow> evolves B v w' \<Longrightarrow> evolves B w w'"
  unfolding evolves_def by (blast intro: rtranclp_trans)

lemma rebuild_evolves: "rebuild_on_reorg N B r w before = Some (r', w', res) \<Longrightarrow> evolves B w w'"
  by (drule rebuild_outcome) (auto simp: evolves_def)

lemma sync_mempool_evolves:
  assumes "sync_mempool N B r e w n before = Some (r', w', res)"
  shows "evolves B w w'"
proof -
  obtain r2 e2 m where m: "get_mempool N r e = ((r2, e2), m)" by (metis prod.exhaust)
  show ?thesis
  proof (cases m)
    case (Ok update)
    let ?w = "apply_unconfirmed_txs B w update"
    have w: "(chain_step B)\<^sup>*\<^sup>* w ?w" by (rule r_into_rtranclp) (rule chain_step.unconfirmed)
    show ?thesis
    proof (cases "has_stale_unconfirmed B ?w (set (map (\<lambda>(tx, _). tx_txid N tx) update))")
      case True
      then have "rebuild_on_reorg N B r2 ?w before = Some (r', w', res)"
        using assms by (simp add: sync_mempool_def m Ok Let_def)
      then show ?thesis by (rule evolves_trans[OF w rebuild_evolves])
    next
      case False
      then have "w' = fst (take_staged B ?w)"
        using assms by (auto simp: sync_mempool_def m Ok Let_def split: prod.splits)
      then show ?thesis
        using rtranclp.rtrancl_into_rtrancl[OF w chain_step.staged] by (simp add: evolves_steps)
    qed
  qed (use assms m in \<open>auto simp: sync_mempool_def evolves_steps\<close>)
qed

lemma sync_evolves:
  assumes "emitter_sync N B h r w = Some (r', w', res)"
  shows "evolves B w w'"
proof -
  let ?before = "confirmed_txids B h w"
  obtain r1 e1 w1 dres where d: "drive_from_tip N B r w = Some (r1, e1, w1, dres)"
    using assms by (cases "drive_from_tip N B r w") (auto simp: emitter_sync_def)
  then have w1: "(chain_step B)\<^sup>*\<^sup>* w w1"
    using drive_steps by (metis drive_from_tip_def)
  have "w' = w1 \<or> rebuild_on_reorg N B r1 w1 ?before = Some (r', w', res)
      \<or> (\<exists>n. sync_mempool N B r1 e1 w1 n ?before = Some (r', w', res))"
    using assms by (auto simp: emitter_sync_def d Let_def
        split: result.splits chain_sync_error.splits apply_header_error.splits if_splits)
  then have "w' = w1 \<or> evolves B w1 w'"
    by (auto dest: rebuild_evolves sync_mempool_evolves)
  then show ?thesis using evolves_trans[OF w1] evolves_steps[OF w1] by blast
qed

lemma evolves_identity: "bdk_identity_ok B \<Longrightarrow> evolves B w w' \<Longrightarrow> wallet_identity B w' = wallet_identity B w"
  unfolding evolves_def using synced_wallet.history_fixed fresh_wallet_identity by metis

section \<open>A small node and wallet\<close>

text \<open>For the witnesses: the node is its chain of blocks (with their transactions), an emitter is the
  list of the events still to come, and the wallet is a chain, anchors and floating transactions.\<close>

type_synonym demo_node = "(block_id \<times> word256 list) list"

record demo_wallet =
  dw_chain :: "block_id list"
  dw_anchors :: "(word256 \<times> block_id list) list"
  dw_float :: "word256 list"

definition demo_genesis :: block_id where
  "demo_genesis = \<lparr>bi_height = 0, bi_hash = 0\<rparr>"

fun demo_events :: "block_id \<Rightarrow> demo_node \<Rightarrow> (block_id \<times> word256 list) block_event list" where
  "demo_events prev [] = []"
| "demo_events prev ((b, txs) # bs) =
     \<lparr>be_block = (b, txs), be_height = bi_height b, be_connected_to = prev\<rparr> # demo_events b bs"

definition demo_node_with :: "((transaction \<times> u64) list, string) result \<Rightarrow>
    (demo_node, (block_id \<times> word256 list) block_event list, block_id \<times> word256 list, block_id) node_lib" where
  "demo_node_with pool =
     \<lparr>emitter_new = (\<lambda>r cp _. if cp \<in> fst ` set r then demo_events cp (tl (dropWhile (\<lambda>(b, _). b \<noteq> cp) r))
                              else demo_events demo_genesis (tl r)),
      next_block = (\<lambda>r e. case e of [] \<Rightarrow> ((r, []), Ok None) | b # bs \<Rightarrow> ((r, bs), Ok (Some b))),
      get_mempool = (\<lambda>r e. ((r, e), pool)), tx_txid = (\<lambda>_. 0)\<rparr>"

text \<open>The node of the witnesses has an empty mempool; another answers no question about its mempool.\<close>

abbreviation demo_node_lib :: "(demo_node, (block_id \<times> word256 list) block_event list, block_id \<times> word256 list, block_id) node_lib" where
  "demo_node_lib \<equiv> demo_node_with (Ok [])"

abbreviation failing_node_lib :: "(demo_node, (block_id \<times> word256 list) block_event list, block_id \<times> word256 list, block_id) node_lib" where
  "failing_node_lib \<equiv> demo_node_with (Err ''mempool'')"

definition demo_bdk :: "(demo_wallet, block_id \<times> word256 list, block_id, unit) bdk_lib" where
  "demo_bdk =
     \<lparr>latest_checkpoint = (\<lambda>w. hd (dw_chain w)), cp_height = bi_height,
      wallet_txs = (\<lambda>w. map (\<lambda>(t, bs). \<lparr>wt_txid = t, wt_position =
          if list_ex (\<lambda>b. b \<in> set (dw_chain w)) bs then Confirmed else Unconfirmed\<rparr>) (dw_anchors w)
        @ map (\<lambda>t. \<lparr>wt_txid = t, wt_position = Unconfirmed\<rparr>) (dw_float w)),
      all_anchors = dw_anchors,
      chain_hash_at = (\<lambda>w k. map_option bi_hash (List.find (\<lambda>b. bi_height b = k) (dw_chain w))),
      apply_block_connected_to = (\<lambda>w b k parent. if parent \<in> set (dw_chain w)
        then (w\<lparr>dw_chain := fst b # dropWhile (\<lambda>c. c \<noteq> parent) (dw_chain w),
                dw_anchors := dw_anchors w @ map (\<lambda>t. (t, [fst b])) (snd b)\<rparr>, Ok ())
        else (w, Err (CannotConnect k))),
      apply_unconfirmed_txs = (\<lambda>w u. w\<lparr>dw_float := dw_float w @ map (\<lambda>_. 0) u\<rparr>),
      take_staged = (\<lambda>w. (w, None)), public_descriptor = (\<lambda>_ _. Wpkh ''demo''), derivation_index = (\<lambda>_ _. None),
      wallet_network = (\<lambda>_. Regtest),
      create_wallet = (\<lambda>ext int n. if ext = Wpkh ''demo'' \<and> int = Wpkh ''demo'' \<and> n = Regtest
        then Ok \<lparr>dw_chain = [demo_genesis], dw_anchors = [], dw_float = []\<rparr> else Err ''unknown''),
      reveal_addresses_to = (\<lambda>w _ _. w)\<rparr>"

definition demo_block :: "word256 \<Rightarrow> block_id" where
  "demo_block hash = \<lparr>bi_height = 1, bi_hash = hash\<rparr>"

text \<open>A node with one block after genesis, a fresh wallet, and a wallet that has followed another
  block, which paid it the transaction 77.\<close>

definition demo_chain :: demo_node where
  "demo_chain = [(demo_genesis, []), (demo_block 11, [88])]"

definition fresh_demo :: demo_wallet where
  "fresh_demo = \<lparr>dw_chain = [demo_genesis], dw_anchors = [], dw_float = []\<rparr>"

definition synced_demo :: demo_wallet where
  "synced_demo = \<lparr>dw_chain = [demo_block 11, demo_genesis], dw_anchors = [(88, [demo_block 11])], dw_float = []\<rparr>"

definition stale_demo :: demo_wallet where
  "stale_demo = \<lparr>dw_chain = [demo_block 10, demo_genesis], dw_anchors = [(77, [demo_block 10])], dw_float = []\<rparr>"

text \<open>The second one after it has been sent the block of the node: the transaction 77 is still there,
  anchored in a block its chain no longer holds.\<close>

definition absorbed_demo :: demo_wallet where
  "absorbed_demo = \<lparr>dw_chain = [demo_block 11, demo_genesis],
     dw_anchors = [(77, [demo_block 10]), (88, [demo_block 11])], dw_float = []\<rparr>"

lemmas demo_simps = demo_node_with_def demo_bdk_def demo_block_def demo_genesis_def demo_chain_def fresh_demo_def
  synced_demo_def stale_demo_def absorbed_demo_def

lemma demo_runs_dry: "runs_dry demo_node_lib r e"
proof (induction e)
  case Nil
  then show ?case by (intro runs_dry.stop) (simp add: demo_node_with_def)
next
  case (Cons b e)
  show ?case by (rule runs_dry.step[OF _ Cons.IH, where b = b]) (simp add: demo_node_with_def)
qed

lemma demo_views_ok: "bdk_views_ok demo_bdk"
  by (auto simp: bdk_views_ok_def demo_bdk_def)

lemma demo_identity_ok: "bdk_identity_ok demo_bdk"
  by (auto simp: bdk_identity_ok_def demo_bdk_def wallet_identity_def)

lemma demo_drive:
  "drive (demo_node_with pool) demo_bdk r [] w n = Some (r, [], w, Ok n)"
  "apply_block_connected_to demo_bdk w (be_block b) (be_height b) (be_connected_to b) = (w', Ok ()) \<Longrightarrow>
   drive (demo_node_with pool) demo_bdk r (b # bs) w n = drive (demo_node_with pool) demo_bdk r bs w' (saturating_succ n)"
  by (subst drive.simps, simp add: demo_node_with_def)+

text \<open>Both wallets are sent the block of the node, on top of genesis.\<close>

lemma demo_drive_block:
  assumes "emitter_new (demo_node_with pool) demo_chain (latest_checkpoint demo_bdk w) (cp_height demo_bdk (latest_checkpoint demo_bdk w))
      = [\<lparr>be_block = (demo_block 11, [88]), be_height = 1, be_connected_to = demo_genesis\<rparr>]"
    and "apply_block_connected_to demo_bdk w (demo_block 11, [88]) 1 demo_genesis = (w', Ok ())"
  shows "drive_from_tip (demo_node_with pool) demo_bdk demo_chain w = Some (demo_chain, [], w', Ok 1)"
proof -
  let ?b = "\<lparr>be_block = (demo_block 11, [88]), be_height = 1, be_connected_to = demo_genesis\<rparr> :: (block_id \<times> word256 list) block_event"
  have a: "apply_block_connected_to demo_bdk w (be_block ?b) (be_height ?b) (be_connected_to ?b) = (w', Ok ())"
    using assms(2) by simp
  show ?thesis
    unfolding drive_from_tip_def Let_def assms(1) demo_drive(2)[OF a] demo_drive(1) by (simp add: saturating_succ_def)
qed

lemma demo_drive_fresh: "drive_from_tip (demo_node_with pool) demo_bdk demo_chain fresh_demo = Some (demo_chain, [], synced_demo, Ok 1)"
  by (rule demo_drive_block) (simp_all add: demo_simps)

lemma demo_drive_stale: "drive_from_tip (demo_node_with pool) demo_bdk demo_chain stale_demo
    = Some (demo_chain, [], absorbed_demo, Ok 1)"
  by (rule demo_drive_block) (simp_all add: demo_simps)

lemma demo_drive_absorbed: "drive_from_tip (demo_node_with pool) demo_bdk demo_chain absorbed_demo = Some (demo_chain, [], absorbed_demo, Ok 0)"
  unfolding drive_from_tip_def Let_def
  by (subst drive.simps) (simp add: demo_simps)

lemma demo_sync: "emitter_sync demo_node_lib demo_bdk (\<lambda>xs. xs) demo_chain fresh_demo = Some (demo_chain, synced_demo,
    Ok \<lparr>sr_changeset = None, blocks_synced = 1, new_mempool_txs = 0, tip_height = 1, evicted_txids = [], reorg_rebuilt = False\<rparr>)"
  unfolding emitter_sync_def demo_drive_fresh
  by (simp add: sync_mempool_def confirmed_txids_def has_orphaned_anchor_def has_stale_unconfirmed_def hash_collect_def
      clamp_u32_def demo_simps)

lemma demo_fresh_wallet: "fresh_wallet demo_bdk v = Ok fresh_demo"
  by (simp add: fresh_wallet_def reveal_to_def demo_bdk_def fresh_demo_def)

lemma demo_rebuild: "rebuild_on_reorg demo_node_lib demo_bdk demo_chain v before = Some (demo_chain, synced_demo,
    Ok \<lparr>sr_changeset = None, blocks_synced = 1, new_mempool_txs = 0, tip_height = 1,
        evicted_txids = sort (filter (\<lambda>t. t \<noteq> 88) before), reorg_rebuilt = True\<rparr>)"
  by (simp add: rebuild_on_reorg_def demo_drive_fresh demo_fresh_wallet)
    (simp add: finish_rebuild_def clamp_u32_def demo_simps)

lemma demo_rebuild_fails: "rebuild_on_reorg failing_node_lib demo_bdk demo_chain v before
    = Some (demo_chain, v, Err (Rpc ''mempool''))"
  by (simp add: rebuild_on_reorg_def demo_drive_fresh demo_fresh_wallet) (simp add: demo_node_with_def)

lemma demo_before:
  "confirmed_txids demo_bdk (\<lambda>xs. xs) stale_demo = [77]"
  "confirmed_txids demo_bdk (\<lambda>xs. xs) absorbed_demo = [88]"
  by (simp_all add: confirmed_txids_def hash_collect_def demo_simps)

lemma demo_orphaned: "has_orphaned_anchor demo_bdk absorbed_demo"
  by (simp add: has_orphaned_anchor_def demo_simps)

lemma demo_sync_stale: "emitter_sync demo_node_lib demo_bdk (\<lambda>xs. xs) demo_chain stale_demo = Some (demo_chain, synced_demo,
    Ok \<lparr>sr_changeset = None, blocks_synced = 1, new_mempool_txs = 0, tip_height = 1, evicted_txids = [77], reorg_rebuilt = True\<rparr>)"
  unfolding emitter_sync_def demo_drive_stale demo_before Let_def by (simp add: demo_rebuild demo_orphaned)

section \<open>A rebuild that fails\<close>

text \<open>The baseline of the evictions is read off the wallet at the start of a call, and the drive loop
  changes that wallet before the rebuild starts. A call whose rebuild fails therefore leaves the
  replacement blocks in the wallet, and the call that succeeds later rebuilds it without naming the
  transaction the chain has lost: 77 was confirmed before the first call and is gone after the second,
  and neither call says so.\<close>

theorem failed_rebuild_forgets:
  "emitter_sync failing_node_lib demo_bdk (\<lambda>xs. xs) demo_chain stale_demo
     = Some (demo_chain, absorbed_demo, Err (Rpc ''mempool''))"
  "emitter_sync demo_node_lib demo_bdk (\<lambda>xs. xs) demo_chain absorbed_demo = Some (demo_chain, synced_demo,
     Ok \<lparr>sr_changeset = None, blocks_synced = 1, new_mempool_txs = 0, tip_height = 1, evicted_txids = [], reorg_rebuilt = True\<rparr>)"
  "is_confirmed demo_bdk stale_demo 77" "\<not> knows_tx demo_bdk synced_demo 77"
proof -
  show "emitter_sync failing_node_lib demo_bdk (\<lambda>xs. xs) demo_chain stale_demo
      = Some (demo_chain, absorbed_demo, Err (Rpc ''mempool''))"
    unfolding emitter_sync_def demo_drive_stale Let_def by (simp add: demo_rebuild_fails demo_orphaned)
  show "emitter_sync demo_node_lib demo_bdk (\<lambda>xs. xs) demo_chain absorbed_demo = Some (demo_chain, synced_demo,
      Ok \<lparr>sr_changeset = None, blocks_synced = 1, new_mempool_txs = 0, tip_height = 1, evicted_txids = [], reorg_rebuilt = True\<rparr>)"
    unfolding emitter_sync_def demo_drive_absorbed demo_before Let_def by (simp add: demo_rebuild demo_orphaned)
  show "is_confirmed demo_bdk stale_demo 77" "\<not> knows_tx demo_bdk synced_demo 77"
    by (auto simp: is_confirmed_def knows_tx_def demo_simps)
qed

section \<open>Properties\<close>

text \<open>
C21: A synchronisation returns, whatever it does, against a node that always runs out of blocks to emit: the
drive loop ends, and so does that of the rebuild it may start.\<close>

theorem sync_returns:
  assumes "\<forall>s p k. runs_dry N s (emitter_new N s p k)"
  shows "\<exists>r' w' res. emitter_sync N B h r w = Some (r', w', res)"
proof -
  have drive: "\<exists>r' e' v' res. drive_from_tip N B s v = Some (r', e', v', res)" for s v
    using drive_returns assms unfolding drive_from_tip_def Let_def by (metis prod.exhaust)
  have rebuild: "\<exists>x. rebuild_on_reorg N B s v before = Some x" for s v before
  proof (cases "fresh_wallet B v")
    case (Ok f)
    then show ?thesis
      using drive[of s f] by (auto simp: rebuild_on_reorg_def split: result.split prod.split)
  qed (simp_all add: rebuild_on_reorg_def)
  have pool: "\<exists>x. sync_mempool N B s e v n before = Some x" for s e v n before
    using rebuild by (auto simp: sync_mempool_def Let_def split: prod.split result.split)
  obtain r1 e1 w1 res where d: "drive_from_tip N B r w = Some (r1, e1, w1, res)"
    using drive by blast
  have "\<exists>x. emitter_sync N B h r w = Some x"
    using rebuild pool by (auto simp: emitter_sync_def d Let_def
        split: result.split chain_sync_error.split apply_header_error.split)
  then show ?thesis by (metis prod.exhaust)
qed

theorem sync_returns_witness:
  "\<exists>r' w' res. emitter_sync demo_node_lib demo_bdk rev demo_chain stale_demo = Some (r', w', res)"
  by (rule sync_returns) (simp add: demo_runs_dry)

text \<open>
C19: A synchronisation that succeeds without a rebuild leaves no phantom: no anchor of the wallet lies off its
local chain, every transaction it holds as unconfirmed is in the mempool the node answered with, and
every transaction confirmed before is still confirmed. It reports no eviction.\<close>

theorem sync_ground_truth:
  assumes "bdk_views_ok B" "hash_order h" "emitter_sync N B h r w = Some (r', w', Ok sr)" "\<not> reorg_rebuilt sr"
  shows "(\<forall>(_, anchors) \<in> set (all_anchors B w'). \<forall>b \<in> set anchors. chain_hash_at B w' (bi_height b) = Some (bi_hash b))
    \<and> (\<exists>s e v n e' update. drive_from_tip N B r w = Some (s, e, v, Ok n) \<and> get_mempool N s e = ((r', e'), Ok update)
        \<and> (\<forall>t \<in> set (wallet_txs B w'). wt_position t = Unconfirmed \<longrightarrow> wt_txid t \<in> tx_txid N ` fst ` set update))
    \<and> (\<forall>txid. is_confirmed B w txid \<longrightarrow> is_confirmed B w' txid)
    \<and> evicted_txids sr = []"
  using assms(3)
proof (cases rule: sync_Ok)
  case rebuilt
  with assms(4) show ?thesis by simp
next
  case (plain r1 e1 w1 n)
  from plain(5) show ?thesis
  proof (cases rule: sync_mempool_Ok)
    case rebuilt
    with assms(4) show ?thesis by simp
  next
    case pool: (plain e2 update)
    let ?w = "apply_unconfirmed_txs B w1 update"
    have w': "w' = fst (take_staged B ?w)" using pool(4) by simp
    note views = assms(1)[unfolded bdk_views_ok_def]
    have anchors: "\<not> has_orphaned_anchor B w'"
      using plain(4) views by (simp add: has_orphaned_anchor_def w')
    have float: "wt_txid t \<in> tx_txid N ` fst ` set update"
      if "t \<in> set (wallet_txs B w')" "wt_position t = Unconfirmed" for t
      using pool(3) views that by (force simp: has_stale_unconfirmed_iff w')
    have confirmed: "is_confirmed B w' txid" if "is_confirmed B w txid" for txid
    proof -
      have "is_confirmed B w1 txid" using that plain(3) assms(2) by (metis set_confirmed_txids)
      then show ?thesis using views by (fastforce simp: is_confirmed_def w')
    qed
    have none: "evicted_txids sr = []" using pool(5) by (metis sync_result.select_convs(5))
    show ?thesis
      using anchors float confirmed plain(2) pool(2) none unfolding has_orphaned_anchor_iff by blast
  qed
qed

theorem sync_ground_truth_witness: "chain_hash_at demo_bdk synced_demo 1 = Some 11"
proof -
  have "(88, [demo_block 11]) \<in> set (all_anchors demo_bdk synced_demo)" by (simp add: demo_simps)
  then have "chain_hash_at demo_bdk synced_demo (bi_height (demo_block 11)) = Some (bi_hash (demo_block 11))"
    using sync_ground_truth[OF demo_views_ok hash_order_id demo_sync] by fastforce
  then show ?thesis by (simp add: demo_block_def)
qed

text \<open>
C20: A rebuild happens only when the sync gives the wallet up: a block of its own drive could not be connected,
it demoted a confirmed transaction or left an anchor off the chain, or the mempool it then asked for no
longer has an unconfirmed one. The wallet as that left it is replaced by a fresh one, made from its
descriptors and fed with nothing but what the node, in the state that was reached, answers: all the
blocks an emitter started at the fresh wallet's own checkpoint gives until it has no more, which are
those counted, and then the one mempool it gives. The evictions reported are, in increasing order and
once each, exactly the transactions confirmed before the sync that the new wallet does not know at all.\<close>

theorem sync_rebuilt:
  assumes "bdk_views_ok B" "hash_order h" "emitter_sync N B h r w = Some (r', w', Ok sr)" "reorg_rebuilt sr"
  shows "sorted (evicted_txids sr) \<and> distinct (evicted_txids sr)
    \<and> set (evicted_txids sr) = {txid. is_confirmed B w txid \<and> \<not> knows_tx B w' txid}
    \<and> tip_height sr = cp_height B (latest_checkpoint B w')
    \<and> (\<exists>s old f bs s1 e1 v s2 e2 e3 update.
         gives_up N B r w s old \<and> fresh_wallet B old = Ok f
       \<and> connects N B s (emitter_new N s (latest_checkpoint B f) (cp_height B (latest_checkpoint B f))) f bs s1 e1 v
       \<and> next_block N s1 e1 = ((s2, e2), Ok None)
       \<and> get_mempool N s2 e2 = ((r', e3), Ok update)
       \<and> take_staged B (apply_unconfirmed_txs B v update) = (w', sr_changeset sr)
       \<and> unat (blocks_synced sr) = min (length bs) (2 ^ 32 - 1) \<and> new_mempool_txs sr = clamp_u32 (length update))"
proof -
  obtain s old where start: "gives_up N B r w s old"
    and rb: "rebuild_on_reorg N B s old (confirmed_txids B h w) = Some (r', w', Ok sr)"
    by (rule sync_rebuild_start[OF assms(2-4)])
  from rb obtain f s2 e2 v n e3 update where f: "fresh_wallet B old = Ok f" "drive_from_tip N B s f = Some (s2, e2, v, Ok n)"
      "get_mempool N s2 e2 = ((r', e3), Ok update)" "finish_rebuild B v update n (confirmed_txids B h w) = (w', sr)"
    by (rule rebuild_Ok) blast
  let ?v = "apply_unconfirmed_txs B v update"
  obtain cs where staged: "take_staged B ?v = (w', cs)"
      and sr: "sr = \<lparr>sr_changeset = cs, blocks_synced = n, new_mempool_txs = clamp_u32 (length update),
        tip_height = cp_height B (latest_checkpoint B ?v),
        evicted_txids = sort (filter (\<lambda>t. t \<notin> set (map wt_txid (wallet_txs B ?v))) (confirmed_txids B h w)),
        reorg_rebuilt = True\<rparr>"
    using f(4) by (auto simp: finish_rebuild_def Let_def split: prod.splits)
  obtain bs s1 e1 where bs: "connects N B s (emitter_new N s (latest_checkpoint B f) (cp_height B (latest_checkpoint B f))) f bs s1 e1 v"
      "next_block N s1 e1 = ((s2, e2), Ok None)" "unat n = min (length bs) (2 ^ 32 - 1)"
    using drive_Ok[OF f(2)[unfolded drive_from_tip_def Let_def]] by auto
  have views: "wallet_txs B w' = wallet_txs B ?v" "latest_checkpoint B w' = latest_checkpoint B ?v"
    using assms(1) staged unfolding bdk_views_ok_def by (metis fst_conv)+
  have "sorted (evicted_txids sr) \<and> distinct (evicted_txids sr)"
    by (simp add: sr distinct_confirmed_txids[OF assms(2)])
  moreover have "set (evicted_txids sr) = {txid. is_confirmed B w txid \<and> \<not> knows_tx B w' txid}"
    by (auto simp: sr views knows_tx_def set_confirmed_txids[OF assms(2)])
  moreover have "tip_height sr = cp_height B (latest_checkpoint B w')" by (simp add: sr views)
  moreover have "unat (blocks_synced sr) = min (length bs) (2 ^ 32 - 1) \<and> new_mempool_txs sr = clamp_u32 (length update)"
    "sr_changeset sr = cs"
    using bs(3) by (simp_all add: sr)
  ultimately show ?thesis using start f(1,3) bs(1,2) staged by blast
qed

theorem sync_rebuilt_witness:
  "{txid. is_confirmed demo_bdk stale_demo txid \<and> \<not> knows_tx demo_bdk synced_demo txid} = {77}"
  using sync_rebuilt[OF demo_views_ok hash_order_id demo_sync_stale] by simp

text \<open>
C22: A synchronisation, whatever its outcome and whether or not it rebuilds the wallet, keeps the wallet's
descriptors and its network.\<close>

theorem sync_identity:
  assumes "bdk_identity_ok B" "emitter_sync N B h r w = Some (r', w', res)"
  shows "public_descriptor B w' k = public_descriptor B w k \<and> wallet_network B w' = wallet_network B w"
proof -
  have "wallet_identity B w' = wallet_identity B w"
    by (rule evolves_identity[OF assms(1) sync_evolves[OF assms(2)]])
  then show ?thesis by (cases k) (simp_all add: wallet_identity_def)
qed

theorem sync_identity_witness:
  "public_descriptor demo_bdk synced_demo Internal_Keychain = public_descriptor demo_bdk stale_demo Internal_Keychain
    \<and> wallet_network demo_bdk synced_demo = wallet_network demo_bdk stale_demo"
  by (rule sync_identity[OF demo_identity_ok demo_sync_stale])

end
