(* ===== verification/Json.thy ===== *)
theory Json
  imports Prelude
begin

text \<open>
  Canonical JSON (\<open>canonical_json\<close> and \<open>write_canonical\<close> of
  \<open>src/recovery.rs\<close>). A value is what \<open>serde_json::to_value\<close> gives: an object is
  the list of its entries in the order of the map, whatever that order is. How serde_json quotes a
  string and prints a number is the argument \<open>J\<close>; the crate only serializes integers, so a
  number is one.

  The main lemma is \<open>canonical_iff\<close>: two values print alike exactly when they are equal up
  to the order of the keys of their objects.
\<close>

datatype json =
    JNull
  | JBool bool
  | JNumber int
  | JString string
  | JArray "json list"
  | JObject "(string \<times> json) list"

record json_lib =
  quote :: "string \<Rightarrow> string"
  number_str :: "int \<Rightarrow> string"
  from_json_str :: "string \<Rightarrow> (json, string) result"
  to_string_pretty :: "json \<Rightarrow> string"

fun write_canonical :: "json_lib \<Rightarrow> json \<Rightarrow> string" where
  "write_canonical J JNull = ''null''"
| "write_canonical J (JBool b) = (if b then ''true'' else ''false'')"
| "write_canonical J (JNumber n) = number_str J n"
| "write_canonical J (JString s) = quote J s"
| "write_canonical J (JArray items) = ''['' @ join '','' (map (write_canonical J) items) @ '']''"
| "write_canonical J (JObject m) =
     (let keys = sort (map fst m);
          vals = map_of (map (\<lambda>(k, v). (k, write_canonical J v)) m)
      in ''{'' @ join '','' (map (\<lambda>k. quote J k @ '':'' @ the (vals k)) keys) @ ''}'')"

text \<open>The keys of every object are distinct, as those of a map are.\<close>

fun json_wf :: "json \<Rightarrow> bool" where
  "json_wf (JArray vs) \<longleftrightarrow> (\<forall>v \<in> set vs. json_wf v)"
| "json_wf (JObject m) \<longleftrightarrow> distinct (map fst m) \<and> (\<forall>(_, v) \<in> set m. json_wf v)"
| "json_wf JNull \<longleftrightarrow> True"
| "json_wf (JBool b) \<longleftrightarrow> True"
| "json_wf (JNumber n) \<longleftrightarrow> True"
| "json_wf (JString s) \<longleftrightarrow> True"

text \<open>The value with the keys of every object in order.\<close>

fun sort_keys :: "json \<Rightarrow> json" where
  "sort_keys (JArray vs) = JArray (map sort_keys vs)"
| "sort_keys (JObject m) = JObject (sort_key fst (map (\<lambda>(k, v). (k, sort_keys v)) m))"
| "sort_keys v = v"

definition digit_chars :: string where
  "digit_chars = ''-0123456789''"

text \<open>What is documented of serde_json's printing: a quoted string starts with a quotation mark and
  says where it ends; an integer is printed with digits and a sign, injectively.\<close>

definition json_lib_ok :: "json_lib \<Rightarrow> bool" where
  "json_lib_ok J \<longleftrightarrow>
     (\<forall>s. \<exists>t. quote J s = CHR 0x22 # t)
   \<and> (\<forall>s t r r'. quote J s @ r = quote J t @ r' \<longrightarrow> s = t \<and> r = r')
   \<and> (\<forall>n. number_str J n \<noteq> [] \<and> set (number_str J n) \<subseteq> set digit_chars) \<and> inj (number_str J)"

section \<open>Printing in the order of the list\<close>

fun emit :: "json_lib \<Rightarrow> json \<Rightarrow> string" where
  "emit J JNull = ''null''"
| "emit J (JBool b) = (if b then ''true'' else ''false'')"
| "emit J (JNumber n) = number_str J n"
| "emit J (JString s) = quote J s"
| "emit J (JArray vs) = ''['' @ join '','' (map (emit J) vs) @ '']''"
| "emit J (JObject m) = ''{'' @ join '','' (map (\<lambda>(k, v). quote J k @ '':'' @ emit J v) m) @ ''}''"

lemma sort_key_entries: "sort_key fst (map (\<lambda>(k, v). (k, f v)) m) = map (\<lambda>(k, v). (k, f v)) (sort_key fst m)"
  using sort_key_map[of fst "\<lambda>(k, v). (k, f v)" m] by (simp add: case_prod_beta)

lemma map_fst_sort_key: "map fst (sort_key fst m) = sort (map fst m)"
  by (rule properties_for_sort[symmetric]) simp_all

lemma map_of_sort_key: "distinct (map fst m) \<Longrightarrow> map_of (sort_key fst m) = map_of m"
  by (rule map_of_inject_set[THEN iffD2]) (simp_all add: map_fst_sort_key)

lemma map_lookup_keys:
  "distinct (map fst m) \<Longrightarrow> map (\<lambda>k. f k (the (map_of m k))) (map fst m) = map (\<lambda>(k, v). f k v) m"
  by (rule nth_equalityI) (auto simp: map_of_nth_fst case_prod_beta)

lemma write_canonical_emit: "json_wf v \<Longrightarrow> write_canonical J v = emit J (sort_keys v)"
proof (induction v rule: json_wf.induct)
  case (1 vs)
  then have "map (write_canonical J) vs = map (emit J) (map sort_keys vs)" by simp
  then show ?case by (simp only: write_canonical.simps sort_keys.simps emit.simps)
next
  case (2 m)
  let ?w = "map (\<lambda>(k, v). (k, write_canonical J v)) m"
  let ?m = "sort_key fst ?w"
  have d: "distinct (map fst ?w)" and keys: "map fst ?w = map fst m" using 2(2) by (simp_all add: comp_def case_prod_beta)
  then have dm: "distinct (map fst ?m)" by (simp only: map_fst_sort_key distinct_sort)
  have w: "?w = map (\<lambda>(k, v). (k, emit J (sort_keys v))) m"
    using 2 by auto
  have "map (\<lambda>k. quote J k @ '':'' @ the (map_of ?w k)) (sort (map fst m))
      = map (\<lambda>k. quote J k @ '':'' @ the (map_of ?m k)) (map fst ?m)"
    by (simp only: map_of_sort_key[OF d] map_fst_sort_key keys)
  also have "\<dots> = map (\<lambda>(k, s). quote J k @ '':'' @ s) ?m"
    by (rule map_lookup_keys[OF dm])
  also have "\<dots> = map (\<lambda>(k, v). quote J k @ '':'' @ emit J v) (sort_key fst (map (\<lambda>(k, v). (k, sort_keys v)) m))"
    unfolding w by (simp add: sort_key_entries comp_def case_prod_beta)
  finally show ?case
    unfolding write_canonical.simps sort_keys.simps emit.simps Let_def by (rule arg_cong)
qed auto

section \<open>Where a value ends\<close>

text \<open>A suffix that cannot belong to a printed number.\<close>

definition delimited :: "string \<Rightarrow> bool" where
  "delimited r \<longleftrightarrow> r = [] \<or> hd r \<notin> set digit_chars"

lemma number_delimited:
  assumes "set xs \<subseteq> set digit_chars" "set ys \<subseteq> set digit_chars" "delimited r" "delimited s" "xs @ r = ys @ s"
  shows "xs = ys \<and> r = s"
proof -
  have split: "takeWhile (\<lambda>c. c \<in> set digit_chars) (zs @ t) = zs"
    if "set zs \<subseteq> set digit_chars" "delimited t" for zs t
    using that by (cases t) (auto simp: takeWhile_append2 delimited_def subset_iff takeWhile_tail)
  from split[OF assms(1,3)] split[OF assms(2,4)] assms(5) have "xs = ys" by simp
  with assms(5) show ?thesis by simp
qed

text \<open>Items printed by \<open>p\<close>, separated by commas and closed by \<open>c\<close>.\<close>

definition self_delimiting :: "('a \<Rightarrow> string) \<Rightarrow> 'a \<Rightarrow> bool" where
  "self_delimiting p x \<longleftrightarrow> (\<forall>y r s. delimited r \<longrightarrow> delimited s \<longrightarrow> p x @ r = p y @ s \<longrightarrow> x = y \<and> r = s)"

lemma join_comma: "join '','' (x # xs) = x @ concat (map (\<lambda>y. '','' @ y) xs)"
  by (induction xs arbitrary: x) auto

lemma items_tail_delimited:
  assumes "\<forall>x \<in> set xs. self_delimiting p x" "c \<noteq> CHR '',''"
    and "c \<notin> set digit_chars" "CHR '','' \<notin> set digit_chars"
    and "concat (map (\<lambda>y. '','' @ p y) xs) @ c # r = concat (map (\<lambda>y. '','' @ p y) ys) @ c # s"
  shows "xs = ys \<and> r = s"
  using assms(1,5)
proof (induction xs arbitrary: ys)
  case Nil
  then show ?case using assms(2) by (cases ys) auto
next
  case (Cons x xs)
  then obtain y ys' where ys: "ys = y # ys'" using assms(2) by (cases ys) auto
  have del: "delimited (concat (map (\<lambda>y. '','' @ p y) zs) @ c # t)" for zs t
    using assms(3,4) by (cases zs) (auto simp: delimited_def)
  have "p x @ concat (map (\<lambda>y. '','' @ p y) xs) @ c # r = p y @ concat (map (\<lambda>y. '','' @ p y) ys') @ c # s"
    using Cons.prems(2) ys by simp
  then have "x = y" and rest: "concat (map (\<lambda>y. '','' @ p y) xs) @ c # r = concat (map (\<lambda>y. '','' @ p y) ys') @ c # s"
    using Cons.prems(1) del unfolding self_delimiting_def by (metis list.set_intros(1))+
  moreover have "xs = ys' \<and> r = s"
    by (rule Cons.IH) (use Cons.prems(1) rest in auto)
  ultimately show ?case using ys by simp
qed

lemma items_delimited:
  assumes xs: "\<forall>x \<in> set xs. self_delimiting p x" and p: "\<And>x. p x \<noteq> [] \<and> hd (p x) \<noteq> c" and c: "c \<noteq> CHR '',''"
    "c \<notin> set digit_chars"
    and eq: "join '','' (map p xs) @ c # r = join '','' (map p ys) @ c # s"
  shows "xs = ys \<and> r = s"
proof (cases xs)
  case Nil
  have "ys = []"
  proof (cases ys)
    case ys: (Cons y ys')
    then have "hd (p y) = c"
      using p[of y] arg_cong[OF eq, of hd] Nil by (simp add: join_comma hd_append)
    then show ?thesis using p by simp
  qed
  then show ?thesis using eq Nil by simp
next
  case (Cons x xs')
  have comma: "CHR '','' \<notin> set digit_chars" by (simp add: digit_chars_def)
  obtain y ys' where ys: "ys = y # ys'"
    using eq p[of x] Cons by (cases ys) (auto simp: join_comma append_eq_Cons_conv)
  let ?tail = "\<lambda>zs t. concat (map (\<lambda>y. '','' @ p y) zs) @ c # t"
  have del: "delimited (?tail zs t)" for zs t
    using c comma by (cases zs) (auto simp: delimited_def)
  have "p x @ ?tail xs' r = p y @ ?tail ys' s"
    using eq unfolding Cons ys list.map join_comma by (simp add: comp_def)
  then have "x = y" "?tail xs' r = ?tail ys' s"
    using xs del unfolding Cons self_delimiting_def by (metis list.set_intros(1))+
  moreover from this have "xs' = ys' \<and> r = s"
    using items_tail_delimited[OF _ c(1) c(2) comma, of xs' p] xs Cons by simp
  ultimately show ?thesis using Cons ys by simp
qed

section \<open>Canonical printing is faithful\<close>

lemma number_facts: "json_lib_ok J \<Longrightarrow> set (number_str J n) \<subseteq> set digit_chars"
    "json_lib_ok J \<Longrightarrow> number_str J n = number_str J k \<longleftrightarrow> n = k"
  unfolding json_lib_ok_def by (blast, metis injD)

lemma quote_inject: "json_lib_ok J \<Longrightarrow> quote J s @ r = quote J t @ r' \<Longrightarrow> s = t \<and> r = r'"
  unfolding json_lib_ok_def by blast

lemma number_hd: "json_lib_ok J \<Longrightarrow> number_str J n \<noteq> [] \<and> hd (number_str J n) \<in> set digit_chars"
  unfolding json_lib_ok_def by (metis hd_in_set subset_iff)

lemma quote_hd: "json_lib_ok J \<Longrightarrow> quote J s \<noteq> [] \<and> hd (quote J s) = CHR 0x22"
  unfolding json_lib_ok_def by (metis list.distinct(1) list.sel(1))

text \<open>The first character of a printed value gives away its constructor.\<close>

fun first_chars :: "json \<Rightarrow> string" where
  "first_chars JNull = ''n''"
| "first_chars (JBool b) = (if b then ''t'' else ''f'')"
| "first_chars (JNumber n) = digit_chars"
| "first_chars (JString s) = [CHR 0x22]"
| "first_chars (JArray vs) = ''[''"
| "first_chars (JObject m) = ''{''"

lemma emit_hd: "json_lib_ok J \<Longrightarrow> emit J v \<noteq> [] \<and> hd (emit J v) \<in> set (first_chars v)"
  by (cases v) (auto simp: number_hd quote_hd)

lemma emit_first:
  assumes "json_lib_ok J" "emit J v @ r = emit J w @ s"
  shows "set (first_chars v) \<inter> set (first_chars w) \<noteq> {}"
  using emit_hd[OF assms(1), of v] emit_hd[OF assms(1), of w] arg_cong[OF assms(2), of hd] by auto

lemma emit_self_delimiting:
  assumes J: "json_lib_ok J"
  shows "self_delimiting (emit J) v"
proof (induction v rule: json_wf.induct)
  case (1 vs)
  have p: "emit J v \<noteq> [] \<and> hd (emit J v) \<noteq> CHR '']''" for v
    using emit_hd[OF J, of v] by (cases v) (auto simp: digit_chars_def split: if_splits)
  show ?case unfolding self_delimiting_def
  proof (intro allI impI)
    fix w r s assume eq: "emit J (JArray vs) @ r = emit J w @ s"
    then obtain ws where w: "w = JArray ws"
      using emit_first[OF J eq] by (cases w) (auto simp: digit_chars_def split: if_splits)
    show "JArray vs = w \<and> r = s"
      using items_delimited[of vs "emit J" "CHR '']''" r ws s] 1 p eq unfolding w by (auto simp: digit_chars_def)
  qed
next
  case (2 m)
  let ?p = "\<lambda>(k, v). quote J k @ '':'' @ emit J v"
  have p: "?p kv \<noteq> [] \<and> hd (?p kv) \<noteq> CHR ''}''" for kv
    using quote_hd[OF J] by (cases kv) (simp add: hd_append)
  have entry: "self_delimiting ?p kv" if "kv \<in> set m" for kv
  proof -
    obtain k v where kv: "kv = (k, v)" by fastforce
    have "self_delimiting (emit J) v" by (rule 2[OF that]) (simp add: kv)
    then have val: "v = v' \<and> r = s" if "delimited r" "delimited s" "emit J v @ r = emit J v' @ s" for v' r s
      using that unfolding self_delimiting_def by metis
    have key: "k = k' \<and> r = s" if "quote J k @ r = quote J k' @ s" for k' r s
      using quote_inject[OF J that] .
    have "(k, v) = y \<and> r = s" if "delimited r" "delimited s" "?p (k, v) @ r = ?p y @ s" for y r s
    proof -
      obtain k' v' where y: "y = (k', v')" by fastforce
      have "quote J k @ '':'' @ emit J v @ r = quote J k' @ '':'' @ emit J v' @ s" using that(3) y by simp
      from key[OF this] val[OF that(1,2), of v'] show ?thesis by (simp add: y)
    qed
    then show ?thesis unfolding kv self_delimiting_def by metis
  qed
  show ?case unfolding self_delimiting_def
  proof (intro allI impI)
    fix w r s assume eq: "emit J (JObject m) @ r = emit J w @ s"
    then obtain m' where w: "w = JObject m'"
      using emit_first[OF J eq] by (cases w) (auto simp: digit_chars_def split: if_splits)
    show "JObject m = w \<and> r = s"
      using items_delimited[of m ?p "CHR ''}''" r m' s] entry p eq unfolding w by (auto simp: digit_chars_def)
  qed
next
  case 3
  have leaf: "JNull = w \<and> r = s" if eq: "emit J JNull @ r = emit J w @ s" for w r s
    using emit_first[OF J eq] eq by (cases w) (auto simp: digit_chars_def split: if_splits)
  show ?case unfolding self_delimiting_def by (intro allI impI leaf)
next
  case (4 b)
  have leaf: "JBool b = w \<and> r = s" if eq: "emit J (JBool b) @ r = emit J w @ s" for w r s
    using emit_first[OF J eq] eq by (cases w) (auto simp: digit_chars_def split: if_splits)
  show ?case unfolding self_delimiting_def by (intro allI impI leaf)
next
  case (5 n)
  have leaf: "JNumber n = w \<and> r = s" if d: "delimited r" "delimited s" and eq: "emit J (JNumber n) @ r = emit J w @ s" for w r s
  proof -
    obtain k where w: "w = JNumber k"
      using emit_first[OF J eq] by (cases w) (auto simp: digit_chars_def split: if_splits)
    have "number_str J n = number_str J k \<and> r = s"
      by (rule number_delimited[OF number_facts(1)[OF J] number_facts(1)[OF J] d]) (use eq w in simp)
    then show ?thesis by (simp add: w number_facts(2)[OF J])
  qed
  show ?case unfolding self_delimiting_def by (intro allI impI leaf)
next
  case (6 t)
  have leaf: "JString t = w \<and> r = s" if eq: "emit J (JString t) @ r = emit J w @ s" for w r s
  proof -
    obtain u where w: "w = JString u"
      using emit_first[OF J eq] by (cases w) (auto simp: digit_chars_def split: if_splits)
    then show ?thesis using quote_inject[OF J, of t r u s] eq by simp
  qed
  show ?case unfolding self_delimiting_def by (intro allI impI leaf)
qed

text \<open>Two values have the same canonical text exactly when they differ at most in the order of the keys
  of their objects.\<close>

lemma canonical_iff:
  assumes "json_lib_ok J" "json_wf v" "json_wf w"
  shows "write_canonical J v = write_canonical J w \<longleftrightarrow> sort_keys v = sort_keys w"
  using emit_self_delimiting[OF assms(1), of "sort_keys v"]
  by (auto simp: write_canonical_emit assms(2,3) self_delimiting_def delimited_def)

text \<open>Reading an object back from its sorted form, field by field.\<close>

lemma sort_keys_lookup:
  assumes "sort_keys (JObject m) = sort_keys (JObject m')" "distinct (map fst m)" "distinct (map fst m')"
  shows "map_option sort_keys (map_of m k) = map_option sort_keys (map_of m' k)"
proof -
  have *: "map_option sort_keys (map_of l k) = map_of (sort_key fst (map (\<lambda>(k, v). (k, sort_keys v)) l)) k"
    if "distinct (map fst l)" for l
  proof -
    have "distinct (map fst (map (\<lambda>(k, v). (k, sort_keys v)) l))" using that by (simp add: comp_def case_prod_beta)
    then show ?thesis by (simp add: map_of_sort_key map_of_map)
  qed
  show ?thesis using assms(1) by (simp add: *[OF assms(2)] *[OF assms(3)])
qed

section \<open>A printer that meets the assumptions\<close>

definition demo_escape :: "char \<Rightarrow> string" where
  "demo_escape c = (if c = CHR 0x22 \<or> c = CHR 0x5C then [CHR 0x5C, c] else [c])"

definition demo_json_lib :: json_lib where
  "demo_json_lib =
     \<lparr>quote = (\<lambda>s. CHR 0x22 # concat (map demo_escape s) @ [CHR 0x22]),
      number_str = (\<lambda>n. if n < 0 then CHR ''-'' # dec (nat (- n)) else dec (nat n)),
      from_json_str = (\<lambda>_. Ok JNull), to_string_pretty = (\<lambda>_. [])\<rparr>"

lemma demo_escape_inject:
  "concat (map demo_escape s) @ CHR 0x22 # r = concat (map demo_escape t) @ CHR 0x22 # r' \<Longrightarrow> s = t \<and> r = r'"
proof (induction s arbitrary: t)
  case Nil
  then show ?case by (cases t) (auto simp: demo_escape_def split: if_splits)
next
  case (Cons c s)
  then obtain d t' where "t = d # t'" by (cases t) (auto simp: demo_escape_def split: if_splits)
  with Cons show ?case by (auto simp: demo_escape_def split: if_splits)
qed

lemma digit_chars_digits:
  assumes "is_digit c"
  shows "c \<in> set digit_chars"
proof -
  have "(of_char :: char \<Rightarrow> nat) ` set digit_chars = {45, 48, 49, 50, 51, 52, 53, 54, 55, 56, 57}"
    by (simp add: digit_chars_def)
  moreover have "(of_char c :: nat) \<in> {48, 49, 50, 51, 52, 53, 54, 55, 56, 57}"
    using assms by (simp add: is_digit_def) presburger
  ultimately have "(of_char c :: nat) \<in> of_char ` set digit_chars" by auto
  then show ?thesis by (metis image_iff of_char_eq_iff)
qed

lemma demo_json_ok: "json_lib_ok demo_json_lib"
proof -
  let ?str = "\<lambda>n :: int. if n < 0 then CHR ''-'' # dec (nat (- n)) else dec (nat n)"
  have sign: "CHR ''-'' # s \<noteq> dec k" for s k
  proof
    assume "CHR ''-'' # s = dec k"
    then have "is_digit (CHR ''-'')" using dec_digits[of "CHR ''-''" k] by (metis list.set_intros(1))
    then show False by (simp add: is_digit_def)
  qed
  have "?str n = ?str m \<Longrightarrow> n = m" for n m
    using sign sign[symmetric] by (auto simp: dec_inject split: if_splits)
  then have inj: "inj ?str" by (auto intro: injI)
  have digits: "set (dec k) \<subseteq> set digit_chars" for k
    using dec_digits digit_chars_digits by blast
  have "CHR ''-'' \<in> set digit_chars" by (simp add: digit_chars_def)
  with digits have chars: "?str n \<noteq> [] \<and> set (?str n) \<subseteq> set digit_chars" for n by simp
  show ?thesis
    unfolding json_lib_ok_def demo_json_lib_def json_lib.simps
    using inj chars by (auto dest: demo_escape_inject)
qed

end
