(* ===== verification/Recovery.thy ===== *)
theory Recovery
  imports Json Federation
begin

text \<open>
  \<open>src/recovery.rs\<close>: the recovery template of a federation, its builder, the per-wallet
  instructions and the checksum. The serde encodings of the crate's types (derived from their
  declarations) are the \<open>_value\<close> functions. What other crates print, parse or hash is the
  argument \<open>T\<close> (with \<open>J\<close> for serde_json).
\<close>

record text_lib =
  fingerprint_str :: "fingerprint \<Rightarrow> string"
  path_str :: "derivation_path \<Rightarrow> string"
  xpub_str :: "xpub \<Rightarrow> string"
  network_str :: "network \<Rightarrow> string"
  network_variant :: "network \<Rightarrow> string"
  network_debug :: "network_type \<Rightarrow> string"
  time_debug :: "system_time \<Rightarrow> string"
  parse_descriptor :: "string \<Rightarrow> (descriptor, string) result"
  sha256 :: "string \<Rightarrow> bytes"
  hex_encode :: "bytes \<Rightarrow> string"

section \<open>Data\<close>

datatype recovery_software = BitcoinCore | SparrowWallet | SpecterDesktop | Nunchuk | Other_Software string

fun software_name :: "recovery_software \<Rightarrow> string" where
  "software_name BitcoinCore = ''Bitcoin Core''"
| "software_name SparrowWallet = ''Sparrow Wallet''"
| "software_name SpecterDesktop = ''Specter Desktop''"
| "software_name Nunchuk = ''Nunchuk''"
| "software_name (Other_Software name) = name"

record recovery_instructions =
  ri_software :: recovery_software
  ri_min_version :: "string option"
  ri_steps :: "string list"

record recovery_signer_info =
  rs_id :: signer_id
  rs_label :: "string option"
  rs_fingerprint :: string
  rs_derivation_path :: string
  rs_signer_type :: signer_type
  rs_device_type :: device_type

record recovery_template =
  rt_descriptor :: string
  rt_threshold :: u32
  rt_total_signers :: u32
  rt_network :: network_type
  rt_signer_info :: "recovery_signer_info list"
  rt_instructions :: "recovery_instructions list"
  rt_last_receive :: "u32 option"
  rt_last_change :: "u32 option"
  rt_checksum :: string
  rt_generated_at :: system_time

section \<open>Serialization\<close>

text \<open>A struct serializes to an object with its fields in declaration order.\<close>

definition struct :: "string list \<Rightarrow> json list \<Rightarrow> json" where
  "struct names vals = JObject (zip names vals)"

definition option_value :: "('a \<Rightarrow> json) \<Rightarrow> 'a option \<Rightarrow> json" where
  "option_value f x = (case x of None \<Rightarrow> JNull | Some y \<Rightarrow> f y)"

definition u32_value :: "u32 \<Rightarrow> json" where
  "u32_value n = JNumber (uint n)"

definition signer_id_value :: "signer_id \<Rightarrow> json" where
  "signer_id_value sid = JString (signer_id_as_str sid)"

fun signer_type_value :: "signer_type \<Rightarrow> json" where
  "signer_type_value Software = JString ''software''"
| "signer_type_value External = JString ''external''"

fun device_type_value :: "device_type \<Rightarrow> json" where
  "device_type_value Trezor = struct [''kind''] [JString ''trezor'']"
| "device_type_value Jade = struct [''kind''] [JString ''jade'']"
| "device_type_value PassportPrime = struct [''kind''] [JString ''passport_prime'']"
| "device_type_value Ledger = struct [''kind''] [JString ''ledger'']"
| "device_type_value Coldcard = struct [''kind''] [JString ''coldcard'']"
| "device_type_value (Hsm v) = struct [''kind'', ''vendor''] [JString ''hsm'', JString v]"
| "device_type_value Generic = struct [''kind''] [JString ''generic'']"

text \<open>An internally tagged variant that holds a unit variant becomes an object of the tag and the
  inner variant's name.\<close>

fun network_value :: "text_lib \<Rightarrow> network_type \<Rightarrow> json" where
  "network_value T (Bitcoin n) = struct [''kind'', network_variant T n] [JString ''bitcoin'', JNull]"
| "network_value T (Elements i) = struct [''kind'', show_elements i] [JString ''elements'', JNull]"

fun software_value :: "recovery_software \<Rightarrow> json" where
  "software_value BitcoinCore = struct [''kind''] [JString ''bitcoin_core'']"
| "software_value SparrowWallet = struct [''kind''] [JString ''sparrow_wallet'']"
| "software_value SpecterDesktop = struct [''kind''] [JString ''specter_desktop'']"
| "software_value Nunchuk = struct [''kind''] [JString ''nunchuk'']"
| "software_value (Other_Software name) = struct [''kind'', ''name''] [JString ''other'', JString name]"

definition instructions_value :: "recovery_instructions \<Rightarrow> json" where
  "instructions_value i = struct [''software'', ''min_version'', ''steps'']
     [software_value (ri_software i), option_value JString (ri_min_version i), JArray (map JString (ri_steps i))]"

definition signer_info_value :: "recovery_signer_info \<Rightarrow> json" where
  "signer_info_value s = struct [''id'', ''label'', ''fingerprint'', ''derivation_path'', ''signer_type'', ''device_type'']
     [signer_id_value (rs_id s), option_value JString (rs_label s), JString (rs_fingerprint s),
      JString (rs_derivation_path s), signer_type_value (rs_signer_type s), device_type_value (rs_device_type s)]"

text \<open>The content that is checksummed: all but the checksum and the time of generation.\<close>

definition content_value :: "text_lib \<Rightarrow> recovery_template \<Rightarrow> json" where
  "content_value T t = struct
     [''descriptor'', ''threshold'', ''total_signers'', ''network'', ''signer_info'', ''reconstruction_instructions'',
      ''last_receive_index'', ''last_change_index'']
     [JString (rt_descriptor t), u32_value (rt_threshold t), u32_value (rt_total_signers t), network_value T (rt_network t),
      JArray (map signer_info_value (rt_signer_info t)), JArray (map instructions_value (rt_instructions t)),
      option_value u32_value (rt_last_receive t), option_value u32_value (rt_last_change t)]"

definition compute_checksum :: "json_lib \<Rightarrow> text_lib \<Rightarrow> recovery_template \<Rightarrow> string" where
  "compute_checksum J T t =
     (let canonical = write_canonical J (content_value T t) in hex_encode T (sha256 T canonical))"

text \<open>\<open>SystemTime\<close> to whole seconds; a time before the epoch becomes the epoch.\<close>

definition now_truncated_to_seconds :: "system_time \<Rightarrow> system_time" where
  "now_truncated_to_seconds now = (let secs = if now < 0 then 0 else now div 10 ^ 9 in secs * 10 ^ 9)"

section \<open>Instructions\<close>

text \<open>The arrow of the source strings, in UTF-8, and the line feed.\<close>

definition arrow :: string where
  "arrow = [CHR 0xE2, CHR 0x86, CHR 0x92]"

definition nl :: string where
  "nl = [CHR 0x0A]"

definition dec_u32 :: "u32 \<Rightarrow> string" where
  "dec_u32 n = dec (unat n)"

definition bitcoin_core_instructions :: "json_lib \<Rightarrow> recovery_template \<Rightarrow> recovery_instructions" where
  \<open>bitcoin_core_instructions J t =
     (let timestamp = ''"now"'';
          payload = to_string_pretty J (JArray [JObject
            [(''desc'', JString (rt_descriptor t)), (''active'', JBool True), (''internal'', JBool False),
             (''timestamp'', JString ''now''),
             (''range'', JArray [JNumber 0, u32_value (case rt_last_receive t of None \<Rightarrow> 20 | Some i \<Rightarrow> i)])]])
      in \<lparr>ri_software = BitcoinCore, ri_min_version = Some ''24.0'',
          ri_steps =
            [''Start `bitcoind` and create (or unlock) a descriptor wallet:'',
             ''  bitcoin-cli createwallet "emvault-recovery" false false "" false true'',
             ''Import the federation descriptor with `importdescriptors` (timestamp='' @ timestamp @
               '' performs a full chain rescan):'',
             ''  bitcoin-cli -rpcwallet=emvault-recovery importdescriptors '' @ [CHR 0x27] @ payload @ [CHR 0x27],
             ''Once the import completes, use `getbalance` and `listtransactions` to confirm the federation's UTXO history is visible.'']\<rparr>)\<close>

definition sparrow_instructions :: "recovery_template \<Rightarrow> recovery_instructions" where
  \<open>sparrow_instructions t =
     \<lparr>ri_software = SparrowWallet, ri_min_version = Some ''1.7.0'',
      ri_steps =
        [''Open Sparrow '' @ arrow @ '' File '' @ arrow @ '' New Wallet '' @ arrow @ '' choose a wallet name.'',
         ''Set the policy type to "Multi Signature" (m of n).'',
         ''Choose Threshold = '' @ dec_u32 (rt_threshold t) @ '' and add Cosigners = '' @ dec_u32 (rt_total_signers t) @ '' keystores.'',
         ''Click "Edit Policy '' @ arrow @ '' Output Descriptor" and paste the descriptor below.'',
         rt_descriptor t,
         ''Apply, then verify the first receive address matches a known reference.'']\<rparr>\<close>

definition specter_instructions :: "recovery_template \<Rightarrow> recovery_instructions" where
  \<open>specter_instructions t =
     \<lparr>ri_software = SpecterDesktop, ri_min_version = Some ''1.14.0'',
      ri_steps =
        [''Open Specter Desktop and connect to your Bitcoin Core node.'',
         ''Devices '' @ arrow @ '' Add new device for each of the '' @ dec_u32 (rt_total_signers t) @ '' cosigners.'',
         ''Wallets '' @ arrow @ '' Add new wallet '' @ arrow @ '' choose "Multisignature".'',
         ''Set quorum to '' @ dec_u32 (rt_threshold t) @ '' of '' @ dec_u32 (rt_total_signers t) @
           '' and select the cosigner devices in the order encoded in the descriptor.'',
         ''Advanced '' @ arrow @ '' "Edit descriptor" '' @ arrow @ '' paste the descriptor below.'',
         rt_descriptor t,
         ''Save the wallet and verify Specter generates the same first receive address as the source federation.'']\<rparr>\<close>

definition nunchuk_instructions :: "recovery_template \<Rightarrow> recovery_instructions" where
  \<open>nunchuk_instructions t =
     \<lparr>ri_software = Nunchuk, ri_min_version = Some ''1.9.0'',
      ri_steps =
        [''Open Nunchuk '' @ arrow @ '' Wallets '' @ arrow @ '' Add '' @ arrow @ '' "Recover wallet".'',
         ''Choose "Recover from descriptor".'',
         ''Paste the descriptor:'',
         rt_descriptor t,
         ''Confirm Threshold = '' @ dec_u32 (rt_threshold t) @ '' of '' @ dec_u32 (rt_total_signers t) @
           '' and complete the recovery flow.'']\<rparr>\<close>

fun generate_instructions :: "json_lib \<Rightarrow> recovery_software \<Rightarrow> recovery_template \<Rightarrow> recovery_instructions" where
  "generate_instructions J BitcoinCore t = bitcoin_core_instructions J t"
| "generate_instructions J SparrowWallet t = sparrow_instructions t"
| "generate_instructions J SpecterDesktop t = specter_instructions t"
| "generate_instructions J Nunchuk t = nunchuk_instructions t"
| "generate_instructions J (Other_Software name) t =
     \<lparr>ri_software = Other_Software name, ri_min_version = None,
      ri_steps = [''Import the following descriptor into '' @ name @ '': '' @ rt_descriptor t]\<rparr>"

section \<open>The builder\<close>

record template_builder =
  tb_federation :: federation
  tb_softwares :: "recovery_software list"
  tb_last_receive :: "u32 option"
  tb_last_change :: "u32 option"
  tb_labels :: "signer_id \<rightharpoonup> string"
  tb_device_types :: "signer_id \<rightharpoonup> device_type"

definition template_builder_new :: "federation \<Rightarrow> template_builder" where
  "template_builder_new f =
     \<lparr>tb_federation = f, tb_softwares = [BitcoinCore, SparrowWallet, SpecterDesktop, Nunchuk],
      tb_last_receive = None, tb_last_change = None, tb_labels = Map.empty, tb_device_types = Map.empty\<rparr>"

definition tb_set_softwares :: "recovery_software list \<Rightarrow> template_builder \<Rightarrow> template_builder" where
  "tb_set_softwares sw b = b\<lparr>tb_softwares := sw\<rparr>"

definition tb_set_last_receive :: "u32 \<Rightarrow> template_builder \<Rightarrow> template_builder" where
  "tb_set_last_receive i b = b\<lparr>tb_last_receive := Some i\<rparr>"

definition tb_set_last_change :: "u32 \<Rightarrow> template_builder \<Rightarrow> template_builder" where
  "tb_set_last_change i b = b\<lparr>tb_last_change := Some i\<rparr>"

definition tb_signer_label :: "signer_id \<Rightarrow> string \<Rightarrow> template_builder \<Rightarrow> template_builder" where
  "tb_signer_label sid l b = b\<lparr>tb_labels := (tb_labels b)(sid \<mapsto> l)\<rparr>"

definition tb_signer_device_type :: "signer_id \<Rightarrow> device_type \<Rightarrow> template_builder \<Rightarrow> template_builder" where
  "tb_signer_device_type sid d b = b\<lparr>tb_device_types := (tb_device_types b)(sid \<mapsto> d)\<rparr>"

definition template_signer_info :: "text_lib \<Rightarrow> template_builder \<Rightarrow> signer \<Rightarrow> recovery_signer_info" where
  "template_signer_info T b s =
     \<lparr>rs_id = sg_id s,
      rs_label = (case tb_labels b (sg_id s) of Some l \<Rightarrow> Some l | None \<Rightarrow> sg_label s),
      rs_fingerprint = fingerprint_str T (sg_fingerprint s),
      rs_derivation_path = path_str T (sg_derivation_path s),
      rs_signer_type = sg_signer_type s,
      rs_device_type = (case tb_device_types b (sg_id s) of Some d \<Rightarrow> d | None \<Rightarrow> Generic)\<rparr>"

text \<open>The template with everything but its checksum; the instructions are generated from the template
  that has none yet.\<close>

definition template_draft :: "json_lib \<Rightarrow> text_lib \<Rightarrow> system_time \<Rightarrow> template_builder \<Rightarrow> u32 \<Rightarrow> recovery_template" where
  "template_draft J T now b n =
     (let f = tb_federation b;
          t = \<lparr>rt_descriptor = fd_descriptor_string f, rt_threshold = fd_threshold f, rt_total_signers = n,
               rt_network = fd_network f, rt_signer_info = map (template_signer_info T b) (fd_signers f),
               rt_instructions = [], rt_last_receive = tb_last_receive b, rt_last_change = tb_last_change b,
               rt_checksum = [], rt_generated_at = now_truncated_to_seconds now\<rparr>
      in t\<lparr>rt_instructions := map (\<lambda>sw. generate_instructions J sw t) (tb_softwares b)\<rparr>)"

definition template_build :: "json_lib \<Rightarrow> text_lib \<Rightarrow> system_time \<Rightarrow> template_builder \<Rightarrow> (recovery_template, recovery_error) result" where
  "template_build J T now b =
     and_then (if total_signers (tb_federation b) < 2 ^ 32 then Ok (of_nat (total_signers (tb_federation b)) :: u32) else Panic) (\<lambda>n.
     let t = template_draft J T now b n in Ok (t\<lparr>rt_checksum := compute_checksum J T t\<rparr>))"

definition from_federation :: "json_lib \<Rightarrow> text_lib \<Rightarrow> system_time \<Rightarrow> federation \<Rightarrow> (recovery_template, recovery_error) result" where
  "from_federation J T now f = template_build J T now (template_builder_new f)"

definition template_verify :: "json_lib \<Rightarrow> text_lib \<Rightarrow> recovery_template \<Rightarrow> (unit, recovery_error) result" where
  "template_verify J T t =
     (let recomputed = compute_checksum J T t in
      if recomputed \<noteq> rt_checksum t then Err (ChecksumMismatch (rt_checksum t) recomputed)
      else and_then (map_err InvalidDescriptor (parse_descriptor T (rt_descriptor t))) (\<lambda>_. Ok ()))"

definition timestamp_value :: "system_time \<Rightarrow> json" where
  "timestamp_value t = JNumber (t div 10 ^ 9)"

definition template_value :: "text_lib \<Rightarrow> recovery_template \<Rightarrow> json" where
  "template_value T t = struct
     [''descriptor'', ''threshold'', ''total_signers'', ''network'', ''signer_info'', ''reconstruction_instructions'',
      ''last_receive_index'', ''last_change_index'', ''checksum'', ''generated_at'']
     [JString (rt_descriptor t), u32_value (rt_threshold t), u32_value (rt_total_signers t), network_value T (rt_network t),
      JArray (map signer_info_value (rt_signer_info t)), JArray (map instructions_value (rt_instructions t)),
      option_value u32_value (rt_last_receive t), option_value u32_value (rt_last_change t),
      JString (rt_checksum t), timestamp_value (rt_generated_at t)]"

definition template_to_json :: "json_lib \<Rightarrow> text_lib \<Rightarrow> recovery_template \<Rightarrow> string" where
  "template_to_json J T t = to_string_pretty J (template_value T t)"

text \<open>Reading back is the decoder \<open>parse\<close> that serde derives, with its error renamed.\<close>

definition template_from_json :: "(string \<Rightarrow> (recovery_template, string) result) \<Rightarrow> string \<Rightarrow> (recovery_template, recovery_error) result" where
  "template_from_json parse s = map_err Re_Json (parse s)"

definition printable_signer :: "recovery_signer_info \<Rightarrow> string" where
  "printable_signer s =
     (let label = (case rs_label s of None \<Rightarrow> [] | Some l \<Rightarrow> '' ('' @ l @ '')'')
      in ''  - '' @ signer_id_as_str (rs_id s) @ label @ '' fingerprint='' @ rs_fingerprint s @ '' path='' @
         rs_derivation_path s @ nl)"

definition printable_instructions :: "recovery_instructions \<Rightarrow> string" where
  "printable_instructions inst =
     (let version = (case ri_min_version inst of None \<Rightarrow> [] | Some v \<Rightarrow> '' (>= '' @ v @ '')'')
      in nl @ ''--- '' @ software_name (ri_software inst) @ version @ '' ---'' @ nl @
         concat (map (\<lambda>(i, step). dec (i + 1) @ ''. '' @ step @ nl) (List.enumerate 0 (ri_steps inst))))"

definition to_printable :: "text_lib \<Rightarrow> recovery_template \<Rightarrow> string" where
  "to_printable T t =
     ''EmVault Federation Recovery Template'' @ nl @
     ''======================================'' @ nl @
     ''Threshold: '' @ dec_u32 (rt_threshold t) @ '' of '' @ dec_u32 (rt_total_signers t) @ nl @
     ''Network:   '' @ show_network_type (network_str T) (rt_network t) @ nl @
     ''Generated: '' @ time_debug T (rt_generated_at t) @ nl @
     ''Checksum:  '' @ rt_checksum t @ nl @ nl @
     ''Descriptor:'' @ nl @ rt_descriptor t @ nl @ nl @ ''Signers:'' @ nl @
     concat (map printable_signer (rt_signer_info t)) @
     (case (rt_last_receive t, rt_last_change t) of
        (Some r, Some c) \<Rightarrow> nl @ ''Last indexes: receive='' @ dec_u32 r @ '', change='' @ dec_u32 c @ nl
      | _ \<Rightarrow> []) @
     nl @ ''Reconstruction instructions:'' @ nl @
     concat (map printable_instructions (rt_instructions t))"

section \<open>Serialization loses nothing\<close>

lemma json_wf_struct:
  assumes "length names = length vals"
  shows "json_wf (struct names vals) \<longleftrightarrow> distinct names \<and> (\<forall>v \<in> set vals. json_wf v)"
proof -
  have "(\<forall>(_, v) \<in> set (zip names vals). json_wf v) \<longleftrightarrow> (\<forall>v \<in> set (map snd (zip names vals)). json_wf v)" by auto
  then show ?thesis using assms by (simp add: struct_def)
qed

lemma sort_keys_struct:
  assumes "length vals = length names" "length vals' = length names" "distinct names"
  shows "sort_keys (struct names vals) = sort_keys (struct names vals') \<longleftrightarrow> map sort_keys vals = map sort_keys vals'"
proof
  assume eq: "sort_keys (struct names vals) = sort_keys (struct names vals')"
  show "map sort_keys vals = map sort_keys vals'"
  proof (rule nth_equalityI)
    fix i assume i: "i < length (map sort_keys vals)"
    have "map_of (zip names vals) (names ! i) = Some (vals ! i)" "map_of (zip names vals') (names ! i) = Some (vals' ! i)"
      using i assms by (auto simp: map_of_zip_nth)
    then show "map sort_keys vals ! i = map sort_keys vals' ! i"
      using sort_keys_lookup[OF eq[unfolded struct_def], of "names ! i"] i assms by simp
  qed (use assms in simp)
next
  assume eq: "map sort_keys vals = map sort_keys vals'"
  have "map (\<lambda>(k, v). (k, sort_keys v)) (zip names vs) = zip names (map sort_keys vs)" for vs
    by (simp add: zip_map2)
  then show "sort_keys (struct names vals) = sort_keys (struct names vals')"
    using eq by (simp add: struct_def)
qed

lemma sort_keys_struct_length:
  "sort_keys (struct names vals) = sort_keys (struct names' vals') \<Longrightarrow> length names = length vals \<Longrightarrow>
   length names' = length vals' \<Longrightarrow> length names = length names'"
  by (drule arg_cong[where f = "\<lambda>v. case v of JObject m \<Rightarrow> length m | _ \<Rightarrow> 0"]) (simp add: struct_def)

lemma sort_keys_struct_names:
  assumes "sort_keys (struct names vals) = sort_keys (struct names' vals')" "length names = length vals" "length names' = length vals'"
  shows "set names = set names'"
proof -
  have "set names = fst ` set m" if "sort_keys (struct names vals) = JObject m" "length names = length vals" for names vals m
    using that by (force simp: struct_def set_zip image_iff in_set_conv_nth)
  then show ?thesis using assms by (metis sort_keys.simps(2) struct_def)
qed

text \<open>An encoding is faithful when values with the same JSON, up to the order of keys, are equal.\<close>

definition faithful :: "('a \<Rightarrow> json) \<Rightarrow> bool" where
  "faithful f \<longleftrightarrow> inj (\<lambda>x. sort_keys (f x))"

lemma faithfulI: "(\<And>x y. sort_keys (f x) = sort_keys (f y) \<Longrightarrow> x = y) \<Longrightarrow> faithful f"
  by (simp add: faithful_def inj_def)

lemma faithful_eq: "faithful f \<Longrightarrow> sort_keys (f x) = sort_keys (f y) \<longleftrightarrow> x = y"
  by (auto simp: faithful_def inj_def)

lemma faithful_array: "faithful f \<Longrightarrow> faithful (\<lambda>xs. JArray (map f xs))"
proof (rule faithfulI)
  fix xs ys assume f: "faithful f" and "sort_keys (JArray (map f xs)) = sort_keys (JArray (map f ys))"
  then have "map (\<lambda>x. sort_keys (f x)) xs = map (\<lambda>x. sort_keys (f x)) ys" by (simp add: comp_def)
  then show "xs = ys" using f unfolding faithful_def by (metis inj_map_eq_map)
qed

lemma faithful_option: "faithful f \<Longrightarrow> \<forall>x. sort_keys (f x) \<noteq> JNull \<Longrightarrow> faithful (option_value f)"
  by (rule faithfulI) (auto simp: option_value_def faithful_eq split: option.splits, metis)

lemma faithful_leaves: "faithful JString" "faithful u32_value" "faithful signer_id_value" "faithful signer_type_value"
proof -
  show "faithful JString" by (rule faithfulI) simp
  show "faithful u32_value" by (rule faithfulI) (simp add: u32_value_def word_uint_eq_iff)
  show "faithful signer_id_value"
  proof (rule faithfulI)
    show "sort_keys (signer_id_value a) = sort_keys (signer_id_value b) \<Longrightarrow> a = b" for a b
      by (cases a; cases b) (simp add: signer_id_value_def)
  qed
  show "faithful signer_type_value"
  proof (rule faithfulI)
    show "sort_keys (signer_type_value a) = sort_keys (signer_type_value b) \<Longrightarrow> a = b" for a b
      by (cases a; cases b) simp_all
  qed
qed

lemma faithful_options: "faithful (option_value JString)" "faithful (option_value u32_value)"
  by (auto intro!: faithful_option faithful_leaves simp: u32_value_def)

lemma faithful_device_type: "faithful device_type_value"
proof (rule faithfulI)
  show "sort_keys (device_type_value a) = sort_keys (device_type_value b) \<Longrightarrow> a = b" for a b
    by (cases a; cases b) (auto simp: sort_keys_struct dest: sort_keys_struct_length)
qed

lemma faithful_software: "faithful software_value"
proof (rule faithfulI)
  show "sort_keys (software_value a) = sort_keys (software_value b) \<Longrightarrow> a = b" for a b
    by (cases a; cases b) (auto simp: sort_keys_struct dest: sort_keys_struct_length)
qed

lemma faithful_instructions: "faithful instructions_value"
proof (rule faithfulI)
  fix a b assume "sort_keys (instructions_value a) = sort_keys (instructions_value b)"
  then have "sort_keys (software_value (ri_software a)) = sort_keys (software_value (ri_software b))"
    "sort_keys (option_value JString (ri_min_version a)) = sort_keys (option_value JString (ri_min_version b))"
    "sort_keys (JArray (map JString (ri_steps a))) = sort_keys (JArray (map JString (ri_steps b)))"
    unfolding instructions_value_def by (simp_all add: sort_keys_struct del: sort_keys.simps)
  then show "a = b"
    by (simp add: faithful_eq[OF faithful_software] faithful_eq[OF faithful_options(1)]
        faithful_eq[OF faithful_array[OF faithful_leaves(1)]] del: sort_keys.simps)
qed

lemma faithful_signer_info: "faithful signer_info_value"
proof (rule faithfulI)
  fix a b assume "sort_keys (signer_info_value a) = sort_keys (signer_info_value b)"
  then have "sort_keys (signer_id_value (rs_id a)) = sort_keys (signer_id_value (rs_id b))"
    "sort_keys (option_value JString (rs_label a)) = sort_keys (option_value JString (rs_label b))"
    "rs_fingerprint a = rs_fingerprint b" "rs_derivation_path a = rs_derivation_path b"
    "sort_keys (signer_type_value (rs_signer_type a)) = sort_keys (signer_type_value (rs_signer_type b))"
    "sort_keys (device_type_value (rs_device_type a)) = sort_keys (device_type_value (rs_device_type b))"
    unfolding signer_info_value_def by (simp_all add: sort_keys_struct)
  then show "a = b"
    by (simp add: faithful_eq[OF faithful_leaves(3)] faithful_eq[OF faithful_leaves(4)] faithful_eq[OF faithful_options(1)]
        faithful_eq[OF faithful_device_type])
qed

text \<open>What is used of the bitcoin, hex and sha2 crates: a network's variant names tell the networks
  apart, and hex encoding is injective. Nothing is assumed of SHA-256.\<close>

definition text_lib_ok :: "text_lib \<Rightarrow> bool" where
  "text_lib_ok T \<longleftrightarrow> inj (network_variant T) \<and> (\<forall>n. network_variant T n \<noteq> ''kind'') \<and> inj (hex_encode T)"

lemma show_elements_kind: "show_elements i \<noteq> ''kind''"
  by (cases i) simp_all

lemma faithful_network:
  assumes "text_lib_ok T"
  shows "faithful (network_value T)"
proof (rule faithfulI)
  fix a b assume eq: "sort_keys (network_value T a) = sort_keys (network_value T b)"
  have kind: "network_variant T n \<noteq> ''kind''" for n using assms by (simp add: text_lib_ok_def)
  have lookup: "map_option sort_keys (map_of (zip [''kind'', x] vs) k) = map_option sort_keys (map_of (zip [''kind'', y] ws) k)"
    if "sort_keys (struct [''kind'', x] vs) = sort_keys (struct [''kind'', y] ws)" "x \<noteq> ''kind''" "y \<noteq> ''kind''"
      "length vs = 2" "length ws = 2" for x y vs ws k
    using sort_keys_lookup[OF that(1)[unfolded struct_def], of k] that(2-) by simp
  show "a = b"
  proof (cases a; cases b)
    fix n m assume ab: "a = Bitcoin n" "b = Bitcoin m"
    have "network_variant T n = network_variant T m"
      using lookup[OF eq[unfolded ab network_value.simps] kind kind, of "network_variant T n"] kind
      by (auto split: if_splits)
    then show "a = b" using assms ab by (auto simp: text_lib_ok_def dest: injD)
  next
    fix i j assume ab: "a = Elements i" "b = Elements j"
    have "show_elements i = show_elements j"
      using lookup[OF eq[unfolded ab network_value.simps] show_elements_kind show_elements_kind, of "show_elements i"]
        show_elements_kind by (auto split: if_splits)
    then show "a = b" by (simp add: ab show_elements_inject)
  next
    fix n i assume ab: "a = Bitcoin n" "b = Elements i"
    show "a = b" using lookup[OF eq[unfolded ab network_value.simps] kind show_elements_kind, of "''kind''"] by simp
  next
    fix n i assume ab: "a = Elements i" "b = Bitcoin n"
    show "a = b" using lookup[OF eq[unfolded ab network_value.simps] show_elements_kind kind, of "''kind''"] by simp
  qed
qed

lemma json_wf_option: "\<forall>x. json_wf (f x) \<Longrightarrow> json_wf (option_value f o')"
  by (simp add: option_value_def split: option.split)

lemma json_wf_enums: "json_wf (signer_type_value st)" "json_wf (device_type_value d)" "json_wf (software_value sw)"
proof -
  show "json_wf (signer_type_value st)" by (cases st) simp_all
  show "json_wf (device_type_value d)" by (cases d) (simp_all add: json_wf_struct)
  show "json_wf (software_value sw)" by (cases sw) (simp_all add: json_wf_struct)
qed

lemma json_wf_leaves:
  "json_wf (u32_value n)" "json_wf (signer_id_value sid)" "json_wf (option_value JString l)" "json_wf (option_value u32_value i)"
  by (simp_all add: u32_value_def signer_id_value_def json_wf_option)

lemmas json_wf_values = json_wf_enums json_wf_leaves

lemma json_wf_network: "text_lib_ok T \<Longrightarrow> json_wf (network_value T n)"
  using show_elements_kind[symmetric] by (cases n) (auto simp: json_wf_struct text_lib_ok_def)

lemma json_wf_rows: "json_wf (signer_info_value s)" "json_wf (instructions_value i)"
  by (simp_all add: signer_info_value_def instructions_value_def json_wf_struct json_wf_values)

lemma json_wf_content: "text_lib_ok T \<Longrightarrow> json_wf (content_value T t)"
  by (simp add: content_value_def json_wf_struct json_wf_values json_wf_network json_wf_rows)

lemma content_value_eq:
  assumes "text_lib_ok T"
  shows "sort_keys (content_value T t) = sort_keys (content_value T t') \<longleftrightarrow>
    t' = t\<lparr>rt_checksum := rt_checksum t', rt_generated_at := rt_generated_at t'\<rparr>"
proof -
  note rows = faithful_eq[OF faithful_array[OF faithful_signer_info]] faithful_eq[OF faithful_array[OF faithful_instructions]]
    faithful_eq[OF faithful_network[OF assms]] faithful_eq[OF faithful_leaves(2)] faithful_eq[OF faithful_options(2)]
    faithful_eq[OF faithful_leaves(1)]
  have "sort_keys (content_value T t) = sort_keys (content_value T t') \<longleftrightarrow>
      rt_descriptor t = rt_descriptor t' \<and> rt_threshold t = rt_threshold t' \<and> rt_total_signers t = rt_total_signers t'
    \<and> rt_network t = rt_network t' \<and> rt_signer_info t = rt_signer_info t' \<and> rt_instructions t = rt_instructions t'
    \<and> rt_last_receive t = rt_last_receive t' \<and> rt_last_change t = rt_last_change t'"
    unfolding content_value_def by (simp add: sort_keys_struct rows del: sort_keys.simps)
  then show ?thesis by (cases t; cases t') auto
qed

section \<open>Templates\<close>

lemma generate_software: "ri_software (generate_instructions J sw t) = sw"
  by (cases sw) (simp_all add: bitcoin_core_instructions_def sparrow_instructions_def specter_instructions_def
      nunchuk_instructions_def Let_def)

text \<open>Neither the checksum itself nor the time of generation is part of what is checksummed.\<close>

lemma compute_checksum_content:
  "compute_checksum J T (t\<lparr>rt_checksum := c, rt_generated_at := x\<rparr>) = compute_checksum J T t"
  "compute_checksum J T (t\<lparr>rt_checksum := c\<rparr>) = compute_checksum J T t"
  "compute_checksum J T (t\<lparr>rt_generated_at := x\<rparr>) = compute_checksum J T t"
  by (simp_all add: compute_checksum_def content_value_def)

lemma generated_at_unprotected: "template_verify J T (t\<lparr>rt_generated_at := x\<rparr>) = template_verify J T t"
  by (auto simp: template_verify_def Let_def compute_checksum_content)

lemma template_build_Ok:
  assumes "template_build J T now b = Ok t"
  shows "total_signers (tb_federation b) < 2 ^ 32"
    and "t = (template_draft J T now b (of_nat (total_signers (tb_federation b))))
      \<lparr>rt_checksum := compute_checksum J T (template_draft J T now b (of_nat (total_signers (tb_federation b))))\<rparr>"
  using assms by (auto simp: template_build_def Let_def split: if_splits)

lemma template_draft_fields:
  "rt_descriptor (template_draft J T now b n) = fd_descriptor_string (tb_federation b)"
  "rt_threshold (template_draft J T now b n) = fd_threshold (tb_federation b)"
  "rt_total_signers (template_draft J T now b n) = n"
  "rt_signer_info (template_draft J T now b n) = map (template_signer_info T b) (fd_signers (tb_federation b))"
  "map ri_software (rt_instructions (template_draft J T now b n)) = tb_softwares b"
  by (simp_all add: template_draft_def Let_def comp_def generate_software)

lemma built_verify:
  assumes "template_build J T now b = Ok t"
  shows "template_verify J T t =
    and_then (map_err InvalidDescriptor (parse_descriptor T (fd_descriptor_string (tb_federation b)))) (\<lambda>_. Ok ())"
proof -
  note t = template_build_Ok[OF assms]
  have "rt_checksum t = compute_checksum J T t"
    unfolding t(2) by (simp add: compute_checksum_content)
  moreover have "rt_descriptor t = fd_descriptor_string (tb_federation b)"
    unfolding t(2) by (simp add: template_draft_fields)
  ultimately show ?thesis by (simp add: template_verify_def)
qed

section \<open>Witnesses\<close>

text \<open>A library that meets the assumptions, with a parser that rejects the empty text.\<close>

fun demo_network_name :: "network \<Rightarrow> string" where
  "demo_network_name Mainnet = ''bitcoin''"
| "demo_network_name Testnet = ''testnet''"
| "demo_network_name Testnet4 = ''testnet4''"
| "demo_network_name Signet = ''signet''"
| "demo_network_name Regtest = ''regtest''"

definition demo_text_lib :: text_lib where
  "demo_text_lib =
     \<lparr>fingerprint_str = (\<lambda>fp. dec (unat fp)), path_str = (\<lambda>_. ''m''), xpub_str = (\<lambda>x. dec (unat (xp_chain_code x))),
      network_str = demo_network_name, network_variant = demo_network_name, network_debug = (\<lambda>_. []), time_debug = (\<lambda>_. []),
      parse_descriptor = (\<lambda>s. if s = [] then Err ''empty'' else Ok (Bare s)), sha256 = (\<lambda>s. [of_nat (length s)]),
      hex_encode = map (\<lambda>b. char_of (unat b))\<rparr>"

lemma demo_text_ok: "text_lib_ok demo_text_lib"
proof -
  have "demo_network_name n = demo_network_name m \<Longrightarrow> n = m" for n m
    by (cases n; cases m) simp_all
  moreover have "demo_network_name n \<noteq> ''kind''" for n by (cases n) simp_all
  moreover have "inj (\<lambda>b :: u8. char_of (unat b) :: char)"
  proof (rule injI)
    fix a b :: u8 assume "char_of (unat a) = (char_of (unat b) :: char)"
    then have "unat a mod 256 = unat b mod 256" by (metis of_char_of)
    moreover have "unat a < 256" "unat b < 256" using unsigned_less[of a] unsigned_less[of b] by simp_all
    ultimately show "a = b" by (simp add: word_unat_eq_iff)
  qed
  ultimately show ?thesis by (auto simp: text_lib_ok_def demo_text_lib_def inj_def)
qed

definition demo_template :: recovery_template where
  "demo_template =
     (let t = template_draft demo_json_lib demo_text_lib 5 (template_builder_new demo_federation) 2
      in t\<lparr>rt_checksum := compute_checksum demo_json_lib demo_text_lib t\<rparr>)"

lemma demo_template_built:
  "template_build demo_json_lib demo_text_lib 5 (template_builder_new demo_federation) = Ok demo_template"
  by (simp add: template_build_def demo_template_def Let_def total_signers_def template_builder_new_def demo_federation_def)

lemma demo_template_verifies: "template_verify demo_json_lib demo_text_lib demo_template = Ok ()"
  using built_verify[OF demo_template_built]
  by (simp add: template_builder_new_def demo_federation_def demo_text_lib_def)

section \<open>Properties\<close>

text \<open>A template that is built describes its federation, member by member and software by software, and
verifies: what \<open>verify\<close> says of it is only whether the federation's descriptor string parses.\<close>

theorem built_template_verifies:
  assumes "template_build J T now b = Ok t"
  shows "template_verify J T t =
      and_then (map_err InvalidDescriptor (parse_descriptor T (fd_descriptor_string (tb_federation b)))) (\<lambda>_. Ok ())
    \<and> rt_descriptor t = fd_descriptor_string (tb_federation b) \<and> rt_threshold t = fd_threshold (tb_federation b)
    \<and> unat (rt_total_signers t) = length (fd_signers (tb_federation b))
    \<and> map rs_id (rt_signer_info t) = map sg_id (fd_signers (tb_federation b))
    \<and> map ri_software (rt_instructions t) = tb_softwares b"
proof -
  note t = template_build_Ok[OF assms]
  have "rt_descriptor t = fd_descriptor_string (tb_federation b)" "rt_threshold t = fd_threshold (tb_federation b)"
    "map rs_id (rt_signer_info t) = map sg_id (fd_signers (tb_federation b))" "map ri_software (rt_instructions t) = tb_softwares b"
    unfolding t(2) by (simp_all add: template_draft_fields comp_def template_signer_info_def)
  moreover have "unat (rt_total_signers t) = length (fd_signers (tb_federation b))"
    using t(1) unfolding t(2) by (simp add: template_draft_fields total_signers_def unat_of_nat take_bit_nat_eq_self)
  ultimately show ?thesis using built_verify[OF assms] by simp
qed

theorem built_template_verifies_witness: "map rs_id (rt_signer_info demo_template) = [SignerId ''a'', SignerId ''b'']"
  using built_template_verifies[OF demo_template_built]
  by (simp add: template_builder_new_def demo_federation_def demo_signer_def)

text \<open>
C25: Templates are tamper evident: two templates that verify and carry the same checksum differ at most in
their time of generation, unless their two canonical texts are a collision of SHA-256.\<close>

theorem template_tamper_evident:
  assumes "json_lib_ok J" "text_lib_ok T" "template_verify J T t = Ok ()" "template_verify J T t' = Ok ()"
    and "rt_checksum t' = rt_checksum t"
  shows "t' = t\<lparr>rt_generated_at := rt_generated_at t'\<rparr> \<or>
    (write_canonical J (content_value T t) \<noteq> write_canonical J (content_value T t')
      \<and> sha256 T (write_canonical J (content_value T t)) = sha256 T (write_canonical J (content_value T t')))"
proof -
  have "compute_checksum J T t = compute_checksum J T t'"
    using assms(3-5) by (auto simp: template_verify_def Let_def split: if_splits)
  then have hash: "sha256 T (write_canonical J (content_value T t)) = sha256 T (write_canonical J (content_value T t'))"
    using assms(2) by (auto simp: compute_checksum_def Let_def text_lib_ok_def dest: injD)
  show ?thesis
  proof (cases "write_canonical J (content_value T t) = write_canonical J (content_value T t')")
    case True
    then have "t' = t\<lparr>rt_checksum := rt_checksum t', rt_generated_at := rt_generated_at t'\<rparr>"
      using canonical_iff[OF assms(1) json_wf_content json_wf_content] content_value_eq assms(2) by blast
    then have "t' = t\<lparr>rt_generated_at := rt_generated_at t'\<rparr>" using assms(5) by (metis recovery_template.surjective recovery_template.update_convs(9,10))
    then show ?thesis by blast
  qed (use hash in blast)
qed

theorem template_tamper_evident_witness:
  "\<exists>t' x. rt_checksum t' = rt_checksum demo_template \<and> rt_generated_at t' = 7 \<and> t' = demo_template\<lparr>rt_generated_at := x\<rparr>"
proof -
  let ?t = "demo_template\<lparr>rt_generated_at := 7\<rparr>"
  have "template_verify demo_json_lib demo_text_lib ?t = Ok ()"
    by (simp add: generated_at_unprotected demo_template_verifies)
  from template_tamper_evident[OF demo_json_ok demo_text_ok demo_template_verifies this]
  have "?t = demo_template\<lparr>rt_generated_at := rt_generated_at ?t\<rparr> \<or>
      write_canonical demo_json_lib (content_value demo_text_lib demo_template) \<noteq>
      write_canonical demo_json_lib (content_value demo_text_lib ?t)" by auto
  moreover have "content_value demo_text_lib ?t = content_value demo_text_lib demo_template" by (simp add: content_value_def)
  ultimately have "?t = demo_template\<lparr>rt_generated_at := rt_generated_at ?t\<rparr>" by simp
  then show ?thesis by (intro exI[of _ ?t]) auto
qed

end
