(* ===== verification/Snapshot.thy ===== *)
theory Snapshot
  imports Recovery Federated_Wallet "HOL-Library.Sublist"
begin

text \<open>
  \<open>src/snapshot.rs\<close>: snapshots of a federation and of a whole federated wallet, their
  canonical JSON, and what \<open>verify\<close> checks. A wallet snapshot is made from any implementation
  of the \<open>FederatedWallet\<close> trait: its lemmas are proved in the locale
  \<open>federated_wallet\<close> and reach \<open>BtcFederatedWallet\<close> by the interpretation
  \<open>btc\<close>. Every \<open>from_federation\<close> reads the clock, so the clock is a function of
  the number of the reading.
\<close>

section \<open>Federations\<close>

record signer_snapshot =
  ss_id :: signer_id
  ss_label :: "string option"
  ss_xpub :: string
  ss_fingerprint :: string
  ss_derivation_path :: string
  ss_signer_type :: signer_type
  ss_capabilities :: signer_capabilities

record federation_snapshot =
  fs_descriptor :: string
  fs_threshold :: u32
  fs_total_signers :: u32
  fs_network :: network_type
  fs_signers :: "signer_snapshot list"
  fs_created_at :: system_time

definition signer_snapshot_of :: "text_lib \<Rightarrow> signer \<Rightarrow> signer_snapshot" where
  "signer_snapshot_of T s =
     \<lparr>ss_id = sg_id s, ss_label = sg_label s, ss_xpub = xpub_str T (sg_xpub s),
      ss_fingerprint = fingerprint_str T (sg_fingerprint s), ss_derivation_path = path_str T (sg_derivation_path s),
      ss_signer_type = sg_signer_type s, ss_capabilities = sg_capabilities s\<rparr>"

definition snapshot_from_federation :: "text_lib \<Rightarrow> system_time \<Rightarrow> federation \<Rightarrow> (federation_snapshot, snapshot_error) result" where
  "snapshot_from_federation T now f =
     (let ss = map (signer_snapshot_of T) (fd_signers f) in
      and_then (if total_signers f < 2 ^ 32 then Ok (of_nat (total_signers f) :: u32) else Panic) (\<lambda>n.
      Ok \<lparr>fs_descriptor = fd_descriptor_string f, fs_threshold = fd_threshold f, fs_total_signers = n,
          fs_network = fd_network f, fs_signers = ss, fs_created_at = now_truncated_to_seconds now\<rparr>))"

fun transport_value :: "transport_type \<Rightarrow> json" where
  "transport_value Usb = JString ''usb''"
| "transport_value Ble = JString ''ble''"
| "transport_value Qr = JString ''qr''"
| "transport_value SdCard = JString ''sd_card''"
| "transport_value Nfc = JString ''nfc''"
| "transport_value Pkcs11 = JString ''pkcs11''"

definition capabilities_value :: "signer_capabilities \<Rightarrow> json" where
  "capabilities_value c = struct [''blind_signing'', ''taproot'', ''musig2'', ''transports'']
     [JBool (blind_signing c), JBool (taproot c), JBool (musig2 c), JArray (map transport_value (transports c))]"

definition signer_snapshot_value :: "signer_snapshot \<Rightarrow> json" where
  "signer_snapshot_value s = struct
     [''id'', ''label'', ''xpub'', ''fingerprint'', ''derivation_path'', ''signer_type'', ''capabilities'']
     [signer_id_value (ss_id s), option_value JString (ss_label s), JString (ss_xpub s), JString (ss_fingerprint s),
      JString (ss_derivation_path s), signer_type_value (ss_signer_type s), capabilities_value (ss_capabilities s)]"

definition snapshot_value :: "text_lib \<Rightarrow> federation_snapshot \<Rightarrow> json" where
  "snapshot_value T s = struct [''descriptor'', ''threshold'', ''total_signers'', ''network'', ''signers'', ''created_at'']
     [JString (fs_descriptor s), u32_value (fs_threshold s), u32_value (fs_total_signers s), network_value T (fs_network s),
      JArray (map signer_snapshot_value (fs_signers s)), timestamp_value (fs_created_at s)]"

definition snapshot_to_canonical_json :: "json_lib \<Rightarrow> text_lib \<Rightarrow> federation_snapshot \<Rightarrow> string" where
  "snapshot_to_canonical_json J T s = write_canonical J (snapshot_value T s)"

definition snapshot_to_pretty_json :: "json_lib \<Rightarrow> text_lib \<Rightarrow> federation_snapshot \<Rightarrow> string" where
  "snapshot_to_pretty_json J T s = to_string_pretty J (snapshot_value T s)"

definition snapshot_from_json :: "(string \<Rightarrow> (federation_snapshot, string) result) \<Rightarrow> string \<Rightarrow> (federation_snapshot, snapshot_error) result" where
  "snapshot_from_json parse s = map_err Se_Json (parse s)"

text \<open>\<open>str::contains\<close>\<close>

definition str_contains :: "string \<Rightarrow> string \<Rightarrow> bool" where
  "str_contains s part \<longleftrightarrow> sublist part s"

fun check_fingerprints :: "string \<Rightarrow> signer_snapshot list \<Rightarrow> (unit, snapshot_error) result" where
  "check_fingerprints d [] = Ok ()"
| "check_fingerprints d (s # ss) =
     (if \<not> str_contains d (ss_fingerprint s) then Err Se_DescriptorMismatch else check_fingerprints d ss)"

definition snapshot_verify :: "text_lib \<Rightarrow> federation_snapshot \<Rightarrow> (unit, snapshot_error) result" where
  "snapshot_verify T s =
     (if fs_threshold s = 0 \<or> fs_threshold s > fs_total_signers s
      then Err (InvalidThreshold (''threshold='' @ dec_u32 (fs_threshold s) @ '' total='' @ dec_u32 (fs_total_signers s)))
      else and_then (if length (fs_signers s) < 2 ^ 32 then Ok (of_nat (length (fs_signers s)) :: u32) else Panic) (\<lambda>signer_len.
      if signer_len \<noteq> fs_total_signers s
      then Err (InvalidThreshold (''declared total_signers='' @ dec_u32 (fs_total_signers s) @
             '' but signer set has length '' @ dec (length (fs_signers s))))
      else and_then (map_err Se_Parse (parse_descriptor T (fs_descriptor s))) (\<lambda>_.
      check_fingerprints (fs_descriptor s) (fs_signers s))))"

section \<open>Wallets\<close>

record wallet_snapshot =
  ws_federations :: "federation_snapshot list"
  ws_network :: network_type
  ws_created_at :: system_time

text \<open>\<open>from_wallet\<close>, of the trait methods \<open>federation_wallets()\<close> and
  \<open>network()\<close>.\<close>

definition snapshot_from_wallet :: "text_lib \<Rightarrow> (nat \<Rightarrow> system_time) \<Rightarrow> 'w federation_wallet list \<Rightarrow> network_type \<Rightarrow>
    (wallet_snapshot, snapshot_error) result" where
  "snapshot_from_wallet T clock fws net =
     and_then (result_map (\<lambda>(i, fw). snapshot_from_federation T (clock i) (fw_federation fw)) (List.enumerate 0 fws)) (\<lambda>fss.
     Ok \<lparr>ws_federations = fss, ws_network = net, ws_created_at = now_truncated_to_seconds (clock (length fws))\<rparr>)"

definition wallet_snapshot_value :: "text_lib \<Rightarrow> wallet_snapshot \<Rightarrow> json" where
  "wallet_snapshot_value T ws = struct [''federations'', ''network'', ''created_at'']
     [JArray (map (snapshot_value T) (ws_federations ws)), network_value T (ws_network ws), timestamp_value (ws_created_at ws)]"

definition wallet_snapshot_to_canonical_json :: "json_lib \<Rightarrow> text_lib \<Rightarrow> wallet_snapshot \<Rightarrow> string" where
  "wallet_snapshot_to_canonical_json J T ws = write_canonical J (wallet_snapshot_value T ws)"

definition wallet_snapshot_to_pretty_json :: "json_lib \<Rightarrow> text_lib \<Rightarrow> wallet_snapshot \<Rightarrow> string" where
  "wallet_snapshot_to_pretty_json J T ws = to_string_pretty J (wallet_snapshot_value T ws)"

definition wallet_snapshot_from_json :: "(string \<Rightarrow> (wallet_snapshot, string) result) \<Rightarrow> string \<Rightarrow> (wallet_snapshot, snapshot_error) result" where
  "wallet_snapshot_from_json parse s = map_err Se_Json (parse s)"

fun verify_federations :: "text_lib \<Rightarrow> network_type \<Rightarrow> nat \<Rightarrow> federation_snapshot list \<Rightarrow> (unit, snapshot_error) result" where
  "verify_federations T net i [] = Ok ()"
| "verify_federations T net i (fs # fss) =
     and_then (map_err (\<lambda>e. Se_Json (''federation['' @ dec i @ ''] verification failed: '' @ show_snapshot_error e))
       (snapshot_verify T fs)) (\<lambda>_.
     if fs_network fs \<noteq> net
     then Err (Se_Json (''federation['' @ dec i @ ''] network '' @ network_debug T (fs_network fs) @
            '' does not match wallet network '' @ network_debug T net))
     else verify_federations T net (i + 1) fss)"

definition wallet_snapshot_verify :: "text_lib \<Rightarrow> wallet_snapshot \<Rightarrow> (unit, snapshot_error) result" where
  "wallet_snapshot_verify T ws =
     (if ws_federations ws = []
      then Err (InvalidThreshold ''FederatedWalletSnapshot must contain at least one federation'')
      else verify_federations T (ws_network ws) 0 (ws_federations ws))"

section \<open>Serialization loses nothing\<close>

lemma faithful_transport: "faithful transport_value"
proof (rule faithfulI)
  show "sort_keys (transport_value a) = sort_keys (transport_value b) \<Longrightarrow> a = b" for a b
    by (cases a; cases b) simp_all
qed

lemma faithful_capabilities: "faithful capabilities_value"
proof (rule faithfulI)
  fix a b assume "sort_keys (capabilities_value a) = sort_keys (capabilities_value b)"
  then have "blind_signing a = blind_signing b" "taproot a = taproot b" "musig2 a = musig2 b"
    "sort_keys (JArray (map transport_value (transports a))) = sort_keys (JArray (map transport_value (transports b)))"
    unfolding capabilities_value_def by (simp_all add: sort_keys_struct)
  then show "a = b"
    unfolding faithful_eq[OF faithful_array[OF faithful_transport]] by simp
qed

lemma faithful_signer_snapshot: "faithful signer_snapshot_value"
proof (rule faithfulI)
  fix a b assume "sort_keys (signer_snapshot_value a) = sort_keys (signer_snapshot_value b)"
  then have "sort_keys (signer_id_value (ss_id a)) = sort_keys (signer_id_value (ss_id b))"
    "sort_keys (option_value JString (ss_label a)) = sort_keys (option_value JString (ss_label b))"
    "ss_xpub a = ss_xpub b" "ss_fingerprint a = ss_fingerprint b" "ss_derivation_path a = ss_derivation_path b"
    "sort_keys (signer_type_value (ss_signer_type a)) = sort_keys (signer_type_value (ss_signer_type b))"
    "sort_keys (capabilities_value (ss_capabilities a)) = sort_keys (capabilities_value (ss_capabilities b))"
    unfolding signer_snapshot_value_def by (simp_all add: sort_keys_struct)
  then show "a = b"
    by (simp add: faithful_eq[OF faithful_leaves(3)] faithful_eq[OF faithful_leaves(4)] faithful_eq[OF faithful_options(1)]
        faithful_eq[OF faithful_capabilities])
qed

lemma json_wf_transport: "json_wf (transport_value t)"
  by (cases t) simp_all

lemma json_wf_snapshot: "text_lib_ok T \<Longrightarrow> json_wf (snapshot_value T s)"
  by (simp add: snapshot_value_def signer_snapshot_value_def capabilities_value_def timestamp_value_def
      json_wf_struct json_wf_values json_wf_network json_wf_transport)

lemma timestamp_value_eq:
  "(10 ^ 9 :: int) dvd a \<Longrightarrow> 10 ^ 9 dvd b \<Longrightarrow> timestamp_value a = timestamp_value b \<longleftrightarrow> a = b"
  by (auto simp: timestamp_value_def dvd_def)

lemma snapshot_value_eq:
  assumes "text_lib_ok T" "10 ^ 9 dvd fs_created_at a" "10 ^ 9 dvd fs_created_at b"
  shows "sort_keys (snapshot_value T a) = sort_keys (snapshot_value T b) \<longleftrightarrow> a = b"
proof -
  have time: "sort_keys (timestamp_value x) = timestamp_value x" for x by (simp add: timestamp_value_def)
  have "sort_keys (snapshot_value T a) = sort_keys (snapshot_value T b) \<longleftrightarrow>
      fs_descriptor a = fs_descriptor b \<and> fs_threshold a = fs_threshold b \<and> fs_total_signers a = fs_total_signers b
    \<and> fs_network a = fs_network b \<and> fs_signers a = fs_signers b \<and> fs_created_at a = fs_created_at b"
    unfolding snapshot_value_def
    by (simp add: sort_keys_struct time timestamp_value_eq[OF assms(2,3)] faithful_eq[OF faithful_leaves(1)]
        faithful_eq[OF faithful_leaves(2)] faithful_eq[OF faithful_network[OF assms(1)]]
        faithful_eq[OF faithful_array[OF faithful_signer_snapshot]] del: sort_keys.simps)
  then show ?thesis by (cases a; cases b) auto
qed

section \<open>Verification\<close>

lemma check_fingerprints_Ok:
  "check_fingerprints d ss = Ok () \<longleftrightarrow> (\<forall>s \<in> set ss. str_contains d (ss_fingerprint s))"
  by (induction d ss rule: check_fingerprints.induct) auto

lemma snapshot_from_federation_Ok [result_simps]:
  "snapshot_from_federation T now f = Ok s \<longleftrightarrow> total_signers f < 2 ^ 32 \<and>
     s = \<lparr>fs_descriptor = fd_descriptor_string f, fs_threshold = fd_threshold f, fs_total_signers = of_nat (total_signers f),
          fs_network = fd_network f, fs_signers = map (signer_snapshot_of T) (fd_signers f),
          fs_created_at = now_truncated_to_seconds now\<rparr>"
  by (auto simp: snapshot_from_federation_def)

text \<open>The extended keys of a snapshot play no part in its verification.\<close>

lemma xpubs_unchecked: "snapshot_verify T (s\<lparr>fs_signers := map (\<lambda>x. x\<lparr>ss_xpub := u\<rparr>) (fs_signers s)\<rparr>) = snapshot_verify T s"
proof -
  have "check_fingerprints d (map (\<lambda>x. x\<lparr>ss_xpub := u\<rparr>) ss) = check_fingerprints d ss" for d ss
    by (induction ss) simp_all
  then show ?thesis by (simp add: snapshot_verify_def)
qed

text \<open>Of the snapshot of a federation in order, only its descriptor string remains to be checked.\<close>

lemma snapshot_of_federation:
  assumes "federation_ok L f"
  shows "\<exists>s. snapshot_from_federation T now f = Ok s \<and> fs_network s = fd_network f \<and>
    (snapshot_verify T s = Ok () \<longleftrightarrow> (\<exists>d. parse_descriptor T (fd_descriptor_string f) = Ok d)
      \<and> (\<forall>m \<in> set (fd_signers f). str_contains (fd_descriptor_string f) (fingerprint_str T (sg_fingerprint m))))"
proof -
  have ok: "0 < fd_threshold f" "unat (fd_threshold f) \<le> length (fd_signers f)" "length (fd_signers f) < 2 ^ 32"
    using assms by (simp_all add: federation_ok_def roster_ok_def)
  then have n: "unat (of_nat (length (fd_signers f)) :: u32) = length (fd_signers f)"
    by (simp add: unat_of_nat take_bit_nat_eq_self)
  let ?s = "\<lparr>fs_descriptor = fd_descriptor_string f, fs_threshold = fd_threshold f, fs_total_signers = of_nat (total_signers f),
          fs_network = fd_network f, fs_signers = map (signer_snapshot_of T) (fd_signers f),
          fs_created_at = now_truncated_to_seconds now\<rparr>"
  have "snapshot_verify T ?s = and_then (map_err Se_Parse (parse_descriptor T (fd_descriptor_string f))) (\<lambda>_.
      check_fingerprints (fd_descriptor_string f) (map (signer_snapshot_of T) (fd_signers f)))"
    using ok n by (auto simp: snapshot_verify_def total_signers_def word_less_nat_alt word_le_nat_alt)
  then have "snapshot_verify T ?s = Ok () \<longleftrightarrow> (\<exists>d. parse_descriptor T (fd_descriptor_string f) = Ok d)
      \<and> (\<forall>m \<in> set (fd_signers f). str_contains (fd_descriptor_string f) (fingerprint_str T (sg_fingerprint m)))"
    by (simp add: result_simps check_fingerprints_Ok signer_snapshot_of_def)
  then show ?thesis using ok(3) by (simp add: result_simps total_signers_def)
qed

lemma verify_federations_Ok:
  "verify_federations T net i fss = Ok () \<longleftrightarrow> (\<forall>fs \<in> set fss. snapshot_verify T fs = Ok () \<and> fs_network fs = net)"
  by (induction T net i fss rule: verify_federations.induct) (auto simp: result_simps)

text \<open>Any implementation of the trait: its snapshot has one federation snapshot per version, in order.\<close>

lemma snapshot_from_wallet_Ok:
  "snapshot_from_wallet T clock fws net = Ok ws \<longleftrightarrow>
     length (ws_federations ws) = length fws \<and> ws_network ws = net
   \<and> ws_created_at ws = now_truncated_to_seconds (clock (length fws))
   \<and> (\<forall>i < length fws. snapshot_from_federation T (clock i) (fw_federation (fws ! i)) = Ok (ws_federations ws ! i))"
proof -
  have "result_map (\<lambda>(i, fw). snapshot_from_federation T (clock i) (fw_federation fw)) (List.enumerate 0 fws) = Ok fss \<longleftrightarrow>
      length fss = length fws \<and> (\<forall>i < length fws. snapshot_from_federation T (clock i) (fw_federation (fws ! i)) = Ok (fss ! i))"
    for fss
    by (auto simp: result_map_Ok_iff list_all2_conv_all_nth nth_enumerate_eq)
  then show ?thesis
    by (cases ws) (auto simp: snapshot_from_wallet_def result_simps)
qed

context federated_wallet
begin

lemma snapshot_versions:
  assumes "sound x" "snapshot_from_wallet T clock (federation_wallets x) (network x) = Ok ws"
  shows "length (ws_federations ws) = federation_count x"
    and "at x i = Some fw \<Longrightarrow> snapshot_from_federation T (clock i) (fw_federation fw) = Ok (ws_federations ws ! i)"
    and "fs \<in> set (ws_federations ws) \<Longrightarrow> fs_network fs = ws_network ws"
proof -
  show "length (ws_federations ws) = federation_count x"
    using assms count_length by (simp add: snapshot_from_wallet_Ok)
  show "at x i = Some fw \<Longrightarrow> snapshot_from_federation T (clock i) (fw_federation fw) = Ok (ws_federations ws ! i)"
    using assms count_length[OF assms(1)] at_iff[of x i fw] by (auto simp: snapshot_from_wallet_Ok)
  assume "fs \<in> set (ws_federations ws)"
  then obtain i where "i < length (federation_wallets x)" "fs = ws_federations ws ! i"
    using assms(2) by (metis in_set_conv_nth snapshot_from_wallet_Ok)
  then show "fs_network fs = ws_network ws"
    using assms one_network[OF assms(1) nth_mem] by (auto simp: snapshot_from_wallet_Ok snapshot_from_federation_Ok)
qed

end

section \<open>Properties\<close>

text \<open>
C28: Snapshots of federations taken at whole seconds have byte-identical canonical JSON exactly when they are
equal: the canonical text loses nothing, and equal snapshots print alike.\<close>

theorem snapshot_json_faithful:
  assumes "json_lib_ok J" "text_lib_ok T" "10 ^ 9 dvd fs_created_at a" "10 ^ 9 dvd fs_created_at b"
  shows "snapshot_to_canonical_json J T a = snapshot_to_canonical_json J T b \<longleftrightarrow> a = b"
  unfolding snapshot_to_canonical_json_def
  using canonical_iff[OF assms(1) json_wf_snapshot[OF assms(2)] json_wf_snapshot[OF assms(2)]] snapshot_value_eq[OF assms(2-4)]
  by simp

definition demo_snapshot :: federation_snapshot where
  "demo_snapshot = \<lparr>fs_descriptor = ''wsh'', fs_threshold = 2, fs_total_signers = 2, fs_network = Bitcoin Regtest,
     fs_signers = map (signer_snapshot_of demo_text_lib) (fd_signers demo_federation), fs_created_at = 3 * 10 ^ 9\<rparr>"

theorem snapshot_json_faithful_witness:
  "snapshot_to_canonical_json demo_json_lib demo_text_lib demo_snapshot \<noteq>
   snapshot_to_canonical_json demo_json_lib demo_text_lib (demo_snapshot\<lparr>fs_threshold := 1\<rparr>)"
proof -
  have "demo_snapshot \<noteq> demo_snapshot\<lparr>fs_threshold := 1\<rparr>" by (simp add: demo_snapshot_def)
  then show ?thesis
    using snapshot_json_faithful[OF demo_json_ok demo_text_ok, of demo_snapshot "demo_snapshot\<lparr>fs_threshold := 1\<rparr>"]
    by (simp add: demo_snapshot_def)
qed

text \<open>
C26: The snapshot of a wallet whose federations are in order can always be taken, has one federation per version
and verifies exactly when every version's descriptor parses and contains the fingerprints of its
members.\<close>

theorem wallet_snapshot_verifies:
  assumes "wallet_ok bw" "\<forall>fw \<in> set (bw_wallets bw). federation_ok L (fw_federation fw)"
  shows "\<exists>ws. snapshot_from_wallet T clock (bw_wallets bw) (bw_network bw) = Ok ws
    \<and> length (ws_federations ws) = bw_federation_count bw
    \<and> (wallet_snapshot_verify T ws = Ok () \<longleftrightarrow> (\<forall>fw \<in> set (bw_wallets bw).
         (\<exists>d. parse_descriptor T (fd_descriptor_string (fw_federation fw)) = Ok d) \<and>
         (\<forall>m \<in> set (fd_signers (fw_federation fw)).
            str_contains (fd_descriptor_string (fw_federation fw)) (fingerprint_str T (sg_fingerprint m)))))"
proof -
  let ?good = "\<lambda>f. (\<exists>d. parse_descriptor T (fd_descriptor_string f) = Ok d) \<and>
      (\<forall>m \<in> set (fd_signers f). str_contains (fd_descriptor_string f) (fingerprint_str T (sg_fingerprint m)))"
  let ?n = "length (bw_wallets bw)"
  have "\<exists>s. snapshot_from_federation T (clock i) (fw_federation (bw_wallets bw ! i)) = Ok s
      \<and> (snapshot_verify T s = Ok () \<longleftrightarrow> ?good (fw_federation (bw_wallets bw ! i)))" if "i < ?n" for i
    using snapshot_of_federation[of L "fw_federation (bw_wallets bw ! i)" T "clock i"] assms(2) that by (meson nth_mem)
  then obtain snap where snap: "\<And>i. i < ?n \<Longrightarrow> snapshot_from_federation T (clock i) (fw_federation (bw_wallets bw ! i)) = Ok (snap i)"
      "\<And>i. i < ?n \<Longrightarrow> snapshot_verify T (snap i) = Ok () \<longleftrightarrow> ?good (fw_federation (bw_wallets bw ! i))"
    by metis
  let ?ws = "\<lparr>ws_federations = map snap [0..<?n], ws_network = bw_network bw,
      ws_created_at = now_truncated_to_seconds (clock ?n)\<rparr>"
  have ws: "snapshot_from_wallet T clock (bw_wallets bw) (bw_network bw) = Ok ?ws"
    using snap(1) by (simp add: snapshot_from_wallet_Ok)
  have "?n \<noteq> 0" using assms(1) by (simp add: wallet_ok_def)
  then have "wallet_snapshot_verify T ?ws = Ok () \<longleftrightarrow> (\<forall>fs \<in> set (ws_federations ?ws). snapshot_verify T fs = Ok ())"
    using btc.snapshot_versions(3)[OF assms(1) ws] by (auto simp: wallet_snapshot_verify_def verify_federations_Ok)
  also have "\<dots> \<longleftrightarrow> (\<forall>i < ?n. ?good (fw_federation (bw_wallets bw ! i)))" using snap(2) by auto
  also have "\<dots> \<longleftrightarrow> (\<forall>fw \<in> set (bw_wallets bw). ?good (fw_federation fw))" by (simp add: all_set_conv_all_nth)
  finally show ?thesis using ws btc.snapshot_versions(1)[OF assms(1) ws] by blast
qed

theorem wallet_snapshot_verifies_witness:
  "\<exists>ws. snapshot_from_wallet (demo_text_lib\<lparr>fingerprint_str := \<lambda>_. ''w''\<rparr>) (\<lambda>_. 7) (bw_wallets demo_wallet) (bw_network demo_wallet) = Ok ws
    \<and> length (ws_federations ws) = 2 \<and> wallet_snapshot_verify (demo_text_lib\<lparr>fingerprint_str := \<lambda>_. ''w''\<rparr>) ws = Ok ()"
proof -
  let ?T = "demo_text_lib\<lparr>fingerprint_str := \<lambda>_. ''w''\<rparr>"
  have feds: "\<forall>fw \<in> set (bw_wallets demo_wallet). federation_ok demo_lib (fw_federation fw)"
    using demo_federation_ok by (simp add: demo_wallet_def federation_ok_def)
  have good: "\<forall>fw \<in> set (bw_wallets demo_wallet). (\<exists>d. parse_descriptor ?T (fd_descriptor_string (fw_federation fw)) = Ok d) \<and>
      (\<forall>m \<in> set (fd_signers (fw_federation fw)).
         str_contains (fd_descriptor_string (fw_federation fw)) (fingerprint_str ?T (sg_fingerprint m)))"
    by (simp add: demo_wallet_def demo_federation_def demo_text_lib_def str_contains_def sublist_Cons_right)
  have "bw_federation_count demo_wallet = 2" by (simp add: bw_federation_count_def demo_wallet_def)
  with wallet_snapshot_verifies[OF demo_wallet_ok feds, of ?T "\<lambda>_. 7"] good show ?thesis by auto
qed

end
