(* ===== verification/Federation_Build.thy ===== *)
theory Federation_Build
  imports Snapshot
begin

text \<open>
  \<open>src/federation_build.rs\<close>: the artifacts of a federation version, its multipath descriptor
  string and its snapshot JSON, and the BIP-388 policy of a taproot federation. The system's random
  generator is the argument \<open>rng\<close>; the two readings of the clock are \<open>now\<close> (of the
  federation) and \<open>now'\<close> (of the snapshot).
\<close>

record built_federation =
  bf_descriptor_string :: string
  bf_snapshot_json :: json

text \<open>The descriptor of a builder fed with all signers, and the artifacts made from it.\<close>

definition build_with_signers :: "ms_lib \<Rightarrow> descriptor_builder \<Rightarrow> signer list \<Rightarrow> (descriptor, emvault_error) result" where
  "build_with_signers L b ss =
     and_then (map_err Ev_Descriptor (add_signers b ss)) (\<lambda>b. map_err Ev_Descriptor (build L b))"

definition snapshot_json_of :: "json_lib \<Rightarrow> text_lib \<Rightarrow> system_time \<Rightarrow> federation \<Rightarrow> (json, emvault_error) result" where
  "snapshot_json_of J T now f =
     and_then (map_err Ev_Snapshot (snapshot_from_federation T now f)) (\<lambda>snap.
     map_err (\<lambda>e. Ev_Snapshot (Se_Json e)) (from_json_str J (snapshot_to_canonical_json J T snap)))"

definition build_federation_with :: "ms_lib \<Rightarrow> json_lib \<Rightarrow> text_lib \<Rightarrow> system_time \<Rightarrow> system_time \<Rightarrow> signer list \<Rightarrow> u32 \<Rightarrow>
    network_type \<Rightarrow> script_type \<Rightarrow> (built_federation, emvault_error) result" where
  "build_federation_with L J T now now' ss threshold net stype =
     (let builder = builder_script_type stype (builder_key_mode Ranged (builder_new threshold net)) in
      and_then (build_with_signers L builder ss) (\<lambda>d.
      let s = to_multipath_string L d in
      and_then (map_err Ev_Federation (federation_new L now threshold ss net)) (\<lambda>f.
      and_then (snapshot_json_of J T now' f) (\<lambda>j.
      Ok \<lparr>bf_descriptor_string = s, bf_snapshot_json = j\<rparr>))))"

definition build_federation :: "ms_lib \<Rightarrow> json_lib \<Rightarrow> text_lib \<Rightarrow> system_time \<Rightarrow> system_time \<Rightarrow> signer list \<Rightarrow> u32 \<Rightarrow>
    network_type \<Rightarrow> (built_federation, emvault_error) result" where
  "build_federation L J T now now' ss threshold net = build_federation_with L J T now now' ss threshold net Script_Wsh"

datatype nums_chaincode = Random | Custom word256

fun resolve_chaincode :: "(word256, string) result \<Rightarrow> nums_chaincode \<Rightarrow> (word256, emvault_error) result" where
  "resolve_chaincode rng (Custom cc) = Ok cc"
| "resolve_chaincode rng Random = map_err (\<lambda>e. Ev_Descriptor (De_Parse (''nums chaincode rng failed: '' @ e))) rng"

definition taproot_builder :: "u32 \<Rightarrow> network_type \<Rightarrow> word256 \<Rightarrow> descriptor_builder" where
  "taproot_builder threshold net cc =
     builder_taproot_internal_key (NumsXpub cc) (builder_script_type Script_Tr
       (builder_key_mode Ranged (builder_new threshold net)))"

definition build_federation_taproot_with :: "ms_lib \<Rightarrow> json_lib \<Rightarrow> text_lib \<Rightarrow> (word256, string) result \<Rightarrow> system_time \<Rightarrow>
    system_time \<Rightarrow> signer list \<Rightarrow> u32 \<Rightarrow> network_type \<Rightarrow> nums_chaincode \<Rightarrow>
    (built_federation \<times> word256, emvault_error) result" where
  "build_federation_taproot_with L J T rng now now' ss threshold net chaincode =
     and_then (resolve_chaincode rng chaincode) (\<lambda>resolved.
     let builder = taproot_builder threshold net resolved in
     and_then (build_with_signers L builder ss) (\<lambda>d.
     let s = to_multipath_string L d in
     and_then (map_err Ev_Federation (federation_new L now threshold ss net)) (\<lambda>f.
     and_then (snapshot_json_of J T now' f) (\<lambda>j.
     Ok (\<lparr>bf_descriptor_string = s, bf_snapshot_json = j\<rparr>, resolved)))))"

definition federation_bip388_policy :: "ms_lib \<Rightarrow> signer list \<Rightarrow> u32 \<Rightarrow> network_type \<Rightarrow> word256 \<Rightarrow>
    (bip388_taproot_policy, emvault_error) result" where
  "federation_bip388_policy L ss threshold net cc =
     and_then (map_err Ev_Descriptor (add_signers (taproot_builder threshold net cc) ss)) (\<lambda>b.
     map_err Ev_Descriptor (bip388_taproot_policy_of L b))"

section \<open>Lemmas\<close>

lemma build_with_signers_Ok [result_simps]:
  "build_with_signers L b ss = Ok d \<longleftrightarrow> (\<exists>b'. add_signers b ss = Ok b' \<and> build L b' = Ok d)"
  by (simp add: build_with_signers_def result_simps)

lemma snapshot_json_Ok [result_simps]:
  "snapshot_json_of J T now f = Ok j \<longleftrightarrow> (\<exists>snap. snapshot_from_federation T now f = Ok snap
     \<and> from_json_str J (snapshot_to_canonical_json J T snap) = Ok j)"
  by (simp only: snapshot_json_of_def and_then_Ok_iff map_err_iff)

lemma ranged_build:
  "build_with_signers L (builder_script_type st (builder_key_mode Ranged (builder_new m net))) ss = Ok d \<longleftrightarrow>
   build_federation_descriptor L m ss net Ranged st = Ok d"
  by (simp add: build_federation_descriptor_def result_simps Let_def)

lemma build_federation_Ok:
  "build_federation_with L J T now now' ss m net st = Ok bf \<longleftrightarrow>
     (\<exists>d f. build_federation_descriptor L m ss net Ranged st = Ok d \<and> with_config L now m ss net Fixed Script_Wsh = Ok f
      \<and> snapshot_json_of J T now' f = Ok (bf_snapshot_json bf) \<and> bf_descriptor_string bf = to_multipath_string L d)"
  by (cases bf) (auto simp: build_federation_with_def Let_def and_then_Ok_iff map_err_iff ranged_build federation_new_def with_key_mode_def)

lemma taproot_Ok:
  "build_federation_taproot_with L J T rng now now' ss m net cc = Ok (bf, resolved) \<longleftrightarrow>
     resolve_chaincode rng cc = Ok resolved
   \<and> (\<exists>d f. build_with_signers L (taproot_builder m net resolved) ss = Ok d \<and> with_config L now m ss net Fixed Script_Wsh = Ok f
      \<and> snapshot_json_of J T now' f = Ok (bf_snapshot_json bf) \<and> bf_descriptor_string bf = to_multipath_string L d)"
  by (cases bf) (auto simp: build_federation_taproot_with_def Let_def and_then_Ok_iff map_err_iff federation_new_def with_key_mode_def)

section \<open>Two signers\<close>

definition demo_signers :: "signer list" where
  "demo_signers = [demo_signer ''a'' 9, demo_signer ''b'' 1]"

lemma demo_config: "with_config demo_lib 0 2 demo_signers (Bitcoin Regtest) Fixed Script_Wsh = Ok demo_federation"
  using demo_federation_ok unfolding with_config_Ok by (simp add: demo_federation_def demo_signers_def)

lemma demo_snapshot_json: "snapshot_json_of demo_json_lib demo_text_lib 0 demo_federation = Ok JNull"
  by (simp add: snapshot_json_Ok snapshot_from_federation_Ok total_signers_def demo_federation_def)
    (simp add: demo_json_lib_def)

lemma demo_taproot_signers: "add_signers (taproot_builder 2 (Bitcoin Regtest) 5) demo_signers = Ok demo_full_builder"
  by (simp add: demo_signers_def demo_full_builder_def demo_lib_eval taproot_builder_def builder_add_signer_def
      signer_entry_def)

definition demo_tr_descriptor :: descriptor where
  "demo_tr_descriptor = Tr (tr_string (dec (unat NUMS_X) @ ''/0/*'') 2 [dec 1 @ ''/0/*'', dec 9 @ ''/0/*''])"

lemma demo_taproot_federation:
  "build_federation_taproot_with demo_lib demo_json_lib demo_text_lib (Err ''none'') 0 0 demo_signers 2 (Bitcoin Regtest) (Custom 5)
   = Ok (\<lparr>bf_descriptor_string = to_multipath_string demo_lib demo_tr_descriptor, bf_snapshot_json = JNull\<rparr>, 5)"
  unfolding taproot_Ok build_with_signers_Ok
  using demo_taproot_signers demo_full_build demo_config demo_snapshot_json by (auto simp: demo_tr_descriptor_def)

lemma demo_wsh_federation:
  "\<exists>bf. build_federation_with demo_lib demo_json_lib demo_text_lib 0 0 demo_signers 2 (Bitcoin Regtest) Script_Wsh = Ok bf"
proof -
  obtain d where "build_federation_descriptor demo_lib 2 demo_signers (Bitcoin Regtest) Ranged Script_Wsh = Ok d"
    by (simp add: federation_eval demo_signers_def)
  then have "build_federation_with demo_lib demo_json_lib demo_text_lib 0 0 demo_signers 2 (Bitcoin Regtest) Script_Wsh
      = Ok \<lparr>bf_descriptor_string = to_multipath_string demo_lib d, bf_snapshot_json = JNull\<rparr>"
    unfolding build_federation_Ok using demo_config demo_snapshot_json by auto
  then show ?thesis by blast
qed

section \<open>Properties\<close>

text \<open>
C30: The snapshot JSON of a built federation is that of the fixed-key wsh federation over the same signers,
whatever script type was asked for, while the descriptor string returned beside it is the multipath
string of the ranged descriptor of that script type: the two artifacts describe different addresses.\<close>

theorem built_snapshot_is_fixed_wsh:
  assumes "build_federation_with L J T now now' ss m net st = Ok bf"
  shows "\<exists>d f snap. build_federation_descriptor L m ss net Ranged st = Ok d \<and> bf_descriptor_string bf = to_multipath_string L d
    \<and> build_federation_descriptor L m ss net Fixed Script_Wsh = Ok f
    \<and> fs_descriptor snap = desc_to_string L f \<and> map ss_id (fs_signers snap) = map sg_id ss
    \<and> fs_threshold snap = m \<and> fs_network snap = net
    \<and> from_json_str J (snapshot_to_canonical_json J T snap) = Ok (bf_snapshot_json bf)"
proof -
  obtain d f where d: "build_federation_descriptor L m ss net Ranged st = Ok d" "bf_descriptor_string bf = to_multipath_string L d"
      and f: "with_config L now m ss net Fixed Script_Wsh = Ok f" and j: "snapshot_json_of J T now' f = Ok (bf_snapshot_json bf)"
    using assms unfolding build_federation_Ok by blast
  obtain snap where snap: "snapshot_from_federation T now' f = Ok snap"
      "from_json_str J (snapshot_to_canonical_json J T snap) = Ok (bf_snapshot_json bf)"
    using j unfolding snapshot_json_Ok by blast
  have btc: "is_bitcoin net"
    using d(1) by (auto simp: build_federation_descriptor_def result_simps Let_def build_Ok is_bitcoin_iff add_signers_fresh
        builder_script_type_def builder_key_mode_def builder_new_def)
  then obtain g where "build_federation_descriptor L m ss net Fixed Script_Wsh = Ok g" "fd_descriptor_string f = desc_to_string L g"
    using f by (auto simp: with_config_Ok federation_ok_def)
  moreover have "map ss_id (fs_signers snap) = map sg_id ss" "fs_threshold snap = m" "fs_network snap = net"
      "fs_descriptor snap = fd_descriptor_string f"
    using snap(1) f by (auto simp: snapshot_from_federation_Ok with_config_Ok signer_snapshot_of_def)
  ultimately show ?thesis using d snap(2) by (intro exI[of _ d] exI[of _ g] exI[of _ snap]) simp
qed

theorem built_snapshot_is_fixed_wsh_witness:
  "\<exists>f. build_federation_descriptor demo_lib 2 demo_signers (Bitcoin Regtest) Fixed Script_Wsh = Ok f"
  using demo_wsh_federation built_snapshot_is_fixed_wsh by blast

text \<open>
C29: The BIP-388 policy computed from the same signers, threshold, network and chain code as a taproot
federation describes its descriptor: its template has one placeholder per key, and filling the
placeholders with the keys of the list gives the text of the descriptor whose multipath string was
returned.\<close>

theorem policy_matches_federation:
  assumes "zero_index_ok L" "ranged_display L"
    and "build_federation_taproot_with L J T rng now now' ss m net cc = Ok (bf, resolved)"
    and "federation_bip388_policy L ss m net resolved = Ok pol"
  shows "bp_template pol = tr_string ''@0/**'' (unat m) (map (\<lambda>i. ''@'' @ dec i @ ''/**'') [1..<length (bp_keys pol)])
    \<and> length (bp_keys pol) = Suc (length ss)
    \<and> (\<exists>d. desc_from_str L (tr_string (hd (bp_keys pol) @ ''/0/*'') (unat m) (map (\<lambda>k. k @ ''/0/*'') (tl (bp_keys pol)))) = Ok d
        \<and> bf_descriptor_string bf = to_multipath_string L d)"
proof -
  let ?b = "taproot_builder m net resolved"
  obtain b d where b: "add_signers ?b ss = Ok b" "build L b = Ok d" "bf_descriptor_string bf = to_multipath_string L d"
    using assms(3) unfolding taproot_Ok build_with_signers_Ok by blast
  have pol: "bip388_taproot_policy_of L b = Ok pol"
    using assms(4) b(1) by (simp add: federation_bip388_policy_def result_simps)
  have "db_entries ?b = []"
    by (simp add: taproot_builder_def builder_taproot_internal_key_def builder_script_type_def builder_key_mode_def builder_new_def)
  then have entries: "distinct (map sg_id ss)" "b = ?b\<lparr>db_entries := bt.insert_all (map signer_entry ss) []\<rparr>"
    using b(1) add_signers_fresh by blast+
  then have "db_mode b = Ranged" "db_threshold b = m"
    by (simp_all add: taproot_builder_def builder_taproot_internal_key_def builder_script_type_def builder_key_mode_def builder_new_def)
  moreover have "length (db_entries b) = length ss"
    using entries length_entries[of "map signer_entry ss"] by (simp add: comp_def)
  ultimately show ?thesis
    using bip388_expansion[OF assms(1,2) _ pol b(2)] b(3) by auto
qed

theorem policy_matches_federation_witness:
  "bp_template demo_policy = tr_string ''@0/**'' 2 (map (\<lambda>i. ''@'' @ dec i @ ''/**'') [1..<length (bp_keys demo_policy)])"
proof -
  have "federation_bip388_policy demo_lib demo_signers 2 (Bitcoin Regtest) 5 = Ok demo_policy"
    by (simp add: federation_bip388_policy_def demo_taproot_signers demo_policy_of)
  from policy_matches_federation[OF demo_zero_index demo_ranged_display demo_taproot_federation this] show ?thesis by simp
qed

end
