(* ===== verification/Integrity.thy ===== *)
theory Integrity
  imports Federation_Spec Verify
begin

text \<open>
  The descriptor checks of \<open>src/verify.rs\<close> on the descriptors that \<open>src/federation.rs\<close>
  builds: a signer who compares the \<open>wsh\<close> descriptor of a proposed federation with the one it
  knows notices every change of the threshold or of a key, and nothing else.
\<close>

text \<open>\<open>Descriptor::new_wsh_sortedmulti\<close> makes the descriptor of its arguments or fails.\<close>

definition sortedmulti_ok :: "ms_lib \<Rightarrow> bool" where
  "sortedmulti_ok L \<longleftrightarrow> (\<forall>k ks d. new_wsh_sortedmulti L k ks = Ok d \<longrightarrow> d = Wsh (SortedMulti k ks))"

text \<open>How a signer's key prints in a descriptor of the given mode.\<close>

definition key_string :: "ms_lib \<Rightarrow> key_mode \<Rightarrow> signer \<Rightarrow> string" where
  "key_string L mode s = dpk_to_string L (wsh_key mode (snd (signer_entry s)))"

lemma wsh_federation_descriptor:
  assumes "zero_index_ok L" "sortedmulti_ok L" "federation_ok L f"
    and "is_bitcoin (fd_network f)" "fd_script_type f = Script_Wsh"
  obtains ks where "fd_descriptor f = Some (Wsh (SortedMulti (unat (fd_threshold f)) ks))"
    and "dpk_to_string L ` set ks = key_string L (fd_key_mode f) ` set (fd_signers f)"
    and "inj_on (key_string L (fd_key_mode f)) (set (fd_signers f))"
proof -
  let ?b = "builder_script_type Script_Wsh (builder_key_mode (fd_key_mode f) (builder_new (fd_threshold f) (fd_network f)))"
  let ?es = "bt.insert_all (map signer_entry (fd_signers f)) []"
  let ?key = "\<lambda>(_, e). wsh_key (fd_key_mode f) e"
  from assms(3-5) obtain d where d: "fd_descriptor f = Some d"
    and "build_federation_descriptor L (fd_threshold f) (fd_signers f) (fd_network f) (fd_key_mode f) Script_Wsh = Ok d"
    by (auto simp: federation_ok_def)
  moreover have "db_entries ?b = []"
    by (simp add: builder_script_type_def builder_key_mode_def builder_new_def)
  ultimately have b: "distinct (map sg_id (fd_signers f))" "build L (?b\<lparr>db_entries := ?es\<rparr>) = Ok d"
    by (auto simp: build_federation_descriptor_def Let_def result_simps add_signers_fresh)
  then have "build_wsh L (?b\<lparr>db_entries := ?es\<rparr>) = Ok d"
    by (auto simp add: build_Ok builder_script_type_def builder_key_mode_def builder_new_def)
  then have w: "distinct (map (\<lambda>p. dpk_to_string L (?key p)) ?es)"
      "new_wsh_sortedmulti L (unat (fd_threshold f)) (map ?key ?es) = Ok d"
    unfolding build_wsh_Ok[OF assms(1)]
    by (simp_all add: builder_script_type_def builder_key_mode_def builder_new_def case_prod_beta')
  have set: "set ?es = signer_entry ` set (fd_signers f)"
    using set_entries[of "map signer_entry (fd_signers f)"] b(1) by (simp add: comp_def)
  show thesis
  proof (rule that)
    show "fd_descriptor f = Some (Wsh (SortedMulti (unat (fd_threshold f)) (map ?key ?es)))"
      using d w(2) assms(2) by (simp add: sortedmulti_ok_def)
    show "dpk_to_string L ` set (map ?key ?es) = key_string L (fd_key_mode f) ` set (fd_signers f)"
      by (simp add: set image_image key_string_def case_prod_beta')
    have "inj_on (\<lambda>p. dpk_to_string L (?key p)) (signer_entry ` set (fd_signers f))"
      using w(1) by (simp add: distinct_map set)
    moreover have "inj_on signer_entry (set (fd_signers f))"
      using b(1) by (auto simp: distinct_map inj_on_def signer_entry_def)
    ultimately have "inj_on ((\<lambda>p. dpk_to_string L (?key p)) \<circ> signer_entry) (set (fd_signers f))"
      by (intro comp_inj_on)
    moreover have "(\<lambda>p. dpk_to_string L (?key p)) \<circ> signer_entry = key_string L (fd_key_mode f)"
      by (rule ext) (simp add: key_string_def case_prod_beta')
    ultimately show "inj_on (key_string L (fd_key_mode f)) (set (fd_signers f))" by simp
  qed
qed

lemma ensure_match_sortedmulti:
  "ensure_descriptors_match L (Wsh (SortedMulti k ks)) (Wsh (SortedMulti k' ks')) = Ok () \<longleftrightarrow>
     k = k' \<and> dpk_to_string L ` set ks = dpk_to_string L ` set ks'"
  "ensure_descriptors_match L (Wsh (SortedMulti k ks)) (Wsh (SortedMulti k' ks')) \<noteq> Ok () \<Longrightarrow>
     \<exists>msg. ensure_descriptors_match L (Wsh (SortedMulti k ks)) (Wsh (SortedMulti k' ks')) = Err (PolicyMismatch msg)"
  by (auto simp: ensure_descriptors_match_def split: if_splits)

lemma federations_match:
  assumes "zero_index_ok L" "sortedmulti_ok L" "federation_ok L f" "federation_ok L g"
    and "is_bitcoin (fd_network f)" "is_bitcoin (fd_network g)"
    and "fd_script_type f = Script_Wsh" "fd_script_type g = Script_Wsh"
    and "fd_descriptor f = Some d" "fd_descriptor g = Some e"
  shows "ensure_descriptors_match L d e = Ok () \<longleftrightarrow> fd_threshold f = fd_threshold g
      \<and> key_string L (fd_key_mode f) ` set (fd_signers f) = key_string L (fd_key_mode g) ` set (fd_signers g)"
    and "ensure_descriptors_match L d e \<noteq> Ok () \<Longrightarrow> \<exists>msg. ensure_descriptors_match L d e = Err (PolicyMismatch msg)"
proof -
  obtain ks where ks: "d = Wsh (SortedMulti (unat (fd_threshold f)) ks)"
      "dpk_to_string L ` set ks = key_string L (fd_key_mode f) ` set (fd_signers f)"
    using wsh_federation_descriptor[OF assms(1-3,5,7)] assms(9) by force
  obtain ks' where ks': "e = Wsh (SortedMulti (unat (fd_threshold g)) ks')"
      "dpk_to_string L ` set ks' = key_string L (fd_key_mode g) ` set (fd_signers g)"
    using wsh_federation_descriptor[OF assms(1,2,4,6,8)] assms(10) by force
  show "ensure_descriptors_match L d e = Ok () \<longleftrightarrow> fd_threshold f = fd_threshold g
      \<and> key_string L (fd_key_mode f) ` set (fd_signers f) = key_string L (fd_key_mode g) ` set (fd_signers g)"
    by (simp add: ks ks' ensure_match_sortedmulti(1) word_unat_eq_iff)
  show "ensure_descriptors_match L d e \<noteq> Ok () \<Longrightarrow> \<exists>msg. ensure_descriptors_match L d e = Err (PolicyMismatch msg)"
    unfolding ks ks' by (rule ensure_match_sortedmulti(2))
qed

text \<open>The mutations that change neither the threshold nor a key.\<close>

fun keeps_policy :: "ms_lib \<Rightarrow> federation \<Rightarrow> mutation \<Rightarrow> bool" where
  "keeps_policy L f (Rotate old new) \<longleftrightarrow>
     (\<exists>s \<in> set (fd_signers f). sg_id s = old \<and> key_string L (fd_key_mode f) s = key_string L (fd_key_mode f) new)"
| "keeps_policy L f (Join new) \<longleftrightarrow> False"
| "keeps_policy L f (Leave sid) \<longleftrightarrow> False"
| "keeps_policy L f (Requorum k) \<longleftrightarrow> k = fd_threshold f"

lemma image_swap_eq:
  assumes "inj_on h A" "inj_on h (insert b (A - {a}))" "a \<in> A" "b \<in> A \<longrightarrow> b = a"
  shows "h ` insert b (A - {a}) = h ` A \<longleftrightarrow> h b = h a"
proof
  assume "h b = h a"
  with assms(3) show "h ` insert b (A - {a}) = h ` A" by auto
next
  assume eq: "h ` insert b (A - {a}) = h ` A"
  then have "h a \<in> h ` insert b (A - {a})" using assms(3) by blast
  then show "h b = h a" using assms(1,3) by (auto dest: inj_onD)
qed

lemma mutation_keys:
  assumes "distinct (map sg_id (fd_signers f))" "ids_fit f m"
    and "inj_on h (set (fd_signers f))" "inj_on h (set (new_signers f m))"
    and "\<And>s t. sg_id s = sg_id t \<Longrightarrow> s \<in> set (fd_signers f) \<Longrightarrow> t \<in> set (fd_signers f) \<Longrightarrow> s = t"
  shows "h ` set (fd_signers f) = h ` set (new_signers f m) \<longleftrightarrow>
    (case m of Rotate old new \<Rightarrow> \<exists>s \<in> set (fd_signers f). sg_id s = old \<and> h s = h new
     | Join new \<Rightarrow> False | Leave sid \<Rightarrow> False | Requorum k \<Rightarrow> True)"
proof (cases m)
  case (Rotate old new)
  with assms(2) obtain a where a: "a \<in> set (fd_signers f)" "sg_id a = old" by auto
  have swap: "set (new_signers f m) = insert new (set (fd_signers f) - {a})"
    using a assms(5) Rotate by (auto simp: image_iff)
  have "new \<in> set (fd_signers f) \<longrightarrow> new = a"
    using assms(2,5) a Rotate by auto
  from image_swap_eq[OF assms(3) assms(4)[unfolded swap] a(1) this]
  have "h ` set (fd_signers f) = h ` set (new_signers f m) \<longleftrightarrow> h new = h a" unfolding swap by auto
  moreover have "(\<exists>s \<in> set (fd_signers f). sg_id s = old \<and> h s = h new) \<longleftrightarrow> h new = h a"
    using a assms(5) by metis
  ultimately show ?thesis by (simp add: Rotate)
next
  case (Join new)
  have "new \<notin> set (fd_signers f)" using assms(2) Join by auto
  with assms(4) have "h new \<notin> h ` set (fd_signers f)" by (auto simp: Join inj_on_def)
  then show ?thesis by (auto simp: Join)
next
  case (Leave sid)
  then obtain a where a: "a \<in> set (fd_signers f)" "sg_id a = sid" using assms(2) by auto
  then have "h a \<notin> h ` set (new_signers f m)" using assms(3) by (auto simp: Leave inj_on_def)
  then show ?thesis using a by (auto simp: Leave)
qed simp

section \<open>Properties\<close>

text \<open>
C3: Whatever a mutation does to a \<open>wsh\<close> federation, comparing the descriptors before and after notices it:
the comparison succeeds exactly when the threshold is set to its old value or a signer is replaced
by one with the same key, and otherwise it is refused as a policy mismatch. An added, removed or
substituted key, or a lowered threshold, never goes unnoticed.\<close>

theorem mutation_noticed:
  assumes "zero_index_ok L" "sortedmulti_ok L" "federation_ok L f" "is_bitcoin (fd_network f)"
    and "fd_script_type f = Script_Wsh" "mutate L now f m = Ok f'"
    and "fd_descriptor f = Some d" "fd_descriptor f' = Some d'"
  shows "(ensure_descriptors_match L d d' = Ok () \<longleftrightarrow> keeps_policy L f m)
    \<and> (\<not> keeps_policy L f m \<longrightarrow> (\<exists>msg. ensure_descriptors_match L d d' = Err (PolicyMismatch msg)))"
proof -
  from assms(6) have fit: "ids_fit f m" and g: "federation_ok L f'" "fd_threshold f' = new_threshold f m"
      "fd_signers f' = new_signers f m" "fd_network f' = fd_network f" "fd_key_mode f' = fd_key_mode f"
      "fd_script_type f' = fd_script_type f"
    by (auto simp: mutate_Ok with_config_Ok)
  let ?h = "key_string L (fd_key_mode f)"
  have "inj_on ?h (set (fd_signers f))" "inj_on ?h (set (new_signers f m))"
    using wsh_federation_descriptor[OF assms(1-5)] wsh_federation_descriptor[OF assms(1,2) g(1)] assms(4,5) g
    by metis+
  moreover note ids = federation_ok_ids[OF assms(3)]
  ultimately have "?h ` set (fd_signers f) = ?h ` set (new_signers f m) \<longleftrightarrow>
    (case m of Rotate old new \<Rightarrow> \<exists>s \<in> set (fd_signers f). sg_id s = old \<and> ?h s = ?h new
     | Join new \<Rightarrow> False | Leave sid \<Rightarrow> False | Requorum k \<Rightarrow> True)"
    using fit by (intro mutation_keys) (auto simp: distinct_map inj_on_def)
  then have "keeps_policy L f m \<longleftrightarrow> fd_threshold f = fd_threshold f' \<and> ?h ` set (fd_signers f) = ?h ` set (fd_signers f')"
    unfolding g by (cases m) auto
  with federations_match[OF assms(1-3) g(1)] assms(4,5,7,8) g show ?thesis by metis
qed

lemma demo_sortedmulti_ok: "sortedmulti_ok demo_lib"
  by (simp add: sortedmulti_ok_def demo_lib_def)

theorem mutation_noticed_witness:
  "\<exists>f' d'. mutate demo_lib 5 demo_federation (Rotate (SignerId ''a'') (demo_signer ''c'' 4)) = Ok f'
     \<and> fd_descriptor f' = Some d'
     \<and> (\<exists>msg. ensure_descriptors_match demo_lib (the (fd_descriptor demo_federation)) d' = Err (PolicyMismatch msg))"
proof -
  let ?m = "Rotate (SignerId ''a'') (demo_signer ''c'' 4)"
  obtain f' where "rotate_signer demo_lib 5 demo_federation (sg_id (demo_signer ''a'' 9)) (demo_signer ''c'' 4) = Ok f'"
    using demo_rotate by blast
  then have f': "mutate demo_lib 5 demo_federation ?m = Ok f'" by (simp add: demo_signer_def)
  then have g: "federation_ok demo_lib f'" "is_bitcoin (fd_network f')"
    by (auto simp: rotate_Ok with_config_Ok demo_federation_def is_bitcoin_def)
  then obtain d' where d': "fd_descriptor f' = Some d'" by (auto simp: federation_ok_def)
  have "zero_index_ok demo_lib" by (simp add: demo_lib_def)
  moreover have "is_bitcoin (fd_network demo_federation)" "fd_script_type demo_federation = Script_Wsh"
      "fd_descriptor demo_federation = Some (the (fd_descriptor demo_federation))"
    by (simp_all add: demo_federation_def is_bitcoin_def)
  moreover have "\<not> keeps_policy demo_lib demo_federation ?m"
    by (simp add: demo_federation_def demo_signer_def key_string_def signer_entry_def wsh_key_def
        demo_lib_def demo_xpub_def dec_inject)
  ultimately have "\<exists>msg. ensure_descriptors_match demo_lib (the (fd_descriptor demo_federation)) d' = Err (PolicyMismatch msg)"
    using mutation_noticed[OF _ demo_sortedmulti_ok demo_federation_ok _ _ f' _ d'] by blast
  with f' d' show ?thesis by blast
qed

end
