(* ===== verification/Backup.thy ===== *)
theory Backup
  imports Snapshot Integrity
begin

text \<open>
  Backups against the live federation: the descriptor text that a snapshot (\<open>src/snapshot.rs\<close>)
  or a recovery template (\<open>src/recovery.rs\<close>) keeps, checked with
  \<open>ensure_descriptor_string_matches\<close> of \<open>src/verify.rs\<close>.
\<close>

lemma descriptor_text:
  assumes "federation_ok L f" "fd_descriptor f = Some d"
  shows "fd_descriptor_string f = desc_to_string L d"
  using assms by (auto simp: federation_ok_def split: if_splits)

lemma snapshot_descriptor: "snapshot_from_federation T now f = Ok snap \<Longrightarrow> fs_descriptor snap = fd_descriptor_string f"
  by (auto simp: snapshot_from_federation_def Let_def result_simps split: if_splits)

lemma template_descriptor: "template_build J T now b = Ok t \<Longrightarrow> rt_descriptor t = fd_descriptor_string (tb_federation b)"
  by (drule template_build_Ok(2)) (simp add: template_draft_fields)

section \<open>Properties\<close>

text \<open>
C27: A backup restores the policy it was made of, and no other: the descriptor text kept in a snapshot or in a
recovery template of a \<open>wsh\<close> federation matches the descriptor of a live federation exactly when
the two have the same threshold and the same keys. A backup always matches its own federation.\<close>

theorem backup_restores_policy:
  assumes "zero_index_ok L" "sortedmulti_ok L" "federation_ok L f" "federation_ok L g"
    and "is_bitcoin (fd_network f)" "is_bitcoin (fd_network g)"
    and "fd_script_type f = Script_Wsh" "fd_script_type g = Script_Wsh"
    and "fd_descriptor f = Some d" "fd_descriptor g = Some e" "desc_from_str L (desc_to_string L e) = Ok e"
    and "snapshot_from_federation T now g = Ok snap" "template_build J T now' b = Ok t" "tb_federation b = g"
  shows "(ensure_descriptor_string_matches L d (fs_descriptor snap) = Ok () \<longleftrightarrow> fd_threshold f = fd_threshold g
      \<and> key_string L (fd_key_mode f) ` set (fd_signers f) = key_string L (fd_key_mode g) ` set (fd_signers g))
    \<and> ensure_descriptor_string_matches L d (rt_descriptor t) = ensure_descriptor_string_matches L d (fs_descriptor snap)"
proof -
  have "fs_descriptor snap = desc_to_string L e" "rt_descriptor t = desc_to_string L e"
    using snapshot_descriptor[OF assms(12)] template_descriptor[OF assms(13)] descriptor_text[OF assms(4,10)] assms(14)
    by simp_all
  then show ?thesis
    using federations_match(1)[OF assms(1-10)] assms(11) by (simp add: ensure_descriptor_string_matches_def)
qed

text \<open>Witness: a library that reads the demo descriptor back.\<close>

definition demo_reading_lib :: ms_lib where
  "demo_reading_lib = demo_lib\<lparr>desc_from_str := (\<lambda>s.
     if s = ''wsh'' then Ok (the (fd_descriptor demo_federation)) else Err ''unknown'')\<rparr>"

lemma demo_reading_ok: "federation_ok demo_reading_lib demo_federation"
  by (simp add: federation_ok_def roster_ok_def demo_reading_lib_def federation_eval)

theorem backup_restores_policy_witness:
  "ensure_descriptor_string_matches demo_reading_lib (the (fd_descriptor demo_federation)) (rt_descriptor demo_template) = Ok ()"
proof -
  obtain snap where snap: "snapshot_from_federation demo_text_lib 3 demo_federation = Ok snap"
    using snapshot_of_federation[OF demo_federation_ok] by blast
  let ?d = "the (fd_descriptor demo_federation)"
  have L: "zero_index_ok demo_reading_lib" "sortedmulti_ok demo_reading_lib"
    by (simp_all add: demo_reading_lib_def demo_lib_def sortedmulti_ok_def)
  have f: "is_bitcoin (fd_network demo_federation)" "fd_script_type demo_federation = Script_Wsh"
      "fd_descriptor demo_federation = Some ?d"
      "desc_from_str demo_reading_lib (desc_to_string demo_reading_lib ?d) = Ok ?d"
    by (simp_all add: demo_federation_def is_bitcoin_def demo_reading_lib_def demo_lib_def)
  have b: "tb_federation (template_builder_new demo_federation) = demo_federation"
    by (simp add: template_builder_new_def)
  from backup_restores_policy[OF L demo_reading_ok demo_reading_ok f(1,1,2,2,3,3,4) snap demo_template_built b]
  show ?thesis by simp
qed

end
