(* ===== verification/Test_Base.thy ===== *)
theory Test_Base
  imports Prelude "HOL-Library.Sublist"
begin

text \<open>
  What the theories of unit tests share. A test function of the source is a definition of type
  \<open>bool\<close>, the conjunction of its assertions; a lemma says that the test passes on the model.
  What a test takes from the environment (random ids, hash orders, library calls) is an argument.
\<close>

text \<open>\<open>unwrap()\<close> and \<open>unwrap_err()\<close>: any other outcome panics, and the test fails.\<close>

definition unwrapped :: "('a, 'e) result \<Rightarrow> ('a \<Rightarrow> bool) \<Rightarrow> bool" where
  "unwrapped r asserts = (case r of Ok x \<Rightarrow> asserts x | _ \<Rightarrow> False)"

definition unwrapped_err :: "('a, 'e) result \<Rightarrow> ('e \<Rightarrow> bool) \<Rightarrow> bool" where
  "unwrapped_err r asserts = (case r of Err e \<Rightarrow> asserts e | _ \<Rightarrow> False)"

lemma unwrapped_simps [simp]:
  "unwrapped (Ok x) P = P x" "\<not> unwrapped (Err e) P" "\<not> unwrapped Panic P"
  "unwrapped_err (Err e) Q = Q e" "\<not> unwrapped_err (Ok x) Q" "\<not> unwrapped_err Panic Q"
  by (simp_all add: unwrapped_def unwrapped_err_def)

lemma sublist_skip: "sublist part s \<Longrightarrow> sublist part (pre @ s)"
  by (auto simp: sublist_def) (metis append.assoc)

text \<open>\<open>[byte; 32]\<close> as a word.\<close>

definition repeat_byte :: "u8 \<Rightarrow> 256 word" where
  "repeat_byte b = foldl (\<lambda>w c. push_bit 8 w + ucast c) 0 (replicate 32 b)"

lemma repeat_byte_sum: "repeat_byte b = ucast b * 0x0101010101010101010101010101010101010101010101010101010101010101"
proof -
  have "replicate 32 b = [b, b, b, b, b, b, b, b, b, b, b, b, b, b, b, b, b, b, b, b, b, b, b, b, b, b, b, b, b, b, b, b]"
    by (simp add: numeral_eq_Suc)
  then show ?thesis unfolding repeat_byte_def by (simp add: push_bit_eq_mult algebra_simps)
qed

end
