(* ===== verification/Migration_Tests.thy ===== *)
theory Migration_Tests
  imports Test_Base Sweep
begin

text \<open>
  The unit tests of \<open>src/migration.rs\<close>, run on the model: the fixtures and each test function
  are definitions, and a lemma says that the test passes. The arithmetic of amounts is
  \<open>sat_amounts\<close>.
\<close>

section \<open>Fixtures\<close>

definition TESTNET :: network_type where "TESTNET = Bitcoin Testnet"

definition MAINNET :: network_type where "MAINNET = Bitcoin Mainnet"

definition dummy_address :: address where
  "dummy_address = ''tb1qw508d6qejxtdg4y5r3zarvary0c5xw7kxpjzsx''"

text \<open>The script of that address: the witness program of BIP-173's first test vector.\<close>

definition dummy_script :: script where
  "dummy_script = [0x00, 0x14, 0x75, 0x1e, 0x76, 0xe8, 0x19, 0x91, 0x96, 0xd4, 0x54, 0x94, 0x1c, 0x45, 0xd1,
     0xb3, 0xa3, 0x23, 0xf1, 0x43, 0x3b, 0xd6]"

definition dummy_utxo :: "u64 \<Rightarrow> u32 \<Rightarrow> local_output" where
  "dummy_utxo amount_sat idx =
     (let byte = ucast (and idx 0xff) in
      \<lparr>lo_outpoint = \<lparr>op_txid = repeat_byte byte, op_vout = idx\<rparr>,
       lo_txout = \<lparr>txo_value = amount_sat, txo_script = dummy_script\<rparr>\<rparr>)"

definition account_set :: "u32 \<Rightarrow> u64 list \<Rightarrow> account_utxo_set" where
  "account_set idx amounts =
     \<lparr>account_idx = idx,
      utxos = map (\<lambda>(i, amt). let global_idx = idx * 100 + of_nat i in dummy_utxo amt global_idx)
                (List.enumerate 0 amounts),
      destination_address = dummy_address\<rparr>"

text \<open>2 satoshi per virtual byte, that is 500 per 1000 weight units.\<close>

definition test_rate :: fee_rate where "test_rate = 500"

definition is_fee_change :: "sweep_output \<Rightarrow> bool" where
  "is_fee_change out = (case out of FeeChange _ _ \<Rightarrow> True | Customer _ _ _ \<Rightarrow> False)"

definition run_afa :: "u32 \<Rightarrow> account_utxo_set list \<Rightarrow> (unsigned_psbt migration_plan, migration_error) result" where
  "run_afa fee_idx accounts = afa_plan sat_amounts fee_idx accounts TESTNET TESTNET test_rate"

definition run_batched :: "u32 \<Rightarrow> amount \<Rightarrow> account_utxo_set list \<Rightarrow> (unsigned_psbt migration_plan, migration_error) result" where
  "run_batched fee_idx limit accounts = batched_plan sat_amounts fee_idx limit accounts TESTNET TESTNET test_rate"

section \<open>One transaction\<close>

definition account_for_account_single_tx :: bool where
  "account_for_account_single_tx \<longleftrightarrow>
     unwrapped (run_afa 0 [account_set 0 [500000], account_set 1 [100000], account_set 2 [200000], account_set 3 [300000, 50000]])
       (\<lambda>plan. length (sweep_transactions plan) = 1
          \<and> length (sweep_outputs (sweep_transactions plan ! 0)) = 4
          \<and> is_fee_final (sweep_transactions plan ! 0))"

definition account_for_account_fee_from_designated_account :: bool where
  "account_for_account_fee_from_designated_account \<longleftrightarrow>
     unwrapped (run_afa 0 [account_set 0 [500000], account_set 1 [100000], account_set 2 [200000]])
       (\<lambda>plan. let outs = sweep_outputs (sweep_transactions plan ! 0);
                   amount_of = (\<lambda>idx. map_option so_amount (List.find (\<lambda>o'. so_account o' = idx) outs))
          in length outs = 3
          \<and> is_fee_change (outs ! 0)
          \<and> amt_sub sat_amounts 500000 (total_fees plan) \<noteq> None
          \<and> amount_of 0 = amt_sub sat_amounts 500000 (total_fees plan)
          \<and> \<not> is_fee_change (outs ! 1)
          \<and> amount_of 1 = Some 100000 \<and> amount_of 2 = Some 200000
          \<and> unwrapped (fold_amounts sat_amounts 0 (map so_amount outs)) (\<lambda>total_output.
               amt_add sat_amounts total_output (total_fees plan) = Some 800000))"

definition account_for_account_skips_empty_accounts :: bool where
  "account_for_account_skips_empty_accounts \<longleftrightarrow>
     unwrapped (run_afa 0 [account_set 0 [500000],
         \<lparr>account_idx = 1, utxos = [], destination_address = dummy_address\<rparr>, account_set 2 [100000]])
       (\<lambda>plan. length (sweep_outputs (sweep_transactions plan ! 0)) = 2)"

definition account_for_account_rejects_missing_fee_account :: bool where
  "account_for_account_rejects_missing_fee_account \<longleftrightarrow>
     unwrapped_err (run_afa 99 [account_set 1 [100000], account_set 2 [200000]])
       (\<lambda>err. case err of InvalidConfig _ \<Rightarrow> True | _ \<Rightarrow> False)"

definition account_for_account_rejects_insufficient_fee_balance :: bool where
  "account_for_account_rejects_insufficient_fee_balance \<longleftrightarrow>
     unwrapped_err (run_afa 0 [account_set 0 [1], account_set 1 [100000], account_set 2 [200000]])
       (\<lambda>err. case err of InsufficientFeeBalance _ _ _ \<Rightarrow> True | _ \<Rightarrow> False)"

definition account_for_account_rejects_empty_input :: bool where
  "account_for_account_rejects_empty_input \<longleftrightarrow> unwrapped_err (run_afa 0 []) (\<lambda>err. err = NoUtxos)"

lemmas plan_eval = run_afa_def run_batched_def TESTNET_def MAINNET_def test_rate_def
  account_set_def dummy_utxo_def is_fee_change_def sweep_eval afa_plan_def afa_output_def missing_fee_account_def

lemma account_for_account_tests_pass:
  "account_for_account_single_tx"
  "account_for_account_fee_from_designated_account"
  "account_for_account_skips_empty_accounts"
  "account_for_account_rejects_missing_fee_account"
  "account_for_account_rejects_insufficient_fee_balance"
  "account_for_account_rejects_empty_input"
  by (simp_all add: plan_eval account_for_account_single_tx_def account_for_account_fee_from_designated_account_def account_for_account_skips_empty_accounts_def account_for_account_rejects_missing_fee_account_def account_for_account_rejects_insufficient_fee_balance_def account_for_account_rejects_empty_input_def)

section \<open>A chain of transactions\<close>

definition batched_account_splits_by_threshold :: bool where
  "batched_account_splits_by_threshold \<longleftrightarrow>
     unwrapped (run_batched 0 100000 [account_set 0 [1000000], account_set 1 [200000], account_set 2 [150000],
         account_set 3 [50000], account_set 4 [30000]])
       (\<lambda>plan. length (sweep_transactions plan) = 4)"

definition batched_account_all_large :: bool where
  "batched_account_all_large \<longleftrightarrow>
     unwrapped (run_batched 0 10000 [account_set 0 [1000000], account_set 1 [200000], account_set 2 [150000]])
       (\<lambda>plan. length (sweep_transactions plan) = 3)"

definition batched_account_all_small :: bool where
  "batched_account_all_small \<longleftrightarrow>
     unwrapped (run_batched 0 1000000 [account_set 0 [5000000], account_set 1 [50000], account_set 2 [30000], account_set 3 [20000]])
       (\<lambda>plan. length (sweep_transactions plan) = 2)"

definition batched_account_fee_account_last :: bool where
  "batched_account_fee_account_last \<longleftrightarrow>
     unwrapped (run_batched 0 100000 [account_set 0 [1000000], account_set 1 [200000], account_set 2 [50000]])
       (\<lambda>plan. sweep_transactions plan \<noteq> []
          \<and> (let last_tx = last (sweep_transactions plan) in
               length (sweep_outputs last_tx) = 1 \<and> is_fee_final last_tx
               \<and> is_fee_change (sweep_outputs last_tx ! 0) \<and> so_account (sweep_outputs last_tx ! 0) = 0)
          \<and> list_all (\<lambda>tx. \<not> is_fee_final tx \<and> length (filter is_fee_change (sweep_outputs tx)) = 1)
              (butlast (sweep_transactions plan)))"

definition batched_account_fee_chain :: bool where
  "batched_account_fee_chain \<longleftrightarrow>
     unwrapped (run_batched 5 100000 [account_set 5 [1000000], account_set 1 [200000], account_set 2 [300000]])
       (\<lambda>plan. let txs = sweep_transactions plan in
          0 < length txs \<and> source_utxos (txs ! 0) \<noteq> []
          \<and> op_txid (last (source_utxos (txs ! 0))) \<noteq> repeat_byte 0
          \<and> (length txs > 2 \<longrightarrow> source_utxos (txs ! 1) \<noteq> []
               \<and> op_txid (last (source_utxos (txs ! 1))) = repeat_byte 0
               \<and> op_vout (last (source_utxos (txs ! 1))) = 0))"

definition batched_account_preflight_rejects_insufficient :: bool where
  "batched_account_preflight_rejects_insufficient \<longleftrightarrow>
     unwrapped_err (run_batched 0 100000 [account_set 0 [100], account_set 1 [200000], account_set 2 [300000]])
       (\<lambda>err. case err of InsufficientFeeBalance _ _ _ \<Rightarrow> True | _ \<Rightarrow> False)"

definition batched_account_rejects_empty_input :: bool where
  "batched_account_rejects_empty_input \<longleftrightarrow> unwrapped_err (run_batched 0 100000 []) (\<lambda>err. err = NoUtxos)"

definition both_account_algorithms_reject_network_mismatch :: bool where
  "both_account_algorithms_reject_network_mismatch \<longleftrightarrow>
     (let accounts = [account_set 0 [500000]];
          mismatch = (\<lambda>err. case err of Me_NetworkMismatch _ _ \<Rightarrow> True | _ \<Rightarrow> False)
      in unwrapped_err (afa_plan sat_amounts 0 accounts TESTNET MAINNET test_rate) mismatch
       \<and> unwrapped_err (batched_plan sat_amounts 0 100000 accounts TESTNET MAINNET test_rate) mismatch)"

lemmas chain_eval = Let_def plan_eval batched_plan_def plan_chain_def plan_large_step_def plan_small_bundle_def
  batched_estimate_total_fees_def index_slice_def synthetic_change_outpoint_def

lemma batched_account_tests_pass:
  "batched_account_splits_by_threshold"
  "batched_account_all_large"
  "batched_account_all_small"
  "batched_account_fee_account_last"
  "batched_account_fee_chain"
  "batched_account_preflight_rejects_insufficient"
  "batched_account_rejects_empty_input"
  "both_account_algorithms_reject_network_mismatch"
  by (simp_all add: chain_eval repeat_byte_sum batched_account_splits_by_threshold_def batched_account_all_large_def batched_account_all_small_def batched_account_fee_account_last_def batched_account_fee_chain_def batched_account_preflight_rejects_insufficient_def batched_account_rejects_empty_input_def both_account_algorithms_reject_network_mismatch_def)

end
