(* ===== verification/Check_Tests.thy ===== *)
theory Check_Tests
  imports Test_Base Roster Signing Snapshot Chain_Sync
begin

text \<open>
  Unit tests of \<open>src/roster.rs\<close>, \<open>src/network.rs\<close>, \<open>src/signer.rs\<close>,
  \<open>src/verify.rs\<close> (outputs), \<open>src/psbt.rs\<close> (the newtype and the combiner) and
  \<open>src/chain_sync.rs\<close> (the adapters), run on the model. The random ids of the roster tests are
  any distinct ones, and the hash sets may iterate in any order.
\<close>

section \<open>Rosters\<close>

definition remove_one_add_one_in_a_single_migration ::
    "(uuid list \<Rightarrow> uuid list) \<Rightarrow> (uuid list \<Rightarrow> uuid list) \<Rightarrow> (uuid list \<Rightarrow> uuid list) \<Rightarrow> uuid list \<Rightarrow> bool" where
  "remove_one_add_one_in_a_single_migration hc ha hr v \<longleftrightarrow>
     (let s1 = v ! 0; s2 = v ! 1; s3 = v ! 2; s4 = v ! 3 in
      unwrapped (compute_roster_plan hc ha hr [s1, s2, s3] [s4] [s2]) (\<lambda>plan.
        next_members plan = [s1, s3, s4]
        \<and> changes plan = [(s1, Keep), (s2, Remove), (s3, Keep), (s4, Add)]))"

definition arbitrary_number_of_changes ::
    "(uuid list \<Rightarrow> uuid list) \<Rightarrow> (uuid list \<Rightarrow> uuid list) \<Rightarrow> (uuid list \<Rightarrow> uuid list) \<Rightarrow> uuid list \<Rightarrow> bool" where
  "arbitrary_number_of_changes hc ha hr v \<longleftrightarrow>
     unwrapped (compute_roster_plan hc ha hr [v ! 0, v ! 1, v ! 2, v ! 3] [v ! 4, v ! 5] [v ! 1, v ! 3]) (\<lambda>plan.
       next_members plan = [v ! 0, v ! 2, v ! 4, v ! 5]
       \<and> length (filter (\<lambda>(_, a). a = Remove) (changes plan)) = 2)"

definition rejects_remove_of_non_member ::
    "(uuid list \<Rightarrow> uuid list) \<Rightarrow> (uuid list \<Rightarrow> uuid list) \<Rightarrow> (uuid list \<Rightarrow> uuid list) \<Rightarrow> uuid list \<Rightarrow> bool" where
  "rejects_remove_of_non_member hc ha hr v \<longleftrightarrow>
     unwrapped_err (compute_roster_plan hc ha hr [v ! 0, v ! 1] [] [v ! 2]) (\<lambda>err. err = RemoveNotMember (v ! 2))"

definition rejects_add_of_existing_member ::
    "(uuid list \<Rightarrow> uuid list) \<Rightarrow> (uuid list \<Rightarrow> uuid list) \<Rightarrow> (uuid list \<Rightarrow> uuid list) \<Rightarrow> uuid list \<Rightarrow> bool" where
  "rejects_add_of_existing_member hc ha hr v \<longleftrightarrow>
     unwrapped_err (compute_roster_plan hc ha hr [v ! 0, v ! 1] [v ! 0] []) (\<lambda>err. err = AddAlreadyMember (v ! 0))"

definition rejects_add_and_remove_same_user ::
    "(uuid list \<Rightarrow> uuid list) \<Rightarrow> (uuid list \<Rightarrow> uuid list) \<Rightarrow> (uuid list \<Rightarrow> uuid list) \<Rightarrow> uuid list \<Rightarrow> bool" where
  "rejects_add_and_remove_same_user hc ha hr v \<longleftrightarrow>
     unwrapped_err (compute_roster_plan hc ha hr [v ! 0, v ! 1] [v ! 1] [v ! 1]) (\<lambda>err. err = AddAndRemove (v ! 1))"

definition rejects_emptying_the_federation ::
    "(uuid list \<Rightarrow> uuid list) \<Rightarrow> (uuid list \<Rightarrow> uuid list) \<Rightarrow> (uuid list \<Rightarrow> uuid list) \<Rightarrow> uuid list \<Rightarrow> bool" where
  "rejects_emptying_the_federation hc ha hr v \<longleftrightarrow>
     unwrapped_err (compute_roster_plan hc ha hr [v ! 0, v ! 1] [] [v ! 0, v ! 1]) (\<lambda>err. err = EmptyResult)"

definition threshold_bounds :: bool where
  "threshold_bounds \<longleftrightarrow>
     unwrapped (validate_threshold 2 3) (\<lambda>m. m = 2) \<and> unwrapped (validate_threshold 1 1) (\<lambda>m. m = 1)
     \<and> unwrapped (validate_threshold 3 3) (\<lambda>m. m = 3)
     \<and> unwrapped_err (validate_threshold 0 3) (\<lambda>_. True) \<and> unwrapped_err (validate_threshold 4 3) (\<lambda>_. True)"

definition relay_liveness_flags_stranded_historic_versions :: "uuid list \<Rightarrow> bool" where
  "relay_liveness_flags_stranded_historic_versions m \<longleftrightarrow>
     (let historic = [\<lparr>hv_members = [m ! 0, m ! 1, m ! 2], hv_threshold = 2\<rparr>] in
      historic_versions_at_risk historic [m ! 0, m ! 3, m ! 4] = [0]
      \<and> historic_versions_at_risk historic [m ! 0, m ! 1, m ! 3] = [])"

lemma hash_singleton: "hash_order h \<Longrightarrow> hash_collect h [x] = [x]"
  using mset_single_iff[of "h [x]" x] by (simp add: hash_order_def hash_collect_def)

lemma hash_nothing: "hash_order h \<Longrightarrow> hash_collect h [] = []"
  using mset_zero_iff[of "h []"] by (simp add: hash_order_def hash_collect_def)

lemma plan_eq:
  "hash_order hc \<Longrightarrow> hash_order ha \<Longrightarrow> hash_order hr \<Longrightarrow> roster_delta_ok cur add rm \<Longrightarrow>
   compute_roster_plan hc ha hr cur add rm = Ok (planned cur add rm)"
  by (simp add: compute_roster_plan_Ok)

lemma roster_plan_tests_pass:
  assumes "hash_order hc" "hash_order ha" "hash_order hr" and "distinct [a, b, c, d, e, f]"
  shows "remove_one_add_one_in_a_single_migration hc ha hr [a, b, c, d]"
    and "arbitrary_number_of_changes hc ha hr [a, b, c, d, e, f]"
  using assms(4)
  by (auto simp: remove_one_add_one_in_a_single_migration_def arbitrary_number_of_changes_def
      plan_eq[OF assms(1-3)] roster_delta_ok_def planned_def)

lemma roster_error_tests_pass:
  assumes "hash_order hc" "hash_order ha" "hash_order hr" and "distinct [a, b, c]"
  shows "rejects_remove_of_non_member hc ha hr [a, b, c]"
    and "rejects_add_of_existing_member hc ha hr [a, b]"
    and "rejects_add_and_remove_same_user hc ha hr [a, b]"
    and "rejects_emptying_the_federation hc ha hr [a, b]"
  using assms(4) compute_roster_plan_checked[OF assms(1-3), of "[]" "[a, b]" "[a, b]"]
  by (auto simp: rejects_remove_of_non_member_def rejects_add_of_existing_member_def
      rejects_add_and_remove_same_user_def rejects_emptying_the_federation_def
      compute_roster_plan_cases[OF assms(1-3)] hash_singleton[OF assms(2)] hash_singleton[OF assms(3)]
      hash_nothing[OF assms(2)] hash_nothing[OF assms(3)] intersection_def)

lemma threshold_bounds_passes: "threshold_bounds"
  by (simp add: threshold_bounds_def validate_threshold_iff)

lemma relay_liveness_passes: "distinct [a, b, c, d, e] \<Longrightarrow> relay_liveness_flags_stranded_historic_versions [a, b, c, d, e]"
  by (auto simp: relay_liveness_flags_stranded_historic_versions_def historic_versions_at_risk_def List.map_filter_def)

section \<open>Networks and signers\<close>

definition bitcoin_returns_inner_network :: bool where
  "bitcoin_returns_inner_network \<longleftrightarrow>
     (let nt = Bitcoin Testnet in nt_bitcoin nt = Some Testnet \<and> is_bitcoin nt)"

definition display_includes_kind_and_network :: "(network \<Rightarrow> string) \<Rightarrow> bool" where
  "display_includes_kind_and_network show_network \<longleftrightarrow>
     (let s = show_network_type show_network (from_network Mainnet) in s = ''bitcoin:bitcoin'')"

definition capabilities_p2wsh_default :: bool where
  "capabilities_p2wsh_default \<longleftrightarrow>
     (let caps = p2wsh_only [Pkcs11] in
      \<not> taproot caps \<and> \<not> musig2 caps \<and> \<not> blind_signing caps \<and> transports caps = [Pkcs11])"

lemma network_and_signer_tests_pass:
  "bitcoin_returns_inner_network"
  "show_network Mainnet = ''bitcoin'' \<Longrightarrow> display_includes_kind_and_network show_network"
  "capabilities_p2wsh_default"
  by (simp_all add: bitcoin_returns_inner_network_def display_includes_kind_and_network_def capabilities_p2wsh_default_def
      nt_bitcoin_def is_bitcoin_def from_network_def p2wsh_only_def)

section \<open>Outputs of a PSBT\<close>

definition spk :: "u8 \<Rightarrow> script" where
  "spk byte = [0x00, 0x14] @ replicate 20 byte"

text \<open>The transaction of the fixture; \<open>from_tx\<close> is \<open>Psbt::from_unsigned_tx\<close>.\<close>

definition psbt_with_outputs :: "(transaction \<Rightarrow> psbt) \<Rightarrow> (script \<times> amount) list \<Rightarrow> psbt" where
  "psbt_with_outputs from_tx outs =
     from_tx \<lparr>tx_version = 2, tx_lock_time = 0,
       tx_input = [\<lparr>previous_output = \<lparr>op_txid = 0, op_vout = - 1\<rparr>, script_sig = [], sequence = 0xFFFFFFFD, witness = []\<rparr>],
       tx_output = map (\<lambda>(s, amt). \<lparr>txo_value = amt, txo_script = s\<rparr>) outs\<rparr>"

definition outputs_match_recipient_plus_change :: "show_lib \<Rightarrow> (transaction \<Rightarrow> psbt) \<Rightarrow> bool" where
  "outputs_match_recipient_plus_change S from_tx \<longleftrightarrow>
     (let recipient = spk 0xAA; change = spk 0xBB;
          psbt = psbt_with_outputs from_tx [(recipient, 50000), (change, 49000)];
          approved = [expected_output_new recipient 50000]
      in unwrapped (verify_psbt_outputs S psbt approved (\<lambda>s. s = change)) (\<lambda>_. True))"

definition tampered_amount_is_rejected :: "show_lib \<Rightarrow> (transaction \<Rightarrow> psbt) \<Rightarrow> bool" where
  "tampered_amount_is_rejected S from_tx \<longleftrightarrow>
     (let recipient = spk 0xAA; change = spk 0xBB;
          psbt = psbt_with_outputs from_tx [(recipient, 40000), (change, 59000)];
          approved = [expected_output_new recipient 50000]
      in unwrapped_err (verify_psbt_outputs S psbt approved (\<lambda>s. s = change)) (\<lambda>err.
           (case err of OutputMismatch _ \<Rightarrow> True | _ \<Rightarrow> False) \<and> str_contains (show_psbt_error err) ''was changed''))"

definition injected_exfil_output_is_rejected :: "show_lib \<Rightarrow> (transaction \<Rightarrow> psbt) \<Rightarrow> bool" where
  "injected_exfil_output_is_rejected S from_tx \<longleftrightarrow>
     (let recipient = spk 0xAA; change = spk 0xBB; attacker = spk 0xCC;
          psbt = psbt_with_outputs from_tx [(recipient, 50000), (attacker, 30000), (change, 19000)];
          approved = [expected_output_new recipient 50000]
      in unwrapped_err (verify_psbt_outputs S psbt approved (\<lambda>s. s = change)) (\<lambda>err.
           str_contains (show_psbt_error err) ''unexpected output''))"

definition dropped_approved_output_is_rejected :: "show_lib \<Rightarrow> (transaction \<Rightarrow> psbt) \<Rightarrow> bool" where
  "dropped_approved_output_is_rejected S from_tx \<longleftrightarrow>
     (let recipient = spk 0xAA; change = spk 0xBB;
          psbt = psbt_with_outputs from_tx [(change, 99000)];
          approved = [expected_output_new recipient 50000]
      in unwrapped_err (verify_psbt_outputs S psbt approved (\<lambda>s. s = change)) (\<lambda>err.
           str_contains (show_psbt_error err) ''missing from PSBT''))"

definition no_change_predicate_requires_exact_output_set :: "show_lib \<Rightarrow> (transaction \<Rightarrow> psbt) \<Rightarrow> bool" where
  "no_change_predicate_requires_exact_output_set S from_tx \<longleftrightarrow>
     (let recipient = spk 0xAA;
          psbt = psbt_with_outputs from_tx [(recipient, 50000)];
          approved = [expected_output_new recipient 50000]
      in unwrapped (verify_psbt_outputs S psbt approved (\<lambda>_. False)) (\<lambda>_. True))"

definition duplicate_approved_outputs_matched_individually :: "show_lib \<Rightarrow> (transaction \<Rightarrow> psbt) \<Rightarrow> bool" where
  "duplicate_approved_outputs_matched_individually S from_tx \<longleftrightarrow>
     (let recipient = spk 0xAA;
          psbt = psbt_with_outputs from_tx [(recipient, 50000), (recipient, 50000)];
          approved = [expected_output_new recipient 50000, expected_output_new recipient 50000]
      in unwrapped (verify_psbt_outputs S psbt approved (\<lambda>_. False)) (\<lambda>_. True))"

lemma spk_inject: "spk a = spk b \<longleftrightarrow> a = b"
  by (simp add: spk_def)

lemma output_tests_pass:
  assumes "\<And>t. unsigned_tx (from_tx t) = t"
  shows "outputs_match_recipient_plus_change S from_tx"
    and "tampered_amount_is_rejected S from_tx"
    and "injected_exfil_output_is_rejected S from_tx"
    and "dropped_approved_output_is_rejected S from_tx"
    and "no_change_predicate_requires_exact_output_set S from_tx"
    and "duplicate_approved_outputs_matched_individually S from_tx"
  using assms
  by (simp_all add: outputs_match_recipient_plus_change_def tampered_amount_is_rejected_def
      injected_exfil_output_is_rejected_def dropped_approved_output_is_rejected_def
      no_change_predicate_requires_exact_output_set_def duplicate_approved_outputs_matched_individually_def
      psbt_with_outputs_def verify_psbt_outputs_def find_unmatched_def describes_def expected_output_new_def spk_inject
      str_contains_def sublist_Cons_right sublist_skip)

section \<open>PSBTs\<close>

definition empty_psbt_at :: "(transaction \<Rightarrow> psbt) \<Rightarrow> u32 \<Rightarrow> psbt" where
  "empty_psbt_at from_tx lock_time =
     from_tx \<lparr>tx_version = 2, tx_lock_time = lock_time, tx_input = [], tx_output = []\<rparr>"

definition empty_psbt :: "(transaction \<Rightarrow> psbt) \<Rightarrow> psbt" where
  "empty_psbt from_tx = empty_psbt_at from_tx 0"

definition unsigned_psbt_accepts_zero_sig_psbt :: "(transaction \<Rightarrow> psbt) \<Rightarrow> bool" where
  "unsigned_psbt_accepts_zero_sig_psbt from_tx \<longleftrightarrow> unwrapped (unsigned_psbt_new (empty_psbt from_tx)) (\<lambda>_. True)"

definition combine_psbt_merges_matching_unsigned_tx :: "('w, 'o) psbt_lib \<Rightarrow> (transaction \<Rightarrow> psbt) \<Rightarrow> bool" where
  "combine_psbt_merges_matching_unsigned_tx P from_tx \<longleftrightarrow>
     (let base = empty_psbt from_tx; other = empty_psbt from_tx in
      unwrapped (combine_psbt P base other) (\<lambda>merged. length (inputs merged) = 0))"

definition combine_psbt_rejects_mismatched_unsigned_tx :: "('w, 'o) psbt_lib \<Rightarrow> (transaction \<Rightarrow> psbt) \<Rightarrow> bool" where
  "combine_psbt_rejects_mismatched_unsigned_tx P from_tx \<longleftrightarrow>
     (let base = empty_psbt_at from_tx 0; other = empty_psbt_at from_tx 1 in
      unwrapped_err (combine_psbt P base other) (\<lambda>err. case err of Pe_Bitcoin _ \<Rightarrow> True | _ \<Rightarrow> False))"

text \<open>A new PSBT has one empty map per input and no global keys; the combiner merges PSBTs of one transaction and refuses
  others.\<close>

lemma psbt_tests_pass:
  assumes "\<And>t. unsigned_tx (from_tx t) = t" "\<And>t. tx_input t = [] \<Longrightarrow> inputs (from_tx t) = []"
    and "\<And>t. global_xpubs (from_tx t) = []"
    and "combiner_ok P" "\<And>p q. unsigned_tx p \<noteq> unsigned_tx q \<Longrightarrow> \<exists>p' e. combine P p q = (p', Err e)"
  shows "unsigned_psbt_accepts_zero_sig_psbt from_tx"
    and "combine_psbt_merges_matching_unsigned_tx P from_tx"
    and "combine_psbt_rejects_mismatched_unsigned_tx P from_tx"
proof -
  let ?p = "empty_psbt from_tx"
  have empty: "inputs ?p = []" using assms(2) by (simp add: empty_psbt_def empty_psbt_at_def)
  then show "unsigned_psbt_accepts_zero_sig_psbt from_tx"
    by (simp add: unsigned_psbt_accepts_zero_sig_psbt_def unsigned_psbt_new_def)
  have "xpubs_agree ?p ?p" using assms(3) by (simp add: xpubs_agree_def empty_psbt_def empty_psbt_at_def)
  with assms(4) obtain r where "combine P ?p ?p = (r, Ok ())" "length (inputs r) = length (inputs ?p)"
    unfolding combiner_ok_def by blast
  with empty show "combine_psbt_merges_matching_unsigned_tx P from_tx"
    by (simp add: combine_psbt_merges_matching_unsigned_tx_def combine_psbt_def)
  obtain p' e where "combine P (empty_psbt_at from_tx 0) (empty_psbt_at from_tx 1) = (p', Err e)"
    using assms(5)[of "empty_psbt_at from_tx 0" "empty_psbt_at from_tx 1"] assms(1) by (auto simp: empty_psbt_at_def)
  then show "combine_psbt_rejects_mismatched_unsigned_tx P from_tx"
    by (simp add: combine_psbt_rejects_mismatched_unsigned_tx_def combine_psbt_def)
qed

section \<open>Adapters of the sync backends\<close>

definition assert_maps :: "'c sync_result \<Rightarrow> 'c option \<Rightarrow> u32 \<Rightarrow> u32 \<Rightarrow> u32 \<Rightarrow> word256 list \<Rightarrow> bool \<Rightarrow> bool" where
  "assert_maps got changeset blocks mempool tip evicted rebuilt \<longleftrightarrow>
     sr_changeset got = changeset \<and> blocks_synced got = blocks \<and> new_mempool_txs got = mempool
     \<and> tip_height got = tip \<and> evicted_txids got = evicted \<and> reorg_rebuilt got = rebuilt"

definition sample_txid :: "u8 \<Rightarrow> word256" where
  "sample_txid byte = repeat_byte byte"

definition from_esplora_sync_result_maps_every_field :: "'c \<Rightarrow> bool" where
  "from_esplora_sync_result_maps_every_field sample_changeset \<longleftrightarrow>
     (let evicted = [sample_txid 0xaa, sample_txid 0xbb];
          src = \<lparr>bs_changeset = Some sample_changeset, bs_blocks_synced = 7, bs_new_mempool_txs = 3,
                 bs_tip_height = 500000, bs_evicted_txids = evicted, bs_reorg_rebuilt = True\<rparr>
      in assert_maps (from_esplora src) (Some sample_changeset) 7 3 500000 evicted True)
     \<and> (let src = \<lparr>bs_changeset = None, bs_blocks_synced = 0, bs_new_mempool_txs = 0,
                   bs_tip_height = 0, bs_evicted_txids = [], bs_reorg_rebuilt = False\<rparr>
        in assert_maps (from_esplora src :: 'c sync_result) None 0 0 0 [] False)"

definition from_electrum_sync_result_maps_every_field :: "'c \<Rightarrow> bool" where
  "from_electrum_sync_result_maps_every_field sample_changeset \<longleftrightarrow>
     (let evicted = [sample_txid 0xaa, sample_txid 0xbb];
          src = \<lparr>bs_changeset = Some sample_changeset, bs_blocks_synced = 7, bs_new_mempool_txs = 3,
                 bs_tip_height = 500000, bs_evicted_txids = evicted, bs_reorg_rebuilt = True\<rparr>
      in assert_maps (from_electrum src) (Some sample_changeset) 7 3 500000 evicted True)
     \<and> (let src = \<lparr>bs_changeset = None, bs_blocks_synced = 0, bs_new_mempool_txs = 0,
                   bs_tip_height = 0, bs_evicted_txids = [], bs_reorg_rebuilt = False\<rparr>
        in assert_maps (from_electrum src :: 'c sync_result) None 0 0 0 [] False)"

lemma adapter_tests_pass:
  "from_esplora_sync_result_maps_every_field c" "from_electrum_sync_result_maps_every_field c"
  by (simp_all add: from_esplora_sync_result_maps_every_field_def from_electrum_sync_result_maps_every_field_def
      assert_maps_def from_esplora_def from_electrum_def)

end
