(* ===== verification/Mock_Signer.thy ===== *)
theory Mock_Signer
  imports Federation
begin

text \<open>
  \<open>src/test_utils.rs\<close>: the deterministic in-memory signer that the \<open>test-utils\<close> feature
  exports. Key derivation is the bitcoin crate's and comes as the argument \<open>K\<close>, with \<open>'k\<close>
  for its extended private keys; \<open>None\<close> is the error that the code unwraps, a panic.
\<close>

section \<open>The signer\<close>

record 'k key_lib =
  new_master :: "network \<Rightarrow> bytes \<Rightarrow> 'k option"
  parse_path :: "string \<Rightarrow> derivation_path option"
  derive_priv :: "'k \<Rightarrow> derivation_path \<Rightarrow> 'k option"
  xpub_from_priv :: "'k \<Rightarrow> xpub"
  xpriv_fingerprint :: "'k \<Rightarrow> fingerprint"
  show_fingerprint :: "fingerprint \<Rightarrow> string"

record mock_signer =
  mk_label :: string
  mk_xpub :: xpub
  mk_fingerprint :: fingerprint
  mk_derivation_path :: derivation_path
  mk_network :: network
  mk_signer_type :: signer_type
  mk_device_type :: device_type

text \<open>\<open>u64::to_be_bytes\<close>, and the 32 bytes that repeat it.\<close>

definition be_bytes64 :: "u64 \<Rightarrow> bytes" where
  "be_bytes64 w = map (\<lambda>i. ucast (drop_bit (8 * (7 - i)) w)) [0..<8]"

definition seed_bytes :: "u64 \<Rightarrow> bytes" where
  "seed_bytes seed = map (\<lambda>i. be_bytes64 seed ! (i mod 8)) [0..<32]"

definition mock_path :: "network \<Rightarrow> string" where
  "mock_path net = (case net of Mainnet \<Rightarrow> ''m/48'' @ [CHR 0x27] @ ''/0'' @ [CHR 0x27] @ ''/0'' @ [CHR 0x27] @ ''/2'' @ [CHR 0x27]
     | _ \<Rightarrow> ''m/48'' @ [CHR 0x27] @ ''/1'' @ [CHR 0x27] @ ''/0'' @ [CHR 0x27] @ ''/2'' @ [CHR 0x27])"

definition with_seed_and_type :: "'k key_lib \<Rightarrow> u64 \<Rightarrow> network \<Rightarrow> signer_type \<Rightarrow> device_type \<Rightarrow>
    (mock_signer, 'e) result" where
  "with_seed_and_type K seed net stype dtype =
     and_then (expect (new_master K net (seed_bytes seed))) (\<lambda>xpriv.
     and_then (expect (parse_path K (mock_path net))) (\<lambda>path.
     and_then (expect (derive_priv K xpriv path)) (\<lambda>derived.
     Ok \<lparr>mk_label = ''mock-'' @ dec (unat seed), mk_xpub = xpub_from_priv K derived,
         mk_fingerprint = xpriv_fingerprint K xpriv, mk_derivation_path = path, mk_network = net,
         mk_signer_type = stype, mk_device_type = dtype\<rparr>)))"

definition with_seed :: "'k key_lib \<Rightarrow> u64 \<Rightarrow> network \<Rightarrow> (mock_signer, 'e) result" where
  "with_seed K seed net = with_seed_and_type K seed net External Generic"

definition hsm :: "'k key_lib \<Rightarrow> u64 \<Rightarrow> network \<Rightarrow> (mock_signer, 'e) result" where
  "hsm K seed net = with_seed_and_type K seed net Software (Hsm ''MockHSM'')"

text \<open>The seed of a label: a wrapping fold over its bytes.\<close>

definition label_seed :: "string \<Rightarrow> u64" where
  "label_seed label = foldl (\<lambda>a b. a * 31 + of_nat (of_char b)) 0 label"

definition generate :: "'k key_lib \<Rightarrow> string \<Rightarrow> network \<Rightarrow> (mock_signer, 'e) result" where
  "generate K label net =
     and_then (with_seed K (label_seed label) net) (\<lambda>s. Ok (s\<lparr>mk_label := label\<rparr>))"

text \<open>What the methods of the \<open>Signer\<close> trait return; the health check reads the clock.\<close>

definition mock_capabilities :: "mock_signer \<Rightarrow> signer_capabilities" where
  "mock_capabilities s =
     \<lparr>blind_signing = False,
      taproot = (case mk_device_type s of Jade \<Rightarrow> True | Hsm _ \<Rightarrow> True | _ \<Rightarrow> False),
      musig2 = False,
      transports = (case mk_signer_type s of Software \<Rightarrow> [Pkcs11] | External \<Rightarrow> [Usb, Qr])\<rparr>"

definition mock_as_signer :: "'k key_lib \<Rightarrow> system_time \<Rightarrow> mock_signer \<Rightarrow> signer" where
  "mock_as_signer K now s =
     \<lparr>sg_id = signer_id_from_fingerprint (show_fingerprint K) (mk_fingerprint s),
      sg_label = Some (mk_label s), sg_xpub = mk_xpub s, sg_fingerprint = mk_fingerprint s,
      sg_derivation_path = mk_derivation_path s, sg_signer_type = mk_signer_type s,
      sg_supported_networks = [Bitcoin (mk_network s)], sg_capabilities = mock_capabilities s,
      sg_health_check = Ok \<lparr>reachable = True, firmware_version = Some ''mock-1.0'', last_seen = Some now\<rparr>\<rparr>"

section \<open>Seeds\<close>

lemma length_be_bytes64 [simp]: "length (be_bytes64 w) = 8"
  by (simp add: be_bytes64_def)

lemma cycle_nth:
  assumes "length xs = 8" "i < 32"
  shows "(xs @ xs @ xs @ xs) ! i = xs ! (i mod 8)"
proof -
  consider "i < 8" | "8 \<le> i" "i < 16" | "16 \<le> i" "i < 24" | "24 \<le> i" using assms(2) by linarith
  then show ?thesis
    using assms by cases (auto simp: nth_append le_mod_geq)
qed

lemma seed_bytes_repeat: "seed_bytes seed = concat (replicate 4 (be_bytes64 seed))"
proof -
  have "concat (replicate 4 (be_bytes64 seed)) = be_bytes64 seed @ be_bytes64 seed @ be_bytes64 seed @ be_bytes64 seed"
    by (simp add: numeral_eq_Suc)
  then show ?thesis
    by (intro nth_equalityI) (simp_all add: seed_bytes_def cycle_nth)
qed

text \<open>The seed of a label is the number it spells in base 31, modulo 2^64.\<close>

lemma label_fold:
  "foldl (\<lambda>a b. a * 31 + of_nat (of_char b)) (of_nat n :: u64) label = of_nat (foldl (\<lambda>a b. a * 31 + of_char b) n label)"
proof (induction label arbitrary: n)
  case (Cons c label)
  have "(of_nat n :: u64) * 31 + of_nat (of_char c) = of_nat (n * 31 + of_char c)" by simp
  then show ?case using Cons[of "n * 31 + of_char c"] by simp
qed simp

lemma label_seed_spells:
  "unat (label_seed label) = foldl (\<lambda>a b. a * 31 + of_char b) 0 label mod 2 ^ 64"
  using label_fold[of 0 label] by (simp add: label_seed_def unat_of_nat take_bit_eq_mod)

section \<open>Federations of mock signers\<close>

lemma with_seed_and_type_Ok:
  "with_seed_and_type K seed net stype dtype = Ok s \<longleftrightarrow>
     (\<exists>xpriv path derived. new_master K net (concat (replicate 4 (be_bytes64 seed))) = Some xpriv
        \<and> parse_path K (mock_path net) = Some path \<and> derive_priv K xpriv path = Some derived
        \<and> s = \<lparr>mk_label = ''mock-'' @ dec (unat seed), mk_xpub = xpub_from_priv K derived,
              mk_fingerprint = xpriv_fingerprint K xpriv, mk_derivation_path = path, mk_network = net,
              mk_signer_type = stype, mk_device_type = dtype\<rparr>)"
  by (auto simp: with_seed_and_type_def seed_bytes_repeat result_simps)

text \<open>Signers made from seeds for one network are accepted as a roster exactly when the threshold
  fits and no two have the same fingerprint.\<close>

lemma mock_roster:
  assumes "inj (show_fingerprint K)" "list_all2 (\<lambda>seed s. with_seed K seed net = (Ok s :: (mock_signer, unit) result)) seeds ss"
  shows "roster_ok m (map (mock_as_signer K now) ss) (Bitcoin net) \<longleftrightarrow>
    0 < m \<and> unat m \<le> length seeds \<and> 2 \<le> length seeds \<and> length seeds < 2 ^ 32 \<and> distinct (map mk_fingerprint ss)"
proof -
  have "mk_network s = net" if "s \<in> set ss" for s
    using that assms(2) by (auto simp: list_all2_conv_all_nth in_set_conv_nth with_seed_def with_seed_and_type_Ok)
  then have nets: "list_all (\<lambda>s. Bitcoin net \<in> set (sg_supported_networks s)) (map (mock_as_signer K now) ss)"
    by (simp add: list_all_iff mock_as_signer_def)
  have "inj (\<lambda>fp. signer_id_from_fingerprint (show_fingerprint K) fp)"
    using assms(1) by (simp add: inj_def signer_id_from_fingerprint_def)
  then have "distinct (map (signer_id_from_fingerprint (show_fingerprint K)) (map mk_fingerprint ss)) \<longleftrightarrow> distinct (map mk_fingerprint ss)"
    by (simp add: distinct_map inj_on_subset[of _ UNIV] del: map_map)
  then have ids: "distinct (map sg_id (map (mock_as_signer K now) ss)) \<longleftrightarrow> distinct (map mk_fingerprint ss)"
    by (simp add: comp_def mock_as_signer_def)
  from list_all2_lengthD[OF assms(2)] nets ids show ?thesis
    by (auto simp: roster_ok_def)
qed

end
