(* ===== verification/Mock_Fixtures.thy ===== *)
theory Mock_Fixtures
  imports Test_Base Mock_Signer Snapshot
begin

text \<open>
  What the unit tests over mock signers run on: a key library in which a private key is the network
  and the last byte of its seed, and a descriptor library that prints in the shape of the real one
  (a key as its origin in brackets and its x coordinate, an extended key as the last byte of that and
  its chain code, a descriptor with its checksum).
\<close>

section \<open>The libraries\<close>

definition test_xpub :: "network \<times> u8 \<Rightarrow> xpub" where
  "test_xpub k = \<lparr>xp_network = (if fst k = Mainnet then Main else Test), xp_depth = 4, xp_parent_fingerprint = 0,
     xp_child_number = 0x80000002, xp_public_key = \<lparr>pk_odd = False, pk_x = ucast (snd k)\<rparr>, xp_chain_code = 0\<rparr>"

definition test_keys :: "(network \<times> u8) key_lib" where
  "test_keys =
     \<lparr>new_master = (\<lambda>net bs. Some (net, last bs)),
      parse_path = (\<lambda>s. Some [0x80000030, 0x80000001, 0x80000000, 0x80000002]),
      derive_priv = (\<lambda>k path. Some k), xpub_from_priv = test_xpub,
      xpriv_fingerprint = (\<lambda>k. ucast (snd k)), show_fingerprint = (\<lambda>fp. dec (unat fp))\<rparr>"

definition show_origin :: "key_source option \<Rightarrow> string" where
  "show_origin src = (case src of None \<Rightarrow> [] | Some (fp, _) \<Rightarrow> ''['' @ dec (unat fp) @ '']'')"

fun test_show_key :: "descriptor_public_key \<Rightarrow> string" where
  "test_show_key (Single s) = show_origin (sp_origin s) @
     (case sp_key s of FullKey k \<Rightarrow> ''02'' @ dec (unat (pk_x (inner k))) | XOnly x \<Rightarrow> dec (unat x))"
| "test_show_key (XPub k) = show_origin (dx_origin k) @ ''tpub'' @ dec (unat (ucast (pk_x (xp_public_key (dx_xkey k))) :: u8)) @ ''.'' @
     dec (unat (xp_chain_code (dx_xkey k))) @
     (if dx_path k = [0] \<and> dx_wildcard k = Unhardened then ''/0/*'' else [])"
| "test_show_key (MultiXPub k) = show_origin (dm_origin k) @ ''tpub''"

definition test_show_descriptor :: "descriptor \<Rightarrow> string" where
  "test_show_descriptor d = (case d of
       Wsh (SortedMulti k ks) \<Rightarrow> ''wsh(sortedmulti('' @ dec k @ '','' @ join '','' (map test_show_key ks) @ ''))#sum''
     | Tr s \<Rightarrow> s @ ''#sum'' | _ \<Rightarrow> ''other'')"

definition test_lib :: ms_lib where
  "test_lib =
     \<lparr>dpk_to_string = test_show_key, desc_to_string = test_show_descriptor,
      desc_from_str = (\<lambda>s. if strip_prefix ''tr('' s \<noteq> None then Ok (Tr (before_char (CHR ''#'') s)) else Err ''not tr''),
      new_wsh_sortedmulti = (\<lambda>k ks. Ok (Wsh (SortedMulti k ks))), from_normal_idx = (\<lambda>i. Ok i),
      hex_decode32 = (\<lambda>s. Ok NUMS_X), pk_from_slice = (\<lambda>s. Ok \<lparr>pk_odd = False, pk_x = NUMS_X\<rparr>),
      kind_from_network = (\<lambda>n. if n = Mainnet then Main else Test),
      debug_kind = (\<lambda>k. if k = Main then ''Main'' else ''Test'')\<rparr>"

section \<open>Mock signers\<close>

definition mock :: "u64 \<Rightarrow> network \<Rightarrow> signer" where
  "mock seed net = (case with_seed test_keys seed net :: (mock_signer, unit) result of
     Ok s \<Rightarrow> mock_as_signer test_keys 0 s | _ \<Rightarrow> demo_signer ''panic'' 0)"

definition starts_with :: "string \<Rightarrow> string \<Rightarrow> bool" where
  "starts_with s p \<longleftrightarrow> strip_prefix p s \<noteq> None"

lemma last_seed_byte: "last (concat (replicate 4 (be_bytes64 seed))) = ucast seed"
proof -
  have "be_bytes64 seed \<noteq> []" by (simp add: be_bytes64_def)
  then have "last (concat (replicate 4 (be_bytes64 seed))) = last (be_bytes64 seed)"
    by (simp add: numeral_eq_Suc)
  also have "\<dots> = ucast seed" by (simp add: be_bytes64_def last_map)
  finally show ?thesis .
qed

lemma mock_eq:
  "mock seed net =
     \<lparr>sg_id = SignerId (dec (unat (ucast (ucast seed :: u8) :: u32))), sg_label = Some (''mock-'' @ dec (unat seed)),
      sg_xpub = test_xpub (net, ucast seed), sg_fingerprint = ucast (ucast seed :: u8),
      sg_derivation_path = [0x80000030, 0x80000001, 0x80000000, 0x80000002], sg_signer_type = External,
      sg_supported_networks = [Bitcoin net],
      sg_capabilities = \<lparr>blind_signing = False, taproot = False, musig2 = False, transports = [Usb, Qr]\<rparr>,
      sg_health_check = Ok \<lparr>reachable = True, firmware_version = Some ''mock-1.0'', last_seen = Some 0\<rparr>\<rparr>"
  by (simp add: mock_def with_seed_def with_seed_and_type_def test_keys_def seed_bytes_repeat last_seed_byte
      mock_as_signer_def signer_id_from_fingerprint_def mock_capabilities_def)

lemma dec_seeds:
  "dec 1 = ''1''" "dec 2 = ''2''" "dec 3 = ''3''" "dec 4 = ''4''" "dec 5 = ''5''" "dec 6 = ''6''" "dec 7 = ''7''"
  "dec 11 = ''11''" "dec 12 = ''12''" "dec 13 = ''13''" "dec 21 = ''21''" "dec 22 = ''22''" "dec 23 = ''23''"
  "dec 99 = ''99''" "dec 9 = ''9''" "dec 192 = ''192''" "dec (Suc 0) = ''1''" "dec (Suc (Suc 0)) = ''2''" "dec (Suc (Suc (Suc 0))) = ''3''" "dec 0 = ''0''"
  by code_simp+

end
