(* ===== verification/Descriptor_Tests.thy ===== *)
theory Descriptor_Tests
  imports Mock_Fixtures Verify
begin

text \<open>
  Unit tests of \<open>src/descriptor.rs\<close> and of the descriptor half of \<open>src/verify.rs\<close>, run on
  the model with the libraries of \<open>Mock_Fixtures\<close>. The tests that look at addresses, at hex
  digits or that parse a \<open>wsh\<close> descriptor back are left out: they test the libraries.
\<close>

section \<open>The builder\<close>

definition three_signers :: "signer list" where
  "three_signers = [mock 1 Testnet, mock 2 Testnet, mock 3 Testnet]"

text \<open>Adding the signers one by one and building, each step unwrapped.\<close>

definition built :: "descriptor_builder \<Rightarrow> signer list \<Rightarrow> (descriptor \<Rightarrow> bool) \<Rightarrow> bool" where
  "built b ss asserts \<longleftrightarrow> unwrapped (add_signers b ss) (\<lambda>b'. unwrapped (build test_lib b') asserts)"

definition test_builder :: descriptor_builder where
  "test_builder = builder_new 2 (Bitcoin Testnet)"

definition fixed_mode_produces_wsh_sortedmulti :: bool where
  "fixed_mode_produces_wsh_sortedmulti \<longleftrightarrow> built test_builder three_signers (\<lambda>desc.
     let s = desc_to_string test_lib desc in
     starts_with s ''wsh(sortedmulti(2,'' \<and> \<not> str_contains s ''/*'')"

definition ranged_mode_includes_wildcard :: bool where
  "ranged_mode_includes_wildcard \<longleftrightarrow> built (builder_key_mode Ranged test_builder) three_signers (\<lambda>desc.
     let s = desc_to_string test_lib desc in str_contains s ''/0/*'')"

definition duplicate_signer_id_rejected :: bool where
  "duplicate_signer_id_rejected \<longleftrightarrow>
     (let s1 = mock 7 Testnet; s1b = s1 in
      case builder_add_signer test_builder s1 of (b, r) \<Rightarrow>
        unwrapped r (\<lambda>_. unwrapped_err (snd (builder_add_signer b s1b)) (\<lambda>err.
          case err of DuplicateKey _ \<Rightarrow> True | _ \<Rightarrow> False)))"

definition same_print :: "descriptor_builder \<Rightarrow> signer list \<Rightarrow> signer list \<Rightarrow> bool" where
  "same_print b ss ts \<longleftrightarrow> built b ss (\<lambda>d. built b ts (\<lambda>e. desc_to_string test_lib d = desc_to_string test_lib e))"

definition ordering_is_canonical_by_signer_id :: bool where
  "ordering_is_canonical_by_signer_id \<longleftrightarrow>
     (let s1 = mock 11 Testnet; s2 = mock 12 Testnet; s3 = mock 13 Testnet in
      same_print test_builder [s1, s2, s3] [s3, s1, s2] \<and> same_print test_builder [s3, s1, s2] [s2, s3, s1])"

definition multipath_helper_replaces_external_wildcard :: bool where
  "multipath_helper_replaces_external_wildcard \<longleftrightarrow> built (builder_key_mode Ranged test_builder) three_signers (\<lambda>desc.
     let mp = to_multipath_string test_lib desc in str_contains mp ''/<0;1>/*'' \<and> \<not> str_contains mp ''/0/*'')"

definition multipath_helper_strips_stale_checksum :: bool where
  "multipath_helper_strips_stale_checksum \<longleftrightarrow> built (builder_key_mode Ranged test_builder) three_signers (\<lambda>desc.
     let mp = to_multipath_string test_lib desc in CHR ''#'' \<notin> set mp)"

definition tr_mode_produces_tr_multi_a :: bool where
  "tr_mode_produces_tr_multi_a \<longleftrightarrow> built (builder_script_type Script_Tr test_builder) three_signers (\<lambda>desc.
     let s = desc_to_string test_lib desc in
     starts_with s ''tr('' \<and> str_contains s NUMS_INTERNAL_KEY \<and> str_contains s ''multi_a(2,''
     \<and> \<not> str_contains s ''sortedmulti'')"

definition tr_mode_ordering_is_canonical :: bool where
  "tr_mode_ordering_is_canonical \<longleftrightarrow>
     (let s1 = mock 21 Testnet; s2 = mock 22 Testnet; s3 = mock 23 Testnet; b = builder_script_type Script_Tr test_builder in
      same_print b [s1, s2, s3] [s3, s1, s2] \<and> same_print b [s1, s2, s3] [s2, s3, s1])"

definition tr_ranged_builds_multi_a_with_wildcards :: bool where
  "tr_ranged_builds_multi_a_with_wildcards \<longleftrightarrow>
     built (builder_key_mode Ranged (builder_script_type Script_Tr test_builder)) three_signers (\<lambda>desc.
     let s = desc_to_string test_lib desc in
     starts_with s ''tr('' \<and> str_contains s ''multi_a(2,'' \<and> str_contains s ''/0/*'' \<and> str_contains s NUMS_INTERNAL_KEY)"

definition tr_ranged_multipath_round_trips :: bool where
  "tr_ranged_multipath_round_trips \<longleftrightarrow>
     built (builder_key_mode Ranged (builder_script_type Script_Tr test_builder)) three_signers (\<lambda>desc.
     let mp = to_multipath_string test_lib desc in
     str_contains mp ''/<0;1>/*'' \<and> \<not> str_contains mp ''/0/*'' \<and> is_ok (desc_from_str test_lib mp))"

definition tr_ranged_order_is_canonical_across_insertion :: bool where
  "tr_ranged_order_is_canonical_across_insertion \<longleftrightarrow>
     (let s1 = mock 21 Testnet; s2 = mock 22 Testnet; s3 = mock 23 Testnet;
          b = builder_key_mode Ranged (builder_script_type Script_Tr test_builder) in
      same_print b [s1, s2, s3] [s3, s1, s2] \<and> same_print b [s1, s2, s3] [s2, s3, s1])"

lemmas build_eval = built_def same_print_def test_builder_def three_signers_def test_lib_def test_show_descriptor_def
  show_origin_def test_xpub_def mock_eq dec_seeds builder_new_def builder_key_mode_def builder_script_type_def
  builder_add_signer_def build_def build_wsh_def build_taproot_def sorted_taproot_keys_def build_taproot_key_def
  x_only_public_key_def taproot_internal_key_str_def nt_bitcoin_def build_descriptor_key_def entry_origin_def
  reject_duplicate_keys_def starts_with_def str_contains_def sublist_Cons_right
  before_char_def Let_def word_le_nat_alt

lemma wsh_tests_pass:
  "fixed_mode_produces_wsh_sortedmulti"
  "ranged_mode_includes_wildcard"
  "duplicate_signer_id_rejected"
  "ordering_is_canonical_by_signer_id"
  by (simp_all add: fixed_mode_produces_wsh_sortedmulti_def ranged_mode_includes_wildcard_def
      duplicate_signer_id_rejected_def ordering_is_canonical_by_signer_id_def build_eval)

lemma tr_mode_produces_tr_multi_a_passes: "tr_mode_produces_tr_multi_a"
  by (simp add: tr_mode_produces_tr_multi_a_def build_eval NUMS_INTERNAL_KEY_def)

lemma tr_mode_ordering_is_canonical_passes: "tr_mode_ordering_is_canonical"
  by (simp add: tr_mode_ordering_is_canonical_def build_eval)

lemma tr_ranged_order_is_canonical_across_insertion_passes: "tr_ranged_order_is_canonical_across_insertion"
  by (simp add: tr_ranged_order_is_canonical_across_insertion_def build_eval)

lemmas multipath_eval = to_multipath_string_def replace_all.simps build_eval

lemma multipath_helper_replaces_external_wildcard_passes: "multipath_helper_replaces_external_wildcard"
  by (simp add: multipath_helper_replaces_external_wildcard_def multipath_eval)

lemma multipath_helper_strips_stale_checksum_passes: "multipath_helper_strips_stale_checksum"
  by (simp add: multipath_helper_strips_stale_checksum_def multipath_eval)

text \<open>The remaining tests look at one descriptor, built once.\<close>

lemma tr_ranged_built:
  "built (builder_key_mode Ranged (builder_script_type Script_Tr test_builder)) three_signers asserts =
     asserts (Tr ''tr(50929b74c1a04954b78b4b6035e97a5e078a5a0f28ec96d547bfee9ace803ac0,multi_a(2,[1]tpub1.0/0/*,[2]tpub2.0/0/*,[3]tpub3.0/0/*))'')"
  by (simp add: build_eval NUMS_INTERNAL_KEY_def)

lemma tr_ranged_builds_multi_a_with_wildcards_passes: "tr_ranged_builds_multi_a_with_wildcards"
  unfolding tr_ranged_builds_multi_a_with_wildcards_def tr_ranged_built
  by (simp add: test_lib_def test_show_descriptor_def starts_with_def str_contains_def sublist_Cons_right NUMS_INTERNAL_KEY_def)

lemma tr_ranged_multipath:
  "to_multipath_string test_lib (Tr ''tr(50929b74c1a04954b78b4b6035e97a5e078a5a0f28ec96d547bfee9ace803ac0,multi_a(2,[1]tpub1.0/0/*,[2]tpub2.0/0/*,[3]tpub3.0/0/*))'') =
     ''tr(50929b74c1a04954b78b4b6035e97a5e078a5a0f28ec96d547bfee9ace803ac0,multi_a(2,[1]tpub1.0/<0;1>/*,[2]tpub2.0/<0;1>/*,[3]tpub3.0/<0;1>/*))''"
  by (simp add: to_multipath_string_def replace_all.simps before_char_def test_lib_def test_show_descriptor_def)

lemma tr_ranged_multipath_round_trips_passes: "tr_ranged_multipath_round_trips"
  unfolding tr_ranged_multipath_round_trips_def tr_ranged_built Let_def tr_ranged_multipath
  by (simp add: is_ok_def test_lib_def str_contains_def sublist_Cons_right)

end
