(* ===== verification/Federation_Tests.thy ===== *)
theory Federation_Tests
  imports Descriptor_Tests
begin

text \<open>
  Unit tests of \<open>src/federation.rs\<close> and of the policy comparison of \<open>src/verify.rs\<close>, run
  on the model with the libraries of \<open>Mock_Fixtures\<close>.
\<close>

section \<open>Construction\<close>

definition test_signers :: "u64 list \<Rightarrow> signer list" where
  "test_signers seeds = map (\<lambda>s. box_signer (mock s Testnet)) seeds"

definition test_federation :: "u32 \<Rightarrow> u64 list \<Rightarrow> (federation, federation_error) result" where
  "test_federation m seeds = federation_new test_lib 0 m (test_signers seeds) (from_network Testnet)"

definition build_2_of_3 :: bool where
  "build_2_of_3 \<longleftrightarrow> unwrapped (test_federation 2 [1, 2, 3]) (\<lambda>f.
     fd_threshold f = 2 \<and> total_signers f = 3
     \<and> starts_with (fd_descriptor_string f) ''wsh(sortedmulti(2,'' \<and> fd_script_type f = Script_Wsh)"

definition build_taproot_2_of_3 :: bool where
  "build_taproot_2_of_3 \<longleftrightarrow>
     unwrapped (with_config test_lib 0 2 (test_signers [1, 2, 3]) (from_network Testnet) Fixed Script_Tr) (\<lambda>f.
       fd_script_type f = Script_Tr
       \<and> (let d = fd_descriptor_string f in starts_with d ''tr('' \<and> str_contains d ''multi_a(2,''))"

definition taproot_survives_mutation :: bool where
  "taproot_survives_mutation \<longleftrightarrow>
     unwrapped (with_config test_lib 0 2 (map (\<lambda>s. mock s Testnet) [1, 2, 3]) (from_network Testnet) Fixed Script_Tr) (\<lambda>f.
       unwrapped (rotate_signer test_lib 0 f (sg_id (fd_signers f ! 0)) (mock 99 Testnet)) (\<lambda>rotated.
         fd_script_type rotated = Script_Tr \<and> starts_with (fd_descriptor_string rotated) ''tr('')
       \<and> unwrapped (change_threshold test_lib 0 f 1) (\<lambda>smaller.
         fd_script_type smaller = Script_Tr \<and> starts_with (fd_descriptor_string smaller) ''tr(''))"

definition taproot_ranged_builds_at_federation :: bool where
  "taproot_ranged_builds_at_federation \<longleftrightarrow>
     unwrapped (with_config test_lib 0 2 (test_signers [1, 2, 3]) (from_network Testnet) Ranged Script_Tr) (\<lambda>fed.
       fd_script_type fed = Script_Tr \<and> fd_key_mode fed = Ranged
       \<and> (let s = fd_descriptor_string fed in
            starts_with s ''tr('' \<and> str_contains s ''multi_a(2,'' \<and> str_contains s ''/0/*''))"

definition rejects_zero_threshold :: bool where
  "rejects_zero_threshold \<longleftrightarrow> unwrapped_err (test_federation 0 [1, 2]) (\<lambda>err. err = ZeroThreshold)"

definition rejects_threshold_above_n :: bool where
  "rejects_threshold_above_n \<longleftrightarrow>
     unwrapped_err (test_federation 4 [1, 2, 3]) (\<lambda>err. err = ThresholdExceedsSignerCount 4 3)"

definition rejects_too_few_signers :: bool where
  "rejects_too_few_signers \<longleftrightarrow> unwrapped_err (test_federation 1 [1]) (\<lambda>err. err = InsufficientSigners 1)"

definition rejects_network_mismatch :: bool where
  "rejects_network_mismatch \<longleftrightarrow>
     (let s_test = box_signer (mock 1 Testnet); s_main = box_signer (mock 2 Mainnet) in
      unwrapped_err (federation_new test_lib 0 2 [s_test, s_main] (from_network Testnet)) (\<lambda>err.
        case err of SignerNetworkMismatch _ _ \<Rightarrow> True | _ \<Rightarrow> False))"

section \<open>Mutations\<close>

definition add_signer_extends_set :: bool where
  "add_signer_extends_set \<longleftrightarrow>
     unwrapped (test_federation 2 [1, 2, 3]) (\<lambda>f.
     unwrapped (federation_new test_lib 0 1 [mock 1 Testnet, mock 2 Testnet] (from_network Testnet)) (\<lambda>typed.
     unwrapped (add_signer test_lib 0 typed (mock 3 Testnet)) (\<lambda>added.
       total_signers added = 3 \<and> fd_descriptor_string typed \<noteq> fd_descriptor_string added \<and> total_signers f = 3)))"

definition remove_signer_shrinks_set :: bool where
  "remove_signer_shrinks_set \<longleftrightarrow>
     (let s1 = mock 1 Testnet; s2 = mock 2 Testnet; s3 = mock 3 Testnet; id1 = sg_id s1 in
      unwrapped (federation_new test_lib 0 2 [s1, s2, s3] (from_network Testnet)) (\<lambda>f.
      unwrapped (remove_signer test_lib 0 f id1) (\<lambda>smaller.
        total_signers smaller = 2 \<and> \<not> contains smaller id1)))"

definition remove_below_threshold_fails :: bool where
  "remove_below_threshold_fails \<longleftrightarrow>
     (let s1 = mock 1 Testnet; s2 = mock 2 Testnet; id1 = sg_id s1 in
      unwrapped (federation_new test_lib 0 2 [s1, s2] (from_network Testnet)) (\<lambda>f.
      unwrapped_err (remove_signer test_lib 0 f id1) (\<lambda>err.
        case err of InsufficientSigners _ \<Rightarrow> True | ThresholdExceedsSignerCount _ _ \<Rightarrow> True | _ \<Rightarrow> False)))"

definition rotate_signer_replaces_one :: bool where
  "rotate_signer_replaces_one \<longleftrightarrow>
     (let s1 = mock 1 Testnet; s2 = mock 2 Testnet; s3 = mock 3 Testnet; id1 = sg_id s1 in
      unwrapped (federation_new test_lib 0 2 [s1, s2, s3] (from_network Testnet)) (\<lambda>f.
      let new = mock 99 Testnet in
      unwrapped (rotate_signer test_lib 0 f id1 new) (\<lambda>rotated.
        total_signers rotated = 3 \<and> \<not> contains rotated id1 \<and> contains rotated (sg_id new))))"

definition change_threshold_updates_descriptor :: bool where
  "change_threshold_updates_descriptor \<longleftrightarrow>
     unwrapped (federation_new test_lib 0 2 [mock 1 Testnet, mock 2 Testnet, mock 3 Testnet] (from_network Testnet)) (\<lambda>f.
     unwrapped (change_threshold test_lib 0 f 3) (\<lambda>f3.
       fd_threshold f3 = 3 \<and> starts_with (fd_descriptor_string f3) ''wsh(sortedmulti(3,''))"

lemmas federation_test_eval = build_eval test_federation_def test_signers_def federation_new_def with_key_mode_def
  with_config_def validate_inputs_def is_bitcoin_def from_network_def build_federation_descriptor_def total_signers_def
  contains_def find_signer_def rotate_signer_def add_signer_def remove_signer_def change_threshold_def

lemma construction_tests_pass:
  "build_2_of_3"
  "rejects_zero_threshold"
  "rejects_threshold_above_n"
  "rejects_too_few_signers"
  "rejects_network_mismatch"
  by (simp_all add: build_2_of_3_def rejects_zero_threshold_def rejects_threshold_above_n_def
      rejects_too_few_signers_def rejects_network_mismatch_def federation_test_eval)

lemma taproot_tests_pass:
  "build_taproot_2_of_3"
  "taproot_survives_mutation"
  "taproot_ranged_builds_at_federation"
  by (simp_all add: build_taproot_2_of_3_def taproot_survives_mutation_def taproot_ranged_builds_at_federation_def
      federation_test_eval NUMS_INTERNAL_KEY_def)

lemma mutation_tests_pass:
  "add_signer_extends_set"
  "remove_signer_shrinks_set"
  "remove_below_threshold_fails"
  "rotate_signer_replaces_one"
  "change_threshold_updates_descriptor"
  by (simp_all add: add_signer_extends_set_def remove_signer_shrinks_set_def remove_below_threshold_fails_def
      rotate_signer_replaces_one_def change_threshold_updates_descriptor_def federation_test_eval)

section \<open>Policies\<close>

definition desc_from :: "u64 list \<Rightarrow> u32 \<Rightarrow> (descriptor \<Rightarrow> bool) \<Rightarrow> bool" where
  "desc_from seeds threshold asserts \<longleftrightarrow>
     built (builder_new threshold (Bitcoin Testnet)) (map (\<lambda>s. mock s Testnet) seeds) asserts"

definition identical_signer_sets_match_regardless_of_order :: bool where
  "identical_signer_sets_match_regardless_of_order \<longleftrightarrow>
     desc_from [1, 2, 3] 2 (\<lambda>a. desc_from [3, 1, 2] 2 (\<lambda>b.
       unwrapped (descriptors_match test_lib a b) (\<lambda>m. m) \<and> unwrapped (ensure_descriptors_match test_lib a b) (\<lambda>_. True)))"

definition swapped_cosigner_is_rejected :: bool where
  "swapped_cosigner_is_rejected \<longleftrightarrow>
     desc_from [1, 2, 3] 2 (\<lambda>expected. desc_from [1, 2, 99] 2 (\<lambda>hostile.
       unwrapped (descriptors_match test_lib expected hostile) (\<lambda>m. \<not> m)
       \<and> unwrapped_err (ensure_descriptors_match test_lib expected hostile) (\<lambda>err.
           (case err of PolicyMismatch _ \<Rightarrow> True | _ \<Rightarrow> False)
           \<and> (let msg = show_descriptor_error err in
                str_contains msg ''unexpected key'' \<and> str_contains msg ''missing expected key''))))"

definition threshold_change_is_rejected :: bool where
  "threshold_change_is_rejected \<longleftrightarrow>
     desc_from [1, 2, 3] 2 (\<lambda>expected. desc_from [1, 2, 3] 1 (\<lambda>hostile.
       unwrapped_err (ensure_descriptors_match test_lib expected hostile) (\<lambda>err.
         str_contains (show_descriptor_error err) ''threshold 2 != 1'')))"

definition ranged_mode_policy_extractable_and_matches :: bool where
  "ranged_mode_policy_extractable_and_matches \<longleftrightarrow>
     (let signers = map (\<lambda>s. mock s Testnet) [1, 2, 3];
          mk = built (builder_key_mode Ranged (builder_new 2 (Bitcoin Testnet))) signers in
      mk (\<lambda>a. mk (\<lambda>b.
        unwrapped (policy_of test_lib a) (\<lambda>pol. mp_threshold pol = 2 \<and> length (mp_keys pol) = 3)
        \<and> unwrapped (ensure_descriptors_match test_lib a b) (\<lambda>_. True))))"

definition non_sortedmulti_descriptor_is_unsupported :: bool where
  "non_sortedmulti_descriptor_is_unsupported \<longleftrightarrow>
     (let desc = Wpkh ''02f9308a019258c31049344f85f89d5229b531c845836f99b08601f113bce036f9'' in
      unwrapped_err (policy_of test_lib desc) (\<lambda>err.
        (case err of UnsupportedShape _ \<Rightarrow> True | _ \<Rightarrow> False)
        \<and> str_contains (show_descriptor_error err) ''wpkh''))"

lemmas policy_eval = build_eval desc_from_def descriptors_match_def ensure_descriptors_match_def bset_collect_def
  bset_difference_def mismatch_reasons_def debug_strings_def debug_string_def debug_char_def

lemma policy_tests_pass:
  "identical_signer_sets_match_regardless_of_order"
  "swapped_cosigner_is_rejected"
  "threshold_change_is_rejected"
  "ranged_mode_policy_extractable_and_matches"
  "non_sortedmulti_descriptor_is_unsupported"
  by (simp_all add: identical_signer_sets_match_regardless_of_order_def swapped_cosigner_is_rejected_def
      threshold_change_is_rejected_def ranged_mode_policy_extractable_and_matches_def
      non_sortedmulti_descriptor_is_unsupported_def policy_eval)

end
