(* ===== verification/Wallet_Tests.thy ===== *)
theory Wallet_Tests
  imports Federation_Tests Federation_Build
begin

text \<open>
  Unit tests of \<open>src/federated_wallet.rs\<close>, \<open>src/snapshot.rs\<close>, \<open>src/recovery.rs\<close> and
  \<open>src/federation_build.rs\<close>, run on the model with the libraries of \<open>Mock_Fixtures\<close>. A
  wallet is the list of its unspent outputs, and a new one has none. Tests that read JSON back or
  look at addresses are left out: they test serde and miniscript.
\<close>

section \<open>Federated wallets\<close>

definition make_federation :: "u64 list \<Rightarrow> u32 \<Rightarrow> (federation, federation_error) result" where
  "make_federation seeds threshold =
     federation_new test_lib 0 threshold (map (\<lambda>s. mock s Regtest) seeds) (from_network Regtest)"

definition make_wallet :: "federation \<Rightarrow> local_output list" where
  "make_wallet f = []"

text \<open>Two steps that most tests start with: a wallet of one federation, and one that has been pushed on
  it.\<close>

definition first_wallet :: "u64 list \<Rightarrow> u32 \<Rightarrow> (local_output list btc_federated_wallet \<Rightarrow> bool) \<Rightarrow> bool" where
  "first_wallet seeds m asserts \<longleftrightarrow>
     unwrapped (make_federation seeds m) (\<lambda>fed. let wallet = make_wallet fed in unwrapped (wallet_new fed wallet) asserts)"

definition next_wallet :: "local_output list btc_federated_wallet \<Rightarrow> u64 list \<Rightarrow> u32 \<Rightarrow>
    (local_output list btc_federated_wallet \<Rightarrow> bool) \<Rightarrow> bool" where
  "next_wallet fw seeds m asserts \<longleftrightarrow>
     unwrapped (make_federation seeds m) (\<lambda>fed. let wallet = make_wallet fed in unwrapped (with_federation fw fed wallet) asserts)"

definition construct_with_initial_federation :: bool where
  "construct_with_initial_federation \<longleftrightarrow> first_wallet [1, 2, 3] 2 (\<lambda>fw.
     bw_federation_count fw = 1 \<and> map_option fw_index (bw_current fw) = Some 0 \<and> bw_threshold fw = Some 2)"

definition with_federation_adds_and_preserves_original :: bool where
  "with_federation_adds_and_preserves_original \<longleftrightarrow> first_wallet [1, 2, 3] 2 (\<lambda>fw1. next_wallet fw1 [1, 3, 4] 2 (\<lambda>fw2.
     bw_federation_count fw1 = 1 \<and> bw_federation_count fw2 = 2 \<and> map_option fw_index (bw_current fw2) = Some 1))"

definition find_by_signer_returns_correct_federations :: bool where
  "find_by_signer_returns_correct_federations \<longleftrightarrow>
     (let id2 = sg_id (mock 2 Regtest) in first_wallet [1, 2, 3] 2 (\<lambda>fw1. next_wallet fw1 [1, 3, 4] 2 (\<lambda>fw.
        let matches = bw_find_by_signer fw id2 in length matches = 1 \<and> fw_index (matches ! 0) = 0)))"

definition network_mismatch_rejected :: bool where
  "network_mismatch_rejected \<longleftrightarrow> first_wallet [1, 2, 3] 2 (\<lambda>fw.
     unwrapped (federation_new test_lib 0 2 (map (\<lambda>s. mock s Testnet) [4, 5, 6]) (from_network Testnet)) (\<lambda>fed2.
       let w2 = make_wallet fed2 in
       unwrapped_err (with_federation fw fed2 w2) (\<lambda>err. case err of We_NetworkMismatch _ _ \<Rightarrow> True | _ \<Rightarrow> False)))"

definition current_returns_last :: bool where
  "current_returns_last \<longleftrightarrow>
     first_wallet [1, 2, 3] 2 (\<lambda>fw1. next_wallet fw1 [1, 3, 4] 2 (\<lambda>fw2. next_wallet fw2 [1, 4, 5] 2 (\<lambda>fw.
       map_option fw_index (bw_current fw) = Some 2 \<and> bw_federation_count fw = 3)))"

definition total_balance_sums_all_wallets :: bool where
  "total_balance_sums_all_wallets \<longleftrightarrow> first_wallet [1, 2, 3] 2 (\<lambda>fw.
     unwrapped (total_balance demo_wallet_lib sat_amounts fw) (\<lambda>total. total = 0))"

definition utxos_at_returns_only_indexed_federation :: bool where
  "utxos_at_returns_only_indexed_federation \<longleftrightarrow> first_wallet [1, 2, 3] 2 (\<lambda>fw1. next_wallet fw1 [1, 3, 4] 2 (\<lambda>fw.
     utxos_at demo_wallet_lib fw 0 = Some [] \<and> utxos_at demo_wallet_lib fw 1 = Some []
     \<and> utxos_at demo_wallet_lib fw 99 = None))"

definition removed_signer_in_all_but_not_current :: bool where
  "removed_signer_in_all_but_not_current \<longleftrightarrow>
     (let id2 = sg_id (mock 2 Regtest) in first_wallet [1, 2, 3] 2 (\<lambda>fw1. next_wallet fw1 [1, 3, 4] 2 (\<lambda>fw.
        id2 \<in> bw_all_signer_ids fw
        \<and> (case bw_current_signer_ids fw of Some ids \<Rightarrow> id2 \<notin> ids | None \<Rightarrow> False))))"

definition signer_is_current_false_for_rotated_out :: bool where
  "signer_is_current_false_for_rotated_out \<longleftrightarrow>
     (let id2 = sg_id (mock 2 Regtest) in first_wallet [1, 2, 3] 2 (\<lambda>fw1. next_wallet fw1 [1, 3, 4] 2 (\<lambda>fw.
        bw_signer_is_current fw id2 = Some False \<and> bw_signer_is_current fw (sg_id (mock 4 Regtest)) = Some True)))"

definition immutability_original_unchanged_after_with_federation :: bool where
  "immutability_original_unchanged_after_with_federation \<longleftrightarrow> first_wallet [1, 2, 3] 2 (\<lambda>fw1.
     let original_count = bw_federation_count fw1; original_threshold = bw_threshold fw1 in
     next_wallet fw1 [1, 3, 4] 3 (\<lambda>fw2.
       bw_federation_count fw1 = original_count \<and> bw_threshold fw1 = original_threshold))"

lemmas wallet_eval = federation_test_eval first_wallet_def next_wallet_def make_federation_def make_wallet_def
  wallet_new_def with_federation_def bw_current_def bw_federation_count_def bw_threshold_def last_opt_def
  bw_find_by_signer_def bw_signer_is_current_def bw_all_signer_ids_def bw_current_signer_ids_def
  utxos_at_def get_def total_balance_def demo_wallet_lib_def sat_amounts_def

lemma wallet_tests_pass:
  "construct_with_initial_federation"
  "with_federation_adds_and_preserves_original"
  "network_mismatch_rejected"
  "current_returns_last"
  "total_balance_sums_all_wallets"
  "utxos_at_returns_only_indexed_federation"
  by (simp_all add: construct_with_initial_federation_def with_federation_adds_and_preserves_original_def
      network_mismatch_rejected_def current_returns_last_def total_balance_sums_all_wallets_def
      utxos_at_returns_only_indexed_federation_def wallet_eval)

lemma membership_tests_pass:
  "find_by_signer_returns_correct_federations"
  "removed_signer_in_all_but_not_current"
  "signer_is_current_false_for_rotated_out"
  "immutability_original_unchanged_after_with_federation"
  by (simp_all add: find_by_signer_returns_correct_federations_def removed_signer_in_all_but_not_current_def
      signer_is_current_false_for_rotated_out_def immutability_original_unchanged_after_with_federation_def wallet_eval)

section \<open>Snapshots\<close>

definition snapshot_of_test_federation :: "(federation_snapshot \<Rightarrow> bool) \<Rightarrow> bool" where
  "snapshot_of_test_federation asserts \<longleftrightarrow>
     unwrapped (test_federation 2 [1, 2, 3]) (\<lambda>fed. unwrapped (snapshot_from_federation demo_text_lib 0 fed) asserts)"

definition is_invalid_threshold :: "snapshot_error \<Rightarrow> bool" where
  "is_invalid_threshold err = (case err of InvalidThreshold _ \<Rightarrow> True | _ \<Rightarrow> False)"

definition verify_passes_for_well_formed_snapshot :: bool where
  "verify_passes_for_well_formed_snapshot \<longleftrightarrow>
     snapshot_of_test_federation (\<lambda>snap. unwrapped (snapshot_verify demo_text_lib snap) (\<lambda>_. True))"

definition verify_rejects_bad_threshold :: bool where
  "verify_rejects_bad_threshold \<longleftrightarrow>
     snapshot_of_test_federation (\<lambda>snap. let snap = snap\<lparr>fs_threshold := 99\<rparr> in
       unwrapped_err (snapshot_verify demo_text_lib snap) is_invalid_threshold)"

definition verify_rejects_signer_count_mismatch :: bool where
  "verify_rejects_signer_count_mismatch \<longleftrightarrow>
     snapshot_of_test_federation (\<lambda>snap. let snap = snap\<lparr>fs_signers := butlast (fs_signers snap)\<rparr> in
       unwrapped_err (snapshot_verify demo_text_lib snap) is_invalid_threshold)"

definition federated_wallet_snapshot_verify_passes :: bool where
  "federated_wallet_snapshot_verify_passes \<longleftrightarrow> first_wallet [1, 2, 3] 2 (\<lambda>fw.
     unwrapped (snapshot_from_wallet demo_text_lib (\<lambda>_. 0) (bw_wallets fw) (bw_network fw)) (\<lambda>snap.
       unwrapped (wallet_snapshot_verify demo_text_lib snap) (\<lambda>_. True)))"

definition federated_wallet_snapshot_verify_rejects_empty :: bool where
  "federated_wallet_snapshot_verify_rejects_empty \<longleftrightarrow>
     (let snap = \<lparr>ws_federations = [], ws_network = Bitcoin Regtest, ws_created_at = now_truncated_to_seconds 0\<rparr> in
      unwrapped_err (wallet_snapshot_verify demo_text_lib snap) is_invalid_threshold)"

definition federated_wallet_snapshot_verify_rejects_network_mismatch :: bool where
  "federated_wallet_snapshot_verify_rejects_network_mismatch \<longleftrightarrow> first_wallet [1, 2, 3] 2 (\<lambda>fw.
     unwrapped (snapshot_from_wallet demo_text_lib (\<lambda>_. 0) (bw_wallets fw) (bw_network fw)) (\<lambda>snap.
       let snap = snap\<lparr>ws_network := Bitcoin Testnet\<rparr> in
       unwrapped_err (wallet_snapshot_verify demo_text_lib snap) (\<lambda>err. case err of Se_Json _ \<Rightarrow> True | _ \<Rightarrow> False)))"

lemmas snapshot_eval = wallet_eval snapshot_of_test_federation_def is_invalid_threshold_def snapshot_from_federation_def
  signer_snapshot_of_def demo_text_lib_def snapshot_verify_def snapshot_from_wallet_def wallet_snapshot_verify_def

lemma snapshot_tests_pass:
  "verify_passes_for_well_formed_snapshot"
  "verify_rejects_bad_threshold"
  "verify_rejects_signer_count_mismatch"
  by (simp_all add: verify_passes_for_well_formed_snapshot_def verify_rejects_bad_threshold_def
      verify_rejects_signer_count_mismatch_def snapshot_eval)

lemma wallet_snapshot_tests_pass:
  "federated_wallet_snapshot_verify_passes"
  "federated_wallet_snapshot_verify_rejects_empty"
  "federated_wallet_snapshot_verify_rejects_network_mismatch"
  by (simp_all add: federated_wallet_snapshot_verify_passes_def federated_wallet_snapshot_verify_rejects_empty_def
      federated_wallet_snapshot_verify_rejects_network_mismatch_def snapshot_eval)

section \<open>Recovery templates\<close>

definition includes_default_softwares :: "json_lib \<Rightarrow> text_lib \<Rightarrow> bool" where
  "includes_default_softwares J T \<longleftrightarrow>
     unwrapped (test_federation 2 [1, 2, 3]) (\<lambda>fed. unwrapped (from_federation J T 0 fed) (\<lambda>t.
       map (\<lambda>i. software_name (ri_software i)) (rt_instructions t)
         = [''Bitcoin Core'', ''Sparrow Wallet'', ''Specter Desktop'', ''Nunchuk'']))"

definition printable_contains_descriptor :: "json_lib \<Rightarrow> text_lib \<Rightarrow> bool" where
  "printable_contains_descriptor J T \<longleftrightarrow>
     unwrapped (test_federation 2 [1, 2, 3]) (\<lambda>fed. unwrapped (from_federation J T 0 fed) (\<lambda>t.
       let p = to_printable T t in str_contains p (rt_descriptor t) \<and> str_contains p ''Threshold: 2 of 3''))"

lemma test_template:
  assumes "from_federation J T 0 fed = Ok t" "fd_threshold fed = 2" "total_signers fed = 3"
  shows "map (\<lambda>i. software_name (ri_software i)) (rt_instructions t)
      = [''Bitcoin Core'', ''Sparrow Wallet'', ''Specter Desktop'', ''Nunchuk'']"
    and "sublist (rt_descriptor t) (to_printable T t)"
    and "sublist ''Threshold: 2 of 3'' (to_printable T t)"
proof -
  have t: "rt_threshold t = 2" "rt_total_signers t = 3"
    using assms by (auto simp: from_federation_def template_build_def template_draft_def template_builder_new_def Let_def)
  show "map (\<lambda>i. software_name (ri_software i)) (rt_instructions t)
      = [''Bitcoin Core'', ''Sparrow Wallet'', ''Specter Desktop'', ''Nunchuk'']"
    using assms(1,3) by (auto simp: from_federation_def template_build_def template_draft_def template_builder_new_def Let_def
        bitcoin_core_instructions_def sparrow_instructions_def specter_instructions_def nunchuk_instructions_def)
  show "sublist (rt_descriptor t) (to_printable T t)"
    by (simp add: to_printable_def sublist_Cons_right sublist_skip)
  show "sublist ''Threshold: 2 of 3'' (to_printable T t)"
    by (simp add: to_printable_def t dec_u32_def dec_seeds nl_def sublist_Cons_right)
qed

lemma recovery_tests_pass: "includes_default_softwares J T" "printable_contains_descriptor J T"
proof -
  obtain fed where fed: "test_federation 2 [1, 2, 3] = Ok fed" "fd_threshold fed = 2" "total_signers fed = 3"
    using construction_tests_pass(1) by (auto simp: build_2_of_3_def unwrapped_def split: result.splits)
  moreover obtain t where t: "from_federation J T 0 fed = Ok t"
    using fed(3) by (auto simp: from_federation_def template_build_def template_builder_new_def Let_def)
  ultimately show "includes_default_softwares J T" "printable_contains_descriptor J T"
    using test_template[OF t fed(2,3)]
    by (simp_all add: includes_default_softwares_def printable_contains_descriptor_def str_contains_def Let_def)
qed

section \<open>Built federations\<close>

definition roster :: "u64 list \<Rightarrow> signer list" where
  "roster seeds = map (\<lambda>s. mock s Testnet) seeds"

text \<open>The reader of JSON only has to give an object.\<close>

definition test_json :: json_lib where
  "test_json = demo_json_lib\<lparr>from_json_str := (\<lambda>_. Ok (JObject []))\<rparr>"

definition is_object :: "json \<Rightarrow> bool" where
  "is_object j = (case j of JObject _ \<Rightarrow> True | _ \<Rightarrow> False)"

definition test_taproot :: "(word256, string) result \<Rightarrow> u64 list \<Rightarrow> nums_chaincode \<Rightarrow> (built_federation \<times> word256, emvault_error) result" where
  "test_taproot rng seeds cc =
     build_federation_taproot_with test_lib test_json demo_text_lib rng 0 0 (roster seeds) 2 (Bitcoin Testnet) cc"

definition builds_descriptor_and_snapshot :: bool where
  "builds_descriptor_and_snapshot \<longleftrightarrow>
     unwrapped (build_federation test_lib test_json demo_text_lib 0 0 (roster [1, 2, 3]) 2 (Bitcoin Testnet)) (\<lambda>built.
       starts_with (bf_descriptor_string built) ''wsh(sortedmulti(2'' \<and> is_object (bf_snapshot_json built))"

definition same_roster_yields_same_descriptor :: bool where
  "same_roster_yields_same_descriptor \<longleftrightarrow>
     unwrapped (build_federation test_lib test_json demo_text_lib 0 0 (roster [1, 2, 3]) 2 (Bitcoin Testnet)) (\<lambda>a.
     unwrapped (build_federation test_lib test_json demo_text_lib 0 0 (roster [3, 1, 2]) 2 (Bitcoin Testnet)) (\<lambda>b.
       bf_descriptor_string a = bf_descriptor_string b))"

definition taproot_xpub_nums_descriptor_shape :: bool where
  "taproot_xpub_nums_descriptor_shape \<longleftrightarrow>
     unwrapped (test_taproot Panic [1, 2, 3] (Custom 7)) (\<lambda>(built, cc).
       cc = 7
       \<and> (let d = bf_descriptor_string built in
            starts_with d ''tr('' \<and> str_contains d ''multi_a(2,'' \<and> str_contains d ''/<0;1>/*''
            \<and> str_contains d ''tpub'' \<and> \<not> str_contains d NUMS_INTERNAL_KEY))"

definition raw_nums_taproot_path_unchanged :: bool where
  "raw_nums_taproot_path_unchanged \<longleftrightarrow>
     unwrapped (build_federation_with test_lib test_json demo_text_lib 0 0 (roster [1, 2, 3]) 2 (Bitcoin Testnet) Script_Tr) (\<lambda>built.
       str_contains (bf_descriptor_string built) NUMS_INTERNAL_KEY)"

definition custom_reproducible_random_unique :: bool where
  "custom_reproducible_random_unique \<longleftrightarrow>
     unwrapped (test_taproot Panic [1, 2, 3] (Custom 9)) (\<lambda>(a, _).
     unwrapped (test_taproot Panic [3, 1, 2] (Custom 9)) (\<lambda>(b, _).
       bf_descriptor_string a = bf_descriptor_string b))
     \<and> unwrapped (test_taproot (Ok 1) [1, 2, 3] Random) (\<lambda>(d1, cc1).
       unwrapped (test_taproot (Ok 2) [1, 2, 3] Random) (\<lambda>(d2, cc2).
       cc1 \<noteq> cc2 \<and> bf_descriptor_string d1 \<noteq> bf_descriptor_string d2))"

definition bip388_policy_free_fn_matches_builder :: bool where
  "bip388_policy_free_fn_matches_builder \<longleftrightarrow>
     unwrapped (federation_bip388_policy test_lib (roster [1, 2, 3]) 2 (Bitcoin Testnet) 5) (\<lambda>pol.
       bp_template pol = ''tr(@0/**,multi_a(2,@1/**,@2/**,@3/**))'' \<and> length (bp_keys pol) = 4
       \<and> starts_with (bp_keys pol ! 0) ''tpub'' \<and> CHR ''['' \<notin> set (bp_keys pol ! 0))"

definition bip388_policy_matches_descriptor :: bool where
  "bip388_policy_matches_descriptor \<longleftrightarrow>
     unwrapped (add_signers (builder_taproot_internal_key (NumsXpub 5)
         (builder_script_type Script_Tr (builder_key_mode Ranged (builder_new 2 (Bitcoin Testnet))))) (roster [1, 2, 3])) (\<lambda>b.
     unwrapped (bip388_taproot_policy_of test_lib b) (\<lambda>pol.
       bp_template pol = ''tr(@0/**,multi_a(2,@1/**,@2/**,@3/**))'' \<and> length (bp_keys pol) = 4
       \<and> starts_with (bp_keys pol ! 0) ''tpub'' \<and> CHR ''['' \<notin> set (bp_keys pol ! 0)
       \<and> list_all (\<lambda>k. CHR ''['' \<in> set k \<and> str_contains k ''tpub'') (tl (bp_keys pol))
       \<and> list_all (\<lambda>k. CHR ''*'' \<notin> set k) (bp_keys pol)))"

lemmas taproot_eval = roster_def builder_taproot_internal_key_def taproot_builder_def
  nums_xpub_descriptor_key_def nums_xpub_def NUMS_X_def

lemmas built_eval = federation_test_eval taproot_eval build_federation_def build_federation_with_def build_with_signers_def
  snapshot_json_of_def snapshot_from_federation_def test_json_def test_taproot_def build_federation_taproot_with_def
  to_multipath_string_def replace_all.simps

lemma builds_descriptor_and_snapshot_passes: "builds_descriptor_and_snapshot"
  by (simp add: builds_descriptor_and_snapshot_def is_object_def built_eval)

lemma same_roster_passes: "same_roster_yields_same_descriptor"
  by (simp add: same_roster_yields_same_descriptor_def built_eval)

lemma taproot_xpub_nums_passes: "taproot_xpub_nums_descriptor_shape"
  by (simp add: taproot_xpub_nums_descriptor_shape_def built_eval NUMS_INTERNAL_KEY_def)

lemma raw_nums_passes: "raw_nums_taproot_path_unchanged"
  by (simp add: raw_nums_taproot_path_unchanged_def built_eval NUMS_INTERNAL_KEY_def)

lemma custom_descriptor:
  "seeds = [1, 2, 3] \<or> seeds = [3, 1, 2] \<Longrightarrow> \<exists>j. test_taproot Panic seeds (Custom 9) =
     Ok (\<lparr>bf_descriptor_string = ''tr(tpub192.9/<0;1>/*,multi_a(2,[1]tpub1.0/<0;1>/*,[2]tpub2.0/<0;1>/*,[3]tpub3.0/<0;1>/*))'',
         bf_snapshot_json = j\<rparr>, 9)"
  by (elim disjE) (simp_all add: built_eval)

lemma random_descriptor:
  "test_taproot (Ok 1) [1, 2, 3] Random = Ok (\<lparr>bf_descriptor_string = ''tr(tpub192.1/<0;1>/*,multi_a(2,[1]tpub1.0/<0;1>/*,[2]tpub2.0/<0;1>/*,[3]tpub3.0/<0;1>/*))'',
      bf_snapshot_json = JObject []\<rparr>, 1)"
  "test_taproot (Ok 2) [1, 2, 3] Random = Ok (\<lparr>bf_descriptor_string = ''tr(tpub192.2/<0;1>/*,multi_a(2,[1]tpub1.0/<0;1>/*,[2]tpub2.0/<0;1>/*,[3]tpub3.0/<0;1>/*))'',
      bf_snapshot_json = JObject []\<rparr>, 2)"
  by (simp_all add: built_eval)

lemma custom_reproducible_passes: "custom_reproducible_random_unique"
  using custom_descriptor[of "[1, 2, 3]"] custom_descriptor[of "[3, 1, 2]"]
  by (auto simp: custom_reproducible_random_unique_def random_descriptor)

lemma bip388_tests_pass: "bip388_policy_free_fn_matches_builder" "bip388_policy_matches_descriptor"
  by (simp_all add: bip388_policy_free_fn_matches_builder_def bip388_policy_matches_descriptor_def federation_bip388_policy_def
      bip388_taproot_policy_of_def strip_wildcard_def trim_end_matches_def trim_start.simps build_eval taproot_eval)

end
