(* ===== verification/Spec2Isabelle.thy ===== *)
theory Spec2Isabelle
  imports Relay Planners Vault Chain_Sync Federation_Build Backup
    Migration_Tests Check_Tests Wallet_Tests
begin

text \<open>
  A verification development for \<open>emvault-core\<close>, the Rust library of an m-of-n multisig
  bitcoin vault (\<open>src/src/*.rs\<close>, built with the \<open>elements\<close> feature).

  \<^bold>\<open>The program.\<close> A federation is a threshold and a list of signers; on a Bitcoin network
  it carries the descriptor that the descriptor builder makes of them. It is never changed in place:
  rotating, adding or removing a signer and changing the threshold build a new federation. A
  federated wallet is the stack of all versions, each with a watch-only BDK wallet that chain sync
  keeps up to date. When the federation changes, a sweep planner plans the transactions that move the
  funds of the old versions to the newest, and the roster planner checks the change of membership.
  Every spend goes through the signing coordinator, which collects signatures in a PSBT and finalizes
  it; before that, a signer compares descriptors and outputs with what was approved. Snapshots and
  recovery templates export a federation as checked JSON.

  \<^bold>\<open>The theories\<close>, in the order of their imports:

  \<^item> \<open>Prelude\<close>: machine integers (\<open>u32\<close>, \<open>u64\<close> as words; \<open>usize\<close> as
    \<open>nat\<close>), \<open>result\<close> with \<open>Ok\<close>, \<open>Err\<close> and \<open>Panic\<close>,
    \<open>BTreeMap\<close> (the locale \<open>ordered_map\<close>, interpreted on sorted association lists as
    \<open>bt\<close>), decimal printing, and the locales \<open>transition_system\<close> and
    \<open>growing_system\<close> for invariants along histories.
  \<^item> \<open>Network\<close>, \<open>Identity\<close>, \<open>Signer\<close>, \<open>Errors\<close>: \<open>network.rs\<close>,
    \<open>signer.rs\<close> and \<open>error.rs\<close>. A \<open>dyn Signer\<close> is the record of what its methods
    return.
  \<^item> \<open>Chain_Types\<close>: the keys, descriptors, transactions and PSBTs of the bitcoin and
    miniscript crates, as data.
  \<^item> \<open>Roster\<close>: \<open>roster.rs\<close>. The rows and errors of a roster plan, and its independence
    of the iteration order of hash sets.
  \<^item> \<open>Verify\<close>: \<open>verify.rs\<close>. What \<open>ensure_descriptors_match\<close> and
    \<open>verify_psbt_outputs\<close> accept.
  \<^item> \<open>Migration\<close>, \<open>Migration_Chain\<close>, \<open>Sweep\<close>, \<open>Planners\<close>:
    \<open>migration.rs\<close>. The two planners, the batched one in closed form, their conservation laws
    (the trait \<open>SweepAlgorithm\<close> is the locale \<open>sweep_algorithm\<close>, with the
    interpretations \<open>afa\<close> and \<open>batched\<close>), when they fail or panic, the shape of their
    plans and their agreement.
  \<^item> \<open>Descriptor\<close>: \<open>descriptor.rs\<close>. When the builder succeeds and what it builds, for
    both script types and key modes, and the BIP-388 policy.
  \<^item> \<open>Federation\<close>: \<open>federation.rs\<close>. The invariant \<open>federation_ok\<close>, kept along
    every history (interpretation \<open>fed_history\<close>), round trips and order independence.
    \<open>Federation_Spec\<close>: the abstract quorum that the mutations refine. \<open>Integrity\<close>:
    what comparing the descriptors before and after a mutation notices.
  \<^item> \<open>Federated_Wallet\<close>: \<open>federated_wallet.rs\<close>. The trait is the locale
    \<open>federated_wallet\<close> with the interpretation \<open>btc\<close>; the stack only grows
    (\<open>wallet_history\<close>); what a migration asks of its sweep algorithm and makes of the
    answers. \<open>Vault\<close>: the wallet and its mutating federations together
    (\<open>vault_history\<close>).
  \<^item> \<open>Psbt\<close>: \<open>psbt.rs\<close>. The coordinator as a step relation (interpretations
    \<open>session\<close> and \<open>keeping_session\<close>), what it accepts and when it finalizes.
    \<open>Signing\<close>: verification, session and finalization composed. \<open>Relay\<close>: what the
    roster's warning about old versions means for their sessions.
  \<^item> \<open>Chain_Sync\<close>: \<open>chain_sync.rs\<close>. The drive loop, the reorg signals, the rebuild
    (interpretation \<open>synced_wallet\<close>).
  \<^item> \<open>Json\<close>, \<open>Recovery\<close>: \<open>recovery.rs\<close>. Canonical JSON is injective up to key
    order; templates and their checksum.
  \<^item> \<open>Snapshot\<close>, \<open>Federation_Build\<close>: \<open>snapshot.rs\<close> and
    \<open>federation_build.rs\<close>. What a snapshot says and what \<open>verify\<close> checks; the artifacts
    of a federation version. \<open>Backup\<close>: snapshots and templates against a live federation.
  \<^item> \<open>Mock_Signer\<close>: \<open>test_utils.rs\<close>, the mock signer of the \<open>test-utils\<close>
    feature.
  \<^item> \<open>Migration_Tests\<close>, \<open>Check_Tests\<close>, \<open>Descriptor_Tests\<close>,
    \<open>Federation_Tests\<close>, \<open>Wallet_Tests\<close> (over \<open>Test_Base\<close> and
    \<open>Mock_Fixtures\<close>): the unit tests inside the source files. Each test function is a
    definition and a lemma says that the model passes it, so the model agrees with what the
    repository itself checks of the code.

  \<^bold>\<open>State and effects.\<close> A method on \<open>&mut self\<close> takes the state and returns the
  new one; a method that consumes \<open>self\<close> returns the result. \<open>SystemTime::now()\<close>, the
  random generator and the orders in which hash sets are iterated are arguments.
  \<open>unwrap\<close>, \<open>expect\<close>, checked arithmetic of \<open>Amount\<close> and slice indexing give
  \<open>Panic\<close> where the code panics.

  \<^bold>\<open>Parameters\<close> stand for the crates the code calls, one record of functions each:
  \<open>ms_lib\<close> (printing, parsing and derivation of keys and descriptors), \<open>amount_lib\<close>
  (\<open>Amount\<close>, \<open>Weight\<close>, \<open>FeeRate\<close>), \<open>show_lib\<close>, \<open>wallet_lib\<close>,
  \<open>psbt_lib\<close>, \<open>key_lib\<close>, \<open>load_lib\<close>, \<open>node_lib\<close> and \<open>bdk_lib\<close> (BDK wallets, the
  PSBT combiner, the bitcoind emitter), \<open>json_lib\<close> and \<open>text_lib\<close> (serde_json, hashing,
  formatting). What a property needs of them is a named hypothesis over documented behaviour:
  \<open>amount_lib_ok\<close> (checked operators fail on overflow only), \<open>psbt_lib_ok\<close> (signing and
  combining leave the unsigned transaction), \<open>extraction_ok\<close> (so do finalizing and
  extracting), \<open>combiner_ok\<close> (BIP-174 combination of
  PSBTs that agree on the sources of extended keys), \<open>bdk_views_ok\<close> and
  \<open>bdk_identity_ok\<close> (what the wallet's views say of its chain, and that updates keep its
  descriptors), \<open>json_lib_ok\<close> and \<open>text_lib_ok\<close> (quoting and printing are injective),
  \<open>zero_index_ok\<close> (0 is a child index), \<open>sortedmulti_ok\<close> (the descriptor constructor
  keeps its arguments), \<open>hash_order\<close> (iterating a hash set permutes it).
  Every hypothesis is met by a concrete instance in a witness.

  \<^bold>\<open>Bounds.\<close> \<open>accounts_ok\<close> and \<open>fees_ok\<close> keep sums under 21 million
  bitcoin, 21 * 10^14 satoshi, which every amount on the chain is; without them a sum may overflow
  \<open>u64\<close> and panic. Counters of the sync saturate at \<open>u32::MAX\<close>; more than
  \<open>u32::MAX\<close> signers panic.

  \<^bold>\<open>Termination.\<close> No definition uses fuel. The drive loop of the sync runs until the
  emitter has nothing left, so it is an \<open>option\<close>-valued partial function and \<open>None\<close>
  is not returning; \<open>sync_returns\<close> says that it returns against every node that
  \<open>runs_dry\<close>. All other loops are structural or have a measure.

  \<^bold>\<open>Not modelled.\<close> The decoding that serde derives (a parameter; the encoding is
  modelled), \<open>Debug\<close> implementations, getters that return one field, the re-exports of
  \<open>lib.rs\<close>, the unit tests that test a library rather than the code (decoding JSON,
  addresses, hex digits, BDK's fixtures), and the insides of BDK, miniscript,
  bitcoin and serde. The encoding of the fingerprint, path and time types by other crates is a
  parameter too.
\<close>

end
